theory Spec2Isabelle
  imports Complex_Main "HOL-Library.Sublist"
begin

section \<open>Python values, builtins and containers\<close>

text \<open>
  A spreadsheet cell as pandas hands it to the converters: the missing marker, a number,
  a text, or a timestamp. A timestamp is represented by its ISO-8601 rendering (what
  \<^verbatim>\<open>isoformat()\<close> returns). Strings are byte strings; a character outside ASCII is
  written as its UTF-8 bytes, which leaves equality, concatenation, prefix and substring
  tests and splitting at an ASCII character as they are on code points.
\<close>

datatype cell = NaN | Number real | Text string | Timestamp string

text \<open>A Python float: a real number or the not-a-number value.\<close>

datatype pyfloat = FNaN | Float real

text \<open>A value read by \<^verbatim>\<open>json.loads\<close>.\<close>

datatype json =
    JNull
  | JBool bool
  | JNum real
  | JStr string
  | JArr "json list"
  | JObj "(string \<times> json) list"

datatype error =
    KeyError string
  | ValueError string
  | TypeError
  | IndexError
  | JSONDecodeError string

text \<open>
  The builtins of the Python runtime that the converters call and that are not code of
  the repository: \<^verbatim>\<open>float\<close> on a text (\<open>None\<close> when it raises ValueError), \<^verbatim>\<open>str\<close>
  on a number, and \<^verbatim>\<open>json.loads\<close> (\<open>None\<close> when it raises JSONDecodeError).
\<close>

record builtins =
  float_of_str :: "string \<Rightarrow> pyfloat option"
  str_of_num :: "real \<Rightarrow> string"
  json_loads :: "string \<Rightarrow> json option"

fun isna :: "cell \<Rightarrow> bool" where
  "isna NaN = True"
| "isna (Number r) = False"
| "isna (Text s) = False"
| "isna (Timestamp s) = False"

fun py_str :: "builtins \<Rightarrow> cell \<Rightarrow> string" where
  "py_str B NaN = ''nan''"
| "py_str B (Number r) = str_of_num B r"
| "py_str B (Text s) = s"
| "py_str B (Timestamp s) = map (\<lambda>c. if c = CHR ''T'' then CHR '' '' else c) s"

fun py_float :: "builtins \<Rightarrow> cell \<Rightarrow> error + pyfloat" where
  "py_float B NaN = Inr FNaN"
| "py_float B (Number r) = Inr (Float r)"
| "py_float B (Text s) =
     (case float_of_str B s of None \<Rightarrow> Inl (ValueError s) | Some v \<Rightarrow> Inr v)"
| "py_float B (Timestamp s) = Inl TypeError"

text \<open>\<^verbatim>\<open>isinstance(timestamp, (datetime, pd.Timestamp))\<close> and \<^verbatim>\<open>timestamp.isoformat()\<close>.\<close>

fun isoformat_if_timestamp :: "cell \<Rightarrow> cell" where
  "isoformat_if_timestamp (Timestamp s) = Text s"
| "isoformat_if_timestamp NaN = NaN"
| "isoformat_if_timestamp (Number r) = Number r"
| "isoformat_if_timestamp (Text s) = Text s"

definition startswith :: "string \<Rightarrow> string \<Rightarrow> bool" where
  "startswith s p = prefix p s"

text \<open>\<^verbatim>\<open>sub in s\<close> on strings.\<close>

fun contains :: "string \<Rightarrow> string \<Rightarrow> bool" where
  "contains [] sub = (sub = [])"
| "contains (c # s) sub = (prefix sub (c # s) \<or> contains s sub)"

text \<open>\<^verbatim>\<open>s.split(c)\<close> for a one-character separator: never empty.\<close>

fun py_split :: "char \<Rightarrow> string \<Rightarrow> string list" where
  "py_split c [] = [[]]"
| "py_split c (x # xs) =
     (if x = c then [] # py_split c xs
      else (case py_split c xs of
              [] \<Rightarrow> [[x]]
            | p # ps \<Rightarrow> (x # p) # ps))"

text \<open>
  A loop whose body may raise: the state is threaded through the elements in order and
  the first error ends the loop. \<^verbatim>\<open>continue\<close> is a body that returns its state.
\<close>

fun for_each :: "('a \<Rightarrow> 's \<Rightarrow> error + 's) \<Rightarrow> 'a list \<Rightarrow> 's \<Rightarrow> error + 's" where
  "for_each f [] s = Inr s"
| "for_each f (x # xs) s =
     (case f x s of Inl e \<Rightarrow> Inl e | Inr s' \<Rightarrow> for_each f xs s')"

text \<open>A data frame: the column headers in order, and the rows, each a header-to-cell table.\<close>

type_synonym row = "(string \<times> cell) list"

record dataframe =
  df_columns :: "string list"
  df_rows :: "row list"

text \<open>The workbook: sheet name to data frame, in sheet order.\<close>

type_synonym workbook = "(string \<times> dataframe) list"

definition getitem :: "row \<Rightarrow> string \<Rightarrow> error + cell" where
  "getitem r k = (case map_of r k of None \<Rightarrow> Inl (KeyError k) | Some v \<Rightarrow> Inr v)"

section \<open>The entities of the output document\<close>

record unit_of_measurement =
  u_name :: string
  u_symbol :: string
  u_definition :: string

record sensor =
  s_id :: string
  s_name :: string
  s_description :: string
  s_encodingType :: string
  s_metadata :: string

record observed_property =
  op_id :: string
  op_name :: string
  op_description :: string
  op_definition :: string

record geometry =
  g_type :: string
  g_coordinates :: "int list"

record location =
  l_id :: string
  l_name :: string
  l_description :: string
  l_encodingType :: string
  l_location :: geometry

text \<open>
  Keys that a dictionary may lack are optional fields: \<open>d_Observations\<close>, \<open>t_Locations\<close>,
  \<open>t_Datastreams\<close>.
\<close>

record observation =
  phenomenonTime :: cell
  resultTime :: cell
  result :: pyfloat

record datastream =
  d_id :: string
  d_name :: string
  d_description :: string
  d_observationType :: string
  d_unitOfMeasurement :: unit_of_measurement
  d_Sensor :: sensor
  d_ObservedProperty :: observed_property
  d_Observations :: "observation list option"

record thing =
  t_id :: string
  t_name :: string
  t_description :: string
  t_properties :: "(string \<times> cell) list"
  t_Locations :: "location list option"
  t_Datastreams :: "datastream list option"

record document =
  Things :: "thing list"

section \<open>The static tables\<close>

definition deg :: string where
  "deg = [CHR 0xC2, CHR 0xB0]"

definition sup2 :: string where
  "sup2 = [CHR 0xC2, CHR 0xB2]"

definition A_uml :: string where
  "A_uml = [CHR 0xC3, CHR 0x84]"

definition mk_unit :: "string \<Rightarrow> string \<Rightarrow> string \<Rightarrow> unit_of_measurement" where
  "mk_unit n sy d = \<lparr>u_name = n, u_symbol = sy, u_definition = d\<rparr>"

definition unit_table :: "(string \<times> unit_of_measurement) list" where
  "unit_table =
    [(''TEMP'', mk_unit ''Degree Celsius'' (deg @ ''C'') ''ucum:Cel''),
     (''WINDR'', mk_unit ''Wind Direction'' deg ''ucum:deg''),
     (''GLOBAL'', mk_unit ''Global Radiation'' (''W/m'' @ sup2) ''ucum:W/m2''),
     (''NIEDER'', mk_unit ''Precipitation'' ''mm'' ''ucum:mm''),
     (''TEMPHUMUS'', mk_unit ''Temperature Humus'' (deg @ ''C'') ''ucum:Cel''),
     (''TEMP100'', mk_unit ''Temperature 100cm'' (deg @ ''C'') ''ucum:Cel''),
     (''TEMP20'', mk_unit ''Temperature 20cm'' (deg @ ''C'') ''ucum:Cel''),
     (''TEMP200'', mk_unit ''Temperature 200cm'' (deg @ ''C'') ''ucum:Cel''),
     (''TEMP35'', mk_unit ''Temperature 35cm'' (deg @ ''C'') ''ucum:Cel''),
     (''TEMP5'', mk_unit ''Temperature 5cm'' (deg @ ''C'') ''ucum:Cel''),
     (''TEMP50'', mk_unit ''Temperature 50cm'' (deg @ ''C'') ''ucum:Cel''),
     (''TDR20_1'', mk_unit ''Soil Moisture 20cm (1)'' ''%'' ''ucum:%''),
     (''TDR20_2'', mk_unit ''Soil Moisture 20cm (2)'' ''%'' ''ucum:%''),
     (''TDR50_1'', mk_unit ''Soil Moisture 50cm (1)'' ''%'' ''ucum:%''),
     (''TDR50_2'', mk_unit ''Soil Moisture 50cm (2)'' ''%'' ''ucum:%''),
     (''TDR100_1'', mk_unit ''Soil Moisture 100cm (1)'' ''%'' ''ucum:%''),
     (''TDR100_2'', mk_unit ''Soil Moisture 100cm (2)'' ''%'' ''ucum:%''),
     (''%nFK'', mk_unit ''Available Field Capacity'' ''%'' ''ucum:%''),
     (''TENS20_1'', mk_unit ''Soil Tension 20cm (1)'' ''kPa'' ''ucum:kPa''),
     (''TENS20_2'', mk_unit ''Soil Tension 20cm (2)'' ''kPa'' ''ucum:kPa''),
     (''TENS50_1'', mk_unit ''Soil Tension 50cm (1)'' ''kPa'' ''ucum:kPa''),
     (''TENS50_2'', mk_unit ''Soil Tension 50cm (2)'' ''kPa'' ''ucum:kPa''),
     (''TENS100_1'', mk_unit ''Soil Tension 100cm (1)'' ''kPa'' ''ucum:kPa''),
     (''TENS100_2'', mk_unit ''Soil Tension 100cm (2)'' ''kPa'' ''ucum:kPa'')]"

definition unit_mapping :: "string \<Rightarrow> unit_of_measurement option" where
  "unit_mapping = map_of unit_table"

text \<open>\<^verbatim>\<open>unit_mapping.get(property_name, {}).get("name", property_name)\<close>\<close>

definition friendly_name_of :: "string \<Rightarrow> string" where
  "friendly_name_of property_name =
     (case unit_mapping property_name of None \<Rightarrow> property_name | Some u \<Rightarrow> u_name u)"

text \<open>\<^verbatim>\<open>unit_mapping.get(property_name, {"name": "Unknown", "symbol": "", "definition": "ucum:"})\<close>\<close>

definition unknown_unit :: unit_of_measurement where
  "unknown_unit = \<lparr>u_name = ''Unknown'', u_symbol = '''', u_definition = ''ucum:''\<rparr>"

definition unit_of :: "string \<Rightarrow> unit_of_measurement" where
  "unit_of property_name =
     (case unit_mapping property_name of None \<Rightarrow> unknown_unit | Some u \<Rightarrow> u)"

definition OM_Measurement :: string where
  "OM_Measurement = ''http://www.opengis.net/def/observationType/OGC-OM/2.0/OM_Measurement''"

definition LEGENDE :: string where
  "LEGENDE = ''LEGENDE''"

definition FREIFLAECHE :: string where
  "FREIFLAECHE = ''FREIFL'' @ A_uml @ ''CHE''"

definition Boden_Lufttemp :: string where
  "Boden_Lufttemp = ''Boden+Lufttemp_Bestand C'' @ deg"

definition id_column :: string where
  "id_column = ''ID_MS''"

text \<open>The category of a sheet and its timestamp column, both decided by the sheet name.\<close>

definition category_of :: "string \<Rightarrow> string" where
  "category_of sheet_name =
     (if sheet_name = FREIFLAECHE then ''Weather Station''
      else if contains sheet_name ''Boden'' \<or> contains sheet_name ''Tension''
      then ''Soil Sensor''
      else ''Generic Sensor'')"

definition timestamp_column_of :: "string \<Rightarrow> string" where
  "timestamp_column_of sheet_name =
     (if sheet_name = FREIFLAECHE then ''DATUM_ZEIT''
      else if sheet_name = Boden_Lufttemp then ''DATUMZEIT''
      else ''DATUM'')"

text \<open>\<^verbatim>\<open>column.split(" ")[0]\<close>\<close>

definition measurement_type_of :: "string \<Rightarrow> string" where
  "measurement_type_of column =
     (case py_split CHR '' '' column of [] \<Rightarrow> [] | x # _ \<Rightarrow> x)"

definition skipped_column :: "string \<Rightarrow> string \<Rightarrow> bool" where
  "skipped_column timestamp_column column =
     (column \<in> set [id_column, timestamp_column] \<or> startswith column ''Unnamed'')"

section \<open>The class SensorThingsTransformer (excel\_to\_sta\_customized.py)\<close>

text \<open>
  The transformer's stores. A Python dictionary iterates in insertion order and the
  assembly iterates over them, so each is an association list; a key is only ever added
  when it is absent, at the end.
\<close>

record transformer =
  things :: "(string \<times> thing) list"
  locations :: "(string \<times> location) list"
  observed_properties :: "(string \<times> observed_property) list"
  sensors :: "(string \<times> sensor) list"
  datastreams :: "(string \<times> datastream) list"
  observations :: "observation list"

definition init :: transformer where
  "init = \<lparr>things = [], locations = [], observed_properties = [], sensors = [],
            datastreams = [], observations = []\<rparr>"

definition new_thing :: "string \<Rightarrow> string \<Rightarrow> thing" where
  "new_thing id_ms category =
     \<lparr>t_id = ''thing_'' @ id_ms,
      t_name = ''Measurement Station '' @ id_ms,
      t_description = category @ '' measurement station with ID '' @ id_ms,
      t_properties = [(''id_ms'', Text id_ms), (''category'', Text category)],
      t_Locations = None, t_Datastreams = None\<rparr>"

definition create_thing :: "string \<Rightarrow> string \<Rightarrow> transformer \<Rightarrow> thing \<times> transformer" where
  "create_thing id_ms category s =
     (case map_of (things s) id_ms of
        None \<Rightarrow>
          (new_thing id_ms category,
           s\<lparr>things := things s @ [(id_ms, new_thing id_ms category)]\<rparr>)
      | Some t \<Rightarrow> (t, s))"

definition new_location :: "string \<Rightarrow> string \<Rightarrow> location" where
  "new_location thing_id part =
     \<lparr>l_id = ''location_'' @ part,
      l_name = ''Location for '' @ thing_id,
      l_description = ''Measurement station location'',
      l_encodingType = ''application/geo+json'',
      l_location = \<lparr>g_type = ''Point'', g_coordinates = [0, 0]\<rparr>\<rparr>"

text \<open>\<^verbatim>\<open>thing_id.split('_')[1]\<close> raises IndexError when the id has no underscore.\<close>

definition create_location :: "string \<Rightarrow> transformer \<Rightarrow> error + location \<times> transformer" where
  "create_location thing_id s =
     (case map_of (locations s) thing_id of
        None \<Rightarrow>
          (case py_split CHR ''_'' thing_id of
             p # part # ps \<Rightarrow>
               Inr (new_location thing_id part,
                    s\<lparr>locations := locations s @ [(thing_id, new_location thing_id part)]\<rparr>)
           | _ \<Rightarrow> Inl IndexError)
      | Some l \<Rightarrow> Inr (l, s))"

definition new_observed_property :: "string \<Rightarrow> observed_property" where
  "new_observed_property property_name =
     \<lparr>op_id = ''op_'' @ property_name,
      op_name = friendly_name_of property_name,
      op_description = ''Observed property for '' @ friendly_name_of property_name,
      op_definition = ''http://example.org/properties/'' @ property_name\<rparr>"

definition create_observed_property ::
  "string \<Rightarrow> transformer \<Rightarrow> observed_property \<times> transformer" where
  "create_observed_property property_name s =
     (case map_of (observed_properties s) property_name of
        None \<Rightarrow>
          (new_observed_property property_name,
           s\<lparr>observed_properties := observed_properties s
                @ [(property_name, new_observed_property property_name)]\<rparr>)
      | Some p \<Rightarrow> (p, s))"

definition new_sensor :: "string \<Rightarrow> sensor" where
  "new_sensor property_name =
     \<lparr>s_id = ''sensor_'' @ property_name,
      s_name = friendly_name_of property_name @ '' Sensor'',
      s_description = ''Sensor for measuring '' @ friendly_name_of property_name,
      s_encodingType = ''application/pdf'',
      s_metadata = ''http://example.org/sensors/'' @ property_name\<rparr>"

definition create_sensor :: "string \<Rightarrow> transformer \<Rightarrow> sensor \<times> transformer" where
  "create_sensor property_name s =
     (case map_of (sensors s) property_name of
        None \<Rightarrow>
          (new_sensor property_name,
           s\<lparr>sensors := sensors s @ [(property_name, new_sensor property_name)]\<rparr>)
      | Some x \<Rightarrow> (x, s))"

definition new_datastream ::
  "string \<Rightarrow> string \<Rightarrow> string \<Rightarrow> sensor \<Rightarrow> observed_property \<Rightarrow> datastream" where
  "new_datastream datastream_key thing_id property_name sensor observed_property =
     \<lparr>d_id = ''ds_'' @ datastream_key,
      d_name = friendly_name_of property_name @ '' Datastream for Thing '' @ thing_id,
      d_description = ''Datastream for measuring '' @ friendly_name_of property_name,
      d_observationType = OM_Measurement,
      d_unitOfMeasurement = unit_of property_name,
      d_Sensor = sensor,
      d_ObservedProperty = observed_property,
      d_Observations = None\<rparr>"

definition create_datastream ::
  "string \<Rightarrow> string \<Rightarrow> transformer \<Rightarrow> datastream \<times> transformer" where
  "create_datastream thing_id property_name s =
     (let datastream_key = thing_id @ ''_'' @ property_name in
      case map_of (datastreams s) datastream_key of
        None \<Rightarrow>
          (let (sensor, s1) = create_sensor property_name s;
               (observed_property, s2) = create_observed_property property_name s1;
               d = new_datastream datastream_key thing_id property_name sensor observed_property
           in (d, s2\<lparr>datastreams := datastreams s2 @ [(datastream_key, d)]\<rparr>))
      | Some d \<Rightarrow> (d, s))"

text \<open>The parameter \<open>datastream_id\<close> is not used by the source either.\<close>

definition create_observation ::
  "string \<Rightarrow> cell \<Rightarrow> pyfloat \<Rightarrow> transformer \<Rightarrow> observation \<times> transformer" where
  "create_observation datastream_id timestamp v s =
     (let observation = \<lparr>phenomenonTime = timestamp, resultTime = timestamp, result = v\<rparr>
      in (observation, s\<lparr>observations := observations s @ [observation]\<rparr>))"

text \<open>The body of the loop over the columns of one row (lines 310 to 331).\<close>

definition process_cell ::
  "builtins \<Rightarrow> string \<Rightarrow> row \<Rightarrow> string \<Rightarrow> cell \<Rightarrow> string \<Rightarrow> transformer
    \<Rightarrow> error + transformer" where
  "process_cell B timestamp_column r thing_id timestamp column s =
     (if skipped_column timestamp_column column then Inr s
      else case getitem r column of
        Inl e \<Rightarrow> Inl e
      | Inr v \<Rightarrow>
          if isna v then Inr s
          else
            (let measurement_type = measurement_type_of column;
                 (datastream, s1) = create_datastream thing_id measurement_type s;
                 datastream_id = d_id datastream
             in case py_float B v of
                  Inl e \<Rightarrow> Inl e
                | Inr x \<Rightarrow> Inr (snd (create_observation datastream_id timestamp x s1))))"

text \<open>The body of the loop over the rows of one sheet (lines 289 to 331).\<close>

definition process_row ::
  "builtins \<Rightarrow> string \<Rightarrow> string \<Rightarrow> string list \<Rightarrow> row \<Rightarrow> transformer
    \<Rightarrow> error + transformer" where
  "process_row B category timestamp_column columns r s =
     (case getitem r id_column of
        Inl e \<Rightarrow> Inl e
      | Inr idv \<Rightarrow>
          (let id_ms = py_str B idv;
               (thing, s1) = create_thing id_ms category s;
               thing_id = t_id thing
           in case create_location thing_id s1 of
                Inl e \<Rightarrow> Inl e
              | Inr (l, s2) \<Rightarrow>
                  (case getitem r timestamp_column of
                     Inl e \<Rightarrow> Inl e
                   | Inr timestamp \<Rightarrow>
                       if isna timestamp then Inr s2
                       else for_each
                              (process_cell B timestamp_column r thing_id
                                 (isoformat_if_timestamp timestamp))
                              columns s2)))"

definition process_sheet ::
  "builtins \<Rightarrow> workbook \<Rightarrow> string \<Rightarrow> transformer \<Rightarrow> error + transformer" where
  "process_sheet B excel_data sheet_name s =
     (if sheet_name = LEGENDE then Inr s
      else case map_of excel_data sheet_name of
        None \<Rightarrow> Inl (KeyError sheet_name)
      | Some df \<Rightarrow>
          for_each
            (process_row B (category_of sheet_name) (timestamp_column_of sheet_name)
               (df_columns df))
            (df_rows df) s)"

text \<open>
  The assembly (lines 333 to 372). A Datastream is selected for a Thing when its key
  starts with the Thing's id, and the inner loop over the observations appends every
  observation.
\<close>

definition datastream_with_observations :: "transformer \<Rightarrow> datastream \<Rightarrow> datastream" where
  "datastream_with_observations s datastream =
     (let datastream_observations = map (\<lambda>observation. observation) (observations s)
      in if datastream_observations \<noteq> []
         then datastream\<lparr>d_Observations := Some datastream_observations\<rparr>
         else datastream)"

definition thing_datastreams :: "transformer \<Rightarrow> thing \<Rightarrow> datastream list" where
  "thing_datastreams s thing =
     map (\<lambda>(datastream_key, datastream). datastream_with_observations s datastream)
       (filter (\<lambda>(datastream_key, datastream). startswith datastream_key (t_id thing))
          (datastreams s))"

definition thing_with_relations :: "transformer \<Rightarrow> thing \<Rightarrow> thing" where
  "thing_with_relations s thing =
     (let t1 = (case map_of (locations s) (t_id thing) of
                  None \<Rightarrow> thing
                | Some l \<Rightarrow> thing\<lparr>t_Locations := Some [l]\<rparr>)
      in if thing_datastreams s thing \<noteq> []
         then t1\<lparr>t_Datastreams := Some (thing_datastreams s thing)\<rparr>
         else t1)"

definition construct_nested_structure :: "transformer \<Rightarrow> document" where
  "construct_nested_structure s =
     \<lparr>Things = map (\<lambda>(thing_id, thing). thing_with_relations s thing) (things s)\<rparr>"

definition transform :: "builtins \<Rightarrow> workbook \<Rightarrow> error + document" where
  "transform B excel_data =
     (case for_each (process_sheet B excel_data) (map fst excel_data) init of
        Inl e \<Rightarrow> Inl e
      | Inr s \<Rightarrow> Inr (construct_nested_structure s))"

section \<open>The converter with the legend lookup (final\_version\_6things.py)\<close>

text \<open>
  \<^verbatim>\<open>s.replace(old, '')\<close>: every occurrence of \<open>old\<close> is dropped, scanning from the left;
  an empty \<open>old\<close> leaves the string as it is.
\<close>

function remove_all :: "string \<Rightarrow> string \<Rightarrow> string" where
  "remove_all old [] = []"
| "remove_all old (c # s) =
     (if old \<noteq> [] \<and> prefix old (c # s)
      then remove_all old (drop (length old) (c # s))
      else c # remove_all old s)"
  by pat_completeness auto
termination
  by (relation "measure (\<lambda>(old, s). length s)") auto

record hms_info =
  hms :: cell
  bemerkung :: cell

text \<open>A stored observation carries the id of its Datastream; the assembly drops it from
  the copy it emits.\<close>

record stored_observation =
  so_phenomenonTime :: cell
  so_resultTime :: cell
  so_result :: pyfloat
  so_Datastream :: string

record stores =
  fv_things :: "(string \<times> thing) list"
  fv_locations :: "(string \<times> location) list"
  fv_observed_properties :: "(string \<times> observed_property) list"
  fv_sensors :: "(string \<times> sensor) list"
  fv_datastreams :: "(string \<times> datastream) list"
  fv_observations :: "stored_observation list"

definition fv_init :: stores where
  "fv_init = \<lparr>fv_things = [], fv_locations = [], fv_observed_properties = [],
               fv_sensors = [], fv_datastreams = [], fv_observations = []\<rparr>"

text \<open>
  The legend (lines 29 to 43). A later row for the same id replaces the earlier entry;
  the table is only ever read with \<^verbatim>\<open>get\<close>, so the newest entry is put in front.
  \<^verbatim>\<open>row.get("Bemerkung", "")\<close> is the empty text when the row has no such key.
\<close>

definition legend_row ::
  "builtins \<Rightarrow> row \<Rightarrow> (string \<times> hms_info) list \<Rightarrow> error + (string \<times> hms_info) list" where
  "legend_row B r m =
     (case getitem r ''ID_MS'' of
        Inl e \<Rightarrow> Inl e
      | Inr idv \<Rightarrow>
          (case getitem r ''HMS'' of
             Inl e \<Rightarrow> Inl e
           | Inr h \<Rightarrow>
               (let id_ms = py_str B idv;
                    h' = (if \<not> isna h then h else Text ''Unknown'');
                    b = (case map_of r ''Bemerkung'' of None \<Rightarrow> Text [] | Some v \<Rightarrow> v);
                    b' = (if \<not> isna b then b else Text [])
                in Inr ((id_ms, \<lparr>hms = h', bemerkung = b'\<rparr>) # m))))"

definition id_to_hms_mapping :: "builtins \<Rightarrow> workbook \<Rightarrow> error + (string \<times> hms_info) list" where
  "id_to_hms_mapping B excel_data =
     (case map_of excel_data LEGENDE of
        None \<Rightarrow> Inr []
      | Some legend_df \<Rightarrow>
          if ''HMS'' \<in> set (df_columns legend_df) \<and> ''ID_MS'' \<in> set (df_columns legend_df)
          then for_each (legend_row B) (df_rows legend_df) []
          else Inr [])"

text \<open>\<^verbatim>\<open>id_to_hms_mapping.get(id_ms, {"hms": "Unknown", "bemerkung": ""})\<close>\<close>

definition hms_info_of :: "(string \<times> hms_info) list \<Rightarrow> string \<Rightarrow> hms_info" where
  "hms_info_of m id_ms =
     (case map_of m id_ms of
        None \<Rightarrow> \<lparr>hms = Text ''Unknown'', bemerkung = Text []\<rparr>
      | Some i \<Rightarrow> i)"

definition thing_key_of :: "builtins \<Rightarrow> hms_info \<Rightarrow> string \<Rightarrow> string" where
  "thing_key_of B i id_ms = py_str B (hms i) @ ''_'' @ py_str B (bemerkung i) @ ''_'' @ id_ms"

definition fv_new_thing :: "builtins \<Rightarrow> hms_info \<Rightarrow> string \<Rightarrow> string \<Rightarrow> thing" where
  "fv_new_thing B i id_ms category =
     \<lparr>t_id = ''thing_'' @ thing_key_of B i id_ms,
      t_name = py_str B (hms i) @ '' - '' @ py_str B (bemerkung i) @ '' - Station '' @ id_ms,
      t_description = category @ '' measurement station for '' @ py_str B (hms i)
         @ '' ('' @ py_str B (bemerkung i) @ '') with ID: '' @ id_ms,
      t_properties = [(''id_ms'', Text id_ms), (''hms'', hms i),
                      (''bemerkung'', bemerkung i), (''category'', Text category)],
      t_Locations = None, t_Datastreams = None\<rparr>"

text \<open>Lines 116 to 131: the Thing of a row, created when its key is new.\<close>

definition fv_create_thing ::
  "builtins \<Rightarrow> hms_info \<Rightarrow> string \<Rightarrow> string \<Rightarrow> stores \<Rightarrow> thing \<times> stores" where
  "fv_create_thing B i id_ms category s =
     (let thing_key = thing_key_of B i id_ms in
      case map_of (fv_things s) thing_key of
        None \<Rightarrow>
          (fv_new_thing B i id_ms category,
           s\<lparr>fv_things := fv_things s @ [(thing_key, fv_new_thing B i id_ms category)]\<rparr>)
      | Some t \<Rightarrow> (t, s))"

definition fv_new_location :: "builtins \<Rightarrow> hms_info \<Rightarrow> string \<Rightarrow> location" where
  "fv_new_location B i thing_id =
     \<lparr>l_id = ''location_'' @ remove_all ''thing_'' thing_id,
      l_name = (if hms i \<noteq> Text ''Unknown''
                then ''Location for '' @ py_str B (hms i) @ '' ('' @ py_str B (bemerkung i) @ '')''
                else ''Location for '' @ thing_id),
      l_description = ''Measurement station location for '' @ py_str B (hms i)
         @ '' ('' @ py_str B (bemerkung i) @ '')'',
      l_encodingType = ''application/geo+json'',
      l_location = \<lparr>g_type = ''Point'', g_coordinates = [0, 0]\<rparr>\<rparr>"

text \<open>Lines 133 to 151.\<close>

definition fv_create_location ::
  "builtins \<Rightarrow> hms_info \<Rightarrow> string \<Rightarrow> stores \<Rightarrow> stores" where
  "fv_create_location B i thing_id s =
     (case map_of (fv_locations s) thing_id of
        None \<Rightarrow> s\<lparr>fv_locations := fv_locations s @ [(thing_id, fv_new_location B i thing_id)]\<rparr>
      | Some l \<Rightarrow> s)"

text \<open>Lines 179 to 189 and 191 to 202.\<close>

definition fv_create_observed_property :: "string \<Rightarrow> stores \<Rightarrow> observed_property \<times> stores" where
  "fv_create_observed_property measurement_type s =
     (case map_of (fv_observed_properties s) measurement_type of
        None \<Rightarrow>
          (new_observed_property measurement_type,
           s\<lparr>fv_observed_properties := fv_observed_properties s
                @ [(measurement_type, new_observed_property measurement_type)]\<rparr>)
      | Some p \<Rightarrow> (p, s))"

definition fv_create_sensor :: "string \<Rightarrow> stores \<Rightarrow> sensor \<times> stores" where
  "fv_create_sensor measurement_type s =
     (case map_of (fv_sensors s) measurement_type of
        None \<Rightarrow>
          (new_sensor measurement_type,
           s\<lparr>fv_sensors := fv_sensors s @ [(measurement_type, new_sensor measurement_type)]\<rparr>)
      | Some x \<Rightarrow> (x, s))"

definition datastream_key_of :: "builtins \<Rightarrow> hms_info \<Rightarrow> string \<Rightarrow> string \<Rightarrow> string" where
  "datastream_key_of B i thing_id measurement_type =
     thing_id @ ''_'' @ measurement_type @ ''_'' @ py_str B (hms i) @ ''_'' @ py_str B (bemerkung i)"

definition fv_new_datastream ::
  "builtins \<Rightarrow> hms_info \<Rightarrow> string \<Rightarrow> string \<Rightarrow> sensor \<Rightarrow> observed_property \<Rightarrow> datastream" where
  "fv_new_datastream B i datastream_key measurement_type sensor observed_property =
     \<lparr>d_id = ''ds_'' @ datastream_key,
      d_name = friendly_name_of measurement_type @ '' Datastream for '' @ py_str B (hms i)
         @ '' ('' @ py_str B (bemerkung i) @ '')'',
      d_description = ''Datastream for measuring '' @ friendly_name_of measurement_type
         @ '' at '' @ py_str B (hms i) @ '' ('' @ py_str B (bemerkung i) @ '')'',
      d_observationType = OM_Measurement,
      d_unitOfMeasurement = unit_of measurement_type,
      d_Sensor = sensor,
      d_ObservedProperty = observed_property,
      d_Observations = None\<rparr>"

text \<open>Lines 204 to 227; the Sensor and the ObservedProperty are those just looked up.\<close>

definition fv_create_datastream ::
  "builtins \<Rightarrow> hms_info \<Rightarrow> string \<Rightarrow> string \<Rightarrow> sensor \<Rightarrow> observed_property \<Rightarrow> stores
    \<Rightarrow> datastream \<times> stores" where
  "fv_create_datastream B i thing_id measurement_type sensor observed_property s =
     (let datastream_key = datastream_key_of B i thing_id measurement_type in
      case map_of (fv_datastreams s) datastream_key of
        None \<Rightarrow>
          (let d = fv_new_datastream B i datastream_key measurement_type sensor observed_property
           in (d, s\<lparr>fv_datastreams := fv_datastreams s @ [(datastream_key, d)]\<rparr>))
      | Some d \<Rightarrow> (d, s))"

text \<open>The body of the loop over the columns of one row (lines 163 to 237).\<close>

definition fv_process_cell ::
  "builtins \<Rightarrow> hms_info \<Rightarrow> string \<Rightarrow> row \<Rightarrow> string \<Rightarrow> cell \<Rightarrow> string \<Rightarrow> stores
    \<Rightarrow> error + stores" where
  "fv_process_cell B i timestamp_column r thing_id timestamp column s =
     (if skipped_column timestamp_column column then Inr s
      else case getitem r column of
        Inl e \<Rightarrow> Inl e
      | Inr v \<Rightarrow>
          if isna v then Inr s
          else
            (let measurement_type = measurement_type_of column;
                 (observed_property, s1) = fv_create_observed_property measurement_type s;
                 (sensor, s2) = fv_create_sensor measurement_type s1;
                 (datastream, s3) =
                    fv_create_datastream B i thing_id measurement_type sensor observed_property s2
             in case py_float B v of
                  Inl e \<Rightarrow> Inl e
                | Inr x \<Rightarrow>
                    Inr (s3\<lparr>fv_observations := fv_observations s3 @
                           [\<lparr>so_phenomenonTime = timestamp, so_resultTime = timestamp,
                             so_result = x, so_Datastream = d_id datastream\<rparr>]\<rparr>)))"

text \<open>The body of the loop over the rows of one sheet (lines 106 to 237).\<close>

definition fv_process_row ::
  "builtins \<Rightarrow> (string \<times> hms_info) list \<Rightarrow> string \<Rightarrow> string \<Rightarrow> string list \<Rightarrow> row \<Rightarrow> stores
    \<Rightarrow> error + stores" where
  "fv_process_row B m category timestamp_column columns r s =
     (case getitem r id_column of
        Inl e \<Rightarrow> Inl e
      | Inr idv \<Rightarrow>
          (let id_ms = py_str B idv;
               i = hms_info_of m id_ms;
               (thing, s1) = fv_create_thing B i id_ms category s;
               thing_id = t_id thing;
               s2 = fv_create_location B i thing_id s1
           in case getitem r timestamp_column of
                Inl e \<Rightarrow> Inl e
              | Inr timestamp \<Rightarrow>
                  if isna timestamp then Inr s2
                  else for_each
                         (fv_process_cell B i timestamp_column r thing_id
                            (isoformat_if_timestamp timestamp))
                         columns s2))"

text \<open>The body of the loop over the sheets (lines 77 to 237).\<close>

definition fv_process_sheet ::
  "builtins \<Rightarrow> (string \<times> hms_info) list \<Rightarrow> string \<times> dataframe \<Rightarrow> stores \<Rightarrow> error + stores" where
  "fv_process_sheet B m sheet s =
     (let sheet_name = fst sheet; df = snd sheet in
      if sheet_name = LEGENDE then Inr s
      else if id_column \<notin> set (df_columns df)
              \<or> timestamp_column_of sheet_name \<notin> set (df_columns df) then Inr s
      else for_each
             (fv_process_row B m (category_of sheet_name) (timestamp_column_of sheet_name)
                (df_columns df))
             (df_rows df) s)"

text \<open>
  The assembly (lines 239 to 275), on values. A Datastream is selected for a Thing when
  its key starts with the Thing's id; it receives the observations that carry its id,
  each without the back-reference.
\<close>

definition obs_copy :: "stored_observation \<Rightarrow> observation" where
  "obs_copy ob = \<lparr>phenomenonTime = so_phenomenonTime ob, resultTime = so_resultTime ob,
                   result = so_result ob\<rparr>"

definition fv_datastream_with_observations :: "stores \<Rightarrow> datastream \<Rightarrow> datastream" where
  "fv_datastream_with_observations s datastream =
     (let datastream_observations =
            map obs_copy
              (filter (\<lambda>ob. so_Datastream ob = d_id datastream) (fv_observations s))
      in if datastream_observations \<noteq> []
         then datastream\<lparr>d_Observations := Some datastream_observations\<rparr>
         else datastream)"

definition fv_thing_datastreams :: "stores \<Rightarrow> thing \<Rightarrow> datastream list" where
  "fv_thing_datastreams s thing =
     map (\<lambda>(datastream_key, datastream). fv_datastream_with_observations s datastream)
       (filter (\<lambda>(datastream_key, datastream). startswith datastream_key (t_id thing))
          (fv_datastreams s))"

definition fv_thing_with_relations :: "stores \<Rightarrow> thing \<Rightarrow> thing" where
  "fv_thing_with_relations s thing =
     (let t1 = (case map_of (fv_locations s) (t_id thing) of
                  None \<Rightarrow> thing
                | Some l \<Rightarrow> thing\<lparr>t_Locations := Some [l]\<rparr>)
      in if fv_thing_datastreams s thing \<noteq> []
         then t1\<lparr>t_Datastreams := Some (fv_thing_datastreams s thing)\<rparr>
         else t1)"

definition fv_assemble :: "stores \<Rightarrow> document" where
  "fv_assemble s =
     \<lparr>Things = map (\<lambda>(thing_key, thing). fv_thing_with_relations s thing) (fv_things s)\<rparr>"

definition fv_excel_to_sensorthings :: "builtins \<Rightarrow> workbook \<Rightarrow> error + document" where
  "fv_excel_to_sensorthings B excel_data =
     (case id_to_hms_mapping B excel_data of
        Inl e \<Rightarrow> Inl e
      | Inr m \<Rightarrow>
          (case for_each (fv_process_sheet B m) excel_data fv_init of
             Inl e \<Rightarrow> Inl e
           | Inr s \<Rightarrow> Inr (fv_assemble s)))"

section \<open>The converter for the per-entity tables (sensorthings\_excel\_converter.py)\<close>

text \<open>
  \<^verbatim>\<open>row.get(key, default)\<close> is the row's value when the row has the key, also when that
  value is the missing marker.
\<close>

definition row_get :: "row \<Rightarrow> string \<Rightarrow> cell \<Rightarrow> cell" where
  "row_get r k d = (case map_of r k of None \<Rightarrow> d | Some v \<Rightarrow> v)"

text \<open>A field read as JSON when the cell is a text, and taken as it is otherwise.\<close>

datatype jfield = Parsed json | Raw cell

text \<open>
  \<^verbatim>\<open>json.loads(row.get(k, ...)) if isinstance(row.get(k), str) else row.get(k, default)\<close>
\<close>

definition json_field :: "builtins \<Rightarrow> row \<Rightarrow> string \<Rightarrow> json \<Rightarrow> error + jfield" where
  "json_field B r k d =
     (case map_of r k of
        None \<Rightarrow> Inr (Parsed d)
      | Some (Text s) \<Rightarrow>
          (case json_loads B s of None \<Rightarrow> Inl (JSONDecodeError s) | Some j \<Rightarrow> Inr (Parsed j))
      | Some v \<Rightarrow> Inr (Raw v))"

text \<open>\<^verbatim>\<open>k in row and not pd.isna(row[k])\<close>: the value of a foreign-key column, if any.\<close>

definition foreign_key :: "row \<Rightarrow> string \<Rightarrow> cell option" where
  "foreign_key r k =
     (case map_of r k of None \<Rightarrow> None | Some v \<Rightarrow> if isna v then None else Some v)"

text \<open>
  A reference field of a Datastream: the fragment \<^verbatim>\<open>{"@iot.id": v}\<close> written when the
  table is read, or the entity put in its place by the assembly.
\<close>

datatype 'a ref = Fragment cell | Entity 'a

record n_sensor =
  ns_id :: "cell option"
  ns_name :: cell
  ns_description :: cell
  ns_encodingType :: cell
  ns_metadata :: cell

record n_observed_property =
  nop_id :: "cell option"
  nop_name :: cell
  nop_description :: cell
  nop_definition :: cell

record n_location =
  nl_name :: cell
  nl_description :: cell
  nl_encodingType :: cell
  nl_location :: jfield
  nl_Thing :: "cell option"

record n_observation =
  no_phenomenonTime :: "cell option"
  no_resultTime :: "cell option"
  no_result :: "cell option"
  no_resultQuality :: "cell option"
  no_parameters :: "jfield option"
  no_Datastream :: "cell option"
  no_FeatureOfInterest :: "jfield option"

record n_datastream =
  nd_id :: "cell option"
  nd_name :: cell
  nd_description :: cell
  nd_observationType :: cell
  nd_unitOfMeasurement :: jfield
  nd_Thing :: "cell option"
  nd_Sensor :: "n_sensor ref option"
  nd_ObservedProperty :: "n_observed_property ref option"
  nd_Observations :: "n_observation list option"

record n_thing =
  nt_id :: "cell option"
  nt_name :: cell
  nt_description :: cell
  nt_properties :: jfield
  nt_Locations :: "n_location list option"
  nt_Datastreams :: "n_datastream list option"

record n_document =
  n_Things :: "n_thing list"

record sta_data =
  sd_Things :: "n_thing list"
  sd_Locations :: "n_location list"
  sd_ObservedProperties :: "n_observed_property list"
  sd_Sensors :: "n_sensor list"
  sd_Datastreams :: "n_datastream list"
  sd_Observations :: "n_observation list"

definition sta_init :: sta_data where
  "sta_init = \<lparr>sd_Things = [], sd_Locations = [], sd_ObservedProperties = [],
                sd_Sensors = [], sd_Datastreams = [], sd_Observations = []\<rparr>"

text \<open>
  Reading the tables (lines 30 to 135). \<^verbatim>\<open>uuid.uuid4()\<close> is a random source: \<open>U n\<close> is what
  its call number \<open>n\<close> returns, and the state of the reading loops carries the number of
  calls made so far. The default name is built, and the call made, for every row,
  whether the row has a name or not.
\<close>

type_synonym reading = "nat \<times> sta_data"

definition thing_row :: "builtins \<Rightarrow> (nat \<Rightarrow> string) \<Rightarrow> row \<Rightarrow> reading \<Rightarrow> error + reading" where
  "thing_row B U r st =
     (case json_field B r ''properties'' (JObj []) of
        Inl e \<Rightarrow> Inl e
      | Inr p \<Rightarrow>
          Inr (fst st + 1,
               (snd st)\<lparr>sd_Things := sd_Things (snd st) @
                 [\<lparr>nt_id = None,
                   nt_name = row_get r ''name'' (Text (''Thing_'' @ U (fst st))),
                   nt_description = row_get r ''description'' (Text []),
                   nt_properties = p,
                   nt_Locations = None, nt_Datastreams = None\<rparr>]\<rparr>))"

definition default_point :: json where
  "default_point = JObj [(''type'', JStr ''Point''), (''coordinates'', JArr [JNum 0, JNum 0])]"

definition location_row :: "builtins \<Rightarrow> (nat \<Rightarrow> string) \<Rightarrow> row \<Rightarrow> reading \<Rightarrow> error + reading" where
  "location_row B U r st =
     (case json_field B r ''location'' default_point of
        Inl e \<Rightarrow> Inl e
      | Inr g \<Rightarrow>
          Inr (fst st + 1,
               (snd st)\<lparr>sd_Locations := sd_Locations (snd st) @
                 [\<lparr>nl_name = row_get r ''name'' (Text (''Location_'' @ U (fst st))),
                   nl_description = row_get r ''description'' (Text []),
                   nl_encodingType = row_get r ''encodingType'' (Text ''application/geo+json''),
                   nl_location = g,
                   nl_Thing = foreign_key r ''thing_id''\<rparr>]\<rparr>))"

definition observed_property_row ::
  "builtins \<Rightarrow> (nat \<Rightarrow> string) \<Rightarrow> row \<Rightarrow> reading \<Rightarrow> error + reading" where
  "observed_property_row B U r st =
     Inr (fst st + 1,
          (snd st)\<lparr>sd_ObservedProperties := sd_ObservedProperties (snd st) @
            [\<lparr>nop_id = None,
              nop_name = row_get r ''name'' (Text (''ObservedProperty_'' @ U (fst st))),
              nop_description = row_get r ''description'' (Text []),
              nop_definition = row_get r ''definition'' (Text [])\<rparr>]\<rparr>)"

definition sensor_row :: "builtins \<Rightarrow> (nat \<Rightarrow> string) \<Rightarrow> row \<Rightarrow> reading \<Rightarrow> error + reading" where
  "sensor_row B U r st =
     Inr (fst st + 1,
          (snd st)\<lparr>sd_Sensors := sd_Sensors (snd st) @
            [\<lparr>ns_id = None,
              ns_name = row_get r ''name'' (Text (''Sensor_'' @ U (fst st))),
              ns_description = row_get r ''description'' (Text []),
              ns_encodingType = row_get r ''encodingType'' (Text ''application/pdf''),
              ns_metadata = row_get r ''metadata'' (Text [])\<rparr>]\<rparr>)"

definition datastream_row :: "builtins \<Rightarrow> (nat \<Rightarrow> string) \<Rightarrow> row \<Rightarrow> reading \<Rightarrow> error + reading" where
  "datastream_row B U r st =
     (case json_field B r ''unitOfMeasurement'' (JObj []) of
        Inl e \<Rightarrow> Inl e
      | Inr u \<Rightarrow>
          Inr (fst st + 1,
               (snd st)\<lparr>sd_Datastreams := sd_Datastreams (snd st) @
                 [\<lparr>nd_id = None,
                   nd_name = row_get r ''name'' (Text (''Datastream_'' @ U (fst st))),
                   nd_description = row_get r ''description'' (Text []),
                   nd_observationType = row_get r ''observationType'' (Text OM_Measurement),
                   nd_unitOfMeasurement = u,
                   nd_Thing = foreign_key r ''thing_id'',
                   nd_Sensor = map_option Fragment (foreign_key r ''sensor_id''),
                   nd_ObservedProperty =
                     map_option Fragment (foreign_key r ''observed_property_id''),
                   nd_Observations = None\<rparr>]\<rparr>))"

text \<open>\<^verbatim>\<open>json.loads(v) if isinstance(v, str) else v\<close>, for a cell that is present.\<close>

definition feature_of_interest :: "builtins \<Rightarrow> row \<Rightarrow> error + jfield option" where
  "feature_of_interest B r =
     (case foreign_key r ''feature_of_interest'' of
        None \<Rightarrow> Inr None
      | Some (Text s) \<Rightarrow>
          (case json_loads B s of
             None \<Rightarrow> Inl (JSONDecodeError s)
           | Some j \<Rightarrow> Inr (Some (Parsed j)))
      | Some v \<Rightarrow> Inr (Some (Raw v)))"

text \<open>
  \<^verbatim>\<open>row.get(k, None)\<close> followed by the removal of the entries that are \<^verbatim>\<open>None\<close>: a
  field read from a cell is there exactly when the row has the key, and the parameters
  are there unless the text read as JSON is \<^verbatim>\<open>null\<close>.
\<close>

definition observation_row :: "builtins \<Rightarrow> (nat \<Rightarrow> string) \<Rightarrow> row \<Rightarrow> reading \<Rightarrow> error + reading" where
  "observation_row B U r st =
     (case json_field B r ''parameters'' (JObj []) of
        Inl e \<Rightarrow> Inl e
      | Inr p \<Rightarrow>
          (case feature_of_interest B r of
             Inl e \<Rightarrow> Inl e
           | Inr f \<Rightarrow>
               Inr (fst st,
                    (snd st)\<lparr>sd_Observations := sd_Observations (snd st) @
                      [\<lparr>no_phenomenonTime = map_of r ''phenomenonTime'',
                        no_resultTime = map_of r ''resultTime'',
                        no_result = map_of r ''result'',
                        no_resultQuality = map_of r ''resultQuality'',
                        no_parameters = (if p = Parsed JNull then None else Some p),
                        no_Datastream = foreign_key r ''datastream_id'',
                        no_FeatureOfInterest = f\<rparr>]\<rparr>)))"

text \<open>\<^verbatim>\<open>if name in excel_data: for _, row in excel_data[name].iterrows(): ...\<close>\<close>

definition read_table ::
  "workbook \<Rightarrow> string \<Rightarrow> (row \<Rightarrow> reading \<Rightarrow> error + reading) \<Rightarrow> reading \<Rightarrow> error + reading" where
  "read_table excel_data name f st =
     (case map_of excel_data name of
        None \<Rightarrow> Inr st
      | Some df \<Rightarrow> for_each f (df_rows df) st)"

definition read_tables :: "builtins \<Rightarrow> (nat \<Rightarrow> string) \<Rightarrow> workbook \<Rightarrow> error + reading" where
  "read_tables B U excel_data =
     (case read_table excel_data ''Things'' (thing_row B U) (0, sta_init) of
        Inl e \<Rightarrow> Inl e
      | Inr st1 \<Rightarrow>
     (case read_table excel_data ''Locations'' (location_row B U) st1 of
        Inl e \<Rightarrow> Inl e
      | Inr st2 \<Rightarrow>
     (case read_table excel_data ''ObservedProperties'' (observed_property_row B U) st2 of
        Inl e \<Rightarrow> Inl e
      | Inr st3 \<Rightarrow>
     (case read_table excel_data ''Sensors'' (sensor_row B U) st3 of
        Inl e \<Rightarrow> Inl e
      | Inr st4 \<Rightarrow>
     (case read_table excel_data ''Datastreams'' (datastream_row B U) st4 of
        Inl e \<Rightarrow> Inl e
      | Inr st5 \<Rightarrow>
          read_table excel_data ''Observations'' (observation_row B U) st5)))))"

text \<open>
  Python's \<^verbatim>\<open>==\<close> on what \<^verbatim>\<open>get("@iot.id")\<close> returns: the missing marker equals nothing,
  and an absent id (\<^verbatim>\<open>None\<close>) equals only an absent id.
\<close>

fun cell_eq :: "cell \<Rightarrow> cell \<Rightarrow> bool" where
  "cell_eq NaN b = False"
| "cell_eq a NaN = False"
| "cell_eq a b = (a = b)"

fun id_eq :: "cell option \<Rightarrow> cell option \<Rightarrow> bool" where
  "id_eq None None = True"
| "id_eq (Some a) (Some b) = cell_eq a b"
| "id_eq a b = False"

text \<open>\<^verbatim>\<open>"Thing" in x and x["Thing"].get("@iot.id") == thing_id\<close>\<close>

definition refers_to :: "cell option \<Rightarrow> cell \<Rightarrow> bool" where
  "refers_to fk thing_id = (case fk of None \<Rightarrow> False | Some v \<Rightarrow> cell_eq v thing_id)"

text \<open>\<^verbatim>\<open>ds["Sensor"].get("@iot.id")\<close>, on a fragment or on an entity.\<close>

fun ref_id :: "('a \<Rightarrow> cell option) \<Rightarrow> 'a ref \<Rightarrow> cell option" where
  "ref_id f (Fragment v) = Some v"
| "ref_id f (Entity e) = f e"

text \<open>Lines 172 to 192: what the assembly does to one selected Datastream, in place.\<close>

definition resolve_sensor :: "sta_data \<Rightarrow> n_datastream \<Rightarrow> n_datastream" where
  "resolve_sensor sta ds =
     (case nd_Sensor ds of
        None \<Rightarrow> ds
      | Some r \<Rightarrow>
          (let sensor_id = ref_id ns_id r;
               matching_sensors = filter (\<lambda>s. id_eq (ns_id s) sensor_id) (sd_Sensors sta)
           in case matching_sensors of
                [] \<Rightarrow> ds
              | s # rest \<Rightarrow> ds\<lparr>nd_Sensor := Some (Entity s)\<rparr>))"

definition resolve_observed_property :: "sta_data \<Rightarrow> n_datastream \<Rightarrow> n_datastream" where
  "resolve_observed_property sta ds =
     (case nd_ObservedProperty ds of
        None \<Rightarrow> ds
      | Some r \<Rightarrow>
          (let op_id = ref_id nop_id r;
               matching_ops = filter (\<lambda>p. id_eq (nop_id p) op_id) (sd_ObservedProperties sta)
           in case matching_ops of
                [] \<Rightarrow> ds
              | p # rest \<Rightarrow> ds\<lparr>nd_ObservedProperty := Some (Entity p)\<rparr>))"

definition attach_observations :: "sta_data \<Rightarrow> n_datastream \<Rightarrow> n_datastream" where
  "attach_observations sta ds =
     (let ds_id = nd_id ds;
          ds_observations =
            filter (\<lambda>ob. case no_Datastream ob of
                            None \<Rightarrow> False
                          | Some v \<Rightarrow> id_eq (Some v) ds_id)
              (sd_Observations sta)
      in if ds_observations \<noteq> [] then ds\<lparr>nd_Observations := Some ds_observations\<rparr> else ds)"

definition resolve :: "sta_data \<Rightarrow> n_datastream \<Rightarrow> n_datastream" where
  "resolve sta ds = attach_observations sta (resolve_observed_property sta (resolve_sensor sta ds))"

text \<open>
  The assembly (lines 143 to 199). The Datastreams a Thing selects are the dictionaries
  of \<^verbatim>\<open>sta_data["Datastreams"]\<close> themselves, which the loop updates in place and the
  Thing then holds by reference. The state of the loop over the Things is therefore the
  list of the Things emitted so far, each with the positions of its Datastreams in that
  list, and the current content of the list.
\<close>

record assembly =
  a_result :: "(n_thing \<times> nat list) list"
  a_datastreams :: "n_datastream list"

definition assemble_thing :: "sta_data \<Rightarrow> n_thing \<Rightarrow> assembly \<Rightarrow> assembly" where
  "assemble_thing sta thing a =
     (let thing_id = (case nt_id thing of
                        None \<Rightarrow> Number (real (length (a_result a) + 1))
                      | Some v \<Rightarrow> v);
          thing_with_relations = thing\<lparr>nt_id := Some thing_id\<rparr>;
          thing_locations = filter (\<lambda>loc. refers_to (nl_Thing loc) thing_id) (sd_Locations sta);
          t1 = (if thing_locations \<noteq> []
                then thing_with_relations\<lparr>nt_Locations := Some thing_locations\<rparr>
                else thing_with_relations);
          selected = filter (\<lambda>i. refers_to (nd_Thing (a_datastreams a ! i)) thing_id)
                       [0 ..< length (a_datastreams a)];
          dss = fold (\<lambda>i dss. dss[i := resolve sta (dss ! i)]) selected (a_datastreams a)
      in \<lparr>a_result = a_result a @ [(t1, selected)], a_datastreams = dss\<rparr>)"

definition emit_thing :: "n_datastream list \<Rightarrow> n_thing \<times> nat list \<Rightarrow> n_thing" where
  "emit_thing dss entry =
     (if snd entry \<noteq> []
      then (fst entry)\<lparr>nt_Datastreams := Some (map (\<lambda>i. dss ! i) (snd entry))\<rparr>
      else fst entry)"

definition n_construct_nested_structure :: "sta_data \<Rightarrow> n_document" where
  "n_construct_nested_structure sta =
     (let a = fold (assemble_thing sta) (sd_Things sta)
                \<lparr>a_result = [], a_datastreams = sd_Datastreams sta\<rparr>
      in \<lparr>n_Things = map (emit_thing (a_datastreams a)) (a_result a)\<rparr>)"

definition n_excel_to_sensorthings ::
  "builtins \<Rightarrow> (nat \<Rightarrow> string) \<Rightarrow> workbook \<Rightarrow> error + n_document" where
  "n_excel_to_sensorthings B U excel_data =
     (case read_tables B U excel_data of
        Inl e \<Rightarrow> Inl e
      | Inr st \<Rightarrow> Inr (n_construct_nested_structure (snd st)))"

section \<open>Predicates on the stores\<close>

text \<open>No store holds two entries under one key.\<close>

definition keys_distinct :: "transformer \<Rightarrow> bool" where
  "keys_distinct s =
     (distinct (map fst (things s)) \<and> distinct (map fst (locations s))
      \<and> distinct (map fst (observed_properties s)) \<and> distinct (map fst (sensors s))
      \<and> distinct (map fst (datastreams s)))"

definition fv_keys_distinct :: "stores \<Rightarrow> bool" where
  "fv_keys_distinct s =
     (distinct (map fst (fv_things s)) \<and> distinct (map fst (fv_locations s))
      \<and> distinct (map fst (fv_observed_properties s)) \<and> distinct (map fst (fv_sensors s))
      \<and> distinct (map fst (fv_datastreams s)))"

text \<open>The entries of a store under one key.\<close>

definition entries :: "'k \<Rightarrow> ('k \<times> 'v) list \<Rightarrow> ('k \<times> 'v) list" where
  "entries k xs = filter (\<lambda>e. fst e = k) xs"

text \<open>
  What every entry of the stores looks like after any number of registrations: a Thing
  carries the id built from its key, and an ObservedProperty and a Sensor are the ones
  built from their key.
\<close>

definition entities_ok :: "transformer \<Rightarrow> bool" where
  "entities_ok s =
     (list_all (\<lambda>e. t_id (snd e) = ''thing_'' @ fst e) (things s)
      \<and> list_all (\<lambda>e. snd e = new_observed_property (fst e)) (observed_properties s)
      \<and> list_all (\<lambda>e. snd e = new_sensor (fst e)) (sensors s))"

definition fv_entities_ok :: "stores \<Rightarrow> bool" where
  "fv_entities_ok s =
     (list_all (\<lambda>e. t_id (snd e) = ''thing_'' @ fst e) (fv_things s)
      \<and> list_all (\<lambda>e. snd e = new_observed_property (fst e)) (fv_observed_properties s)
      \<and> list_all (\<lambda>e. snd e = new_sensor (fst e)) (fv_sensors s))"

text \<open>
  A Location is the one built from its key: \<^verbatim>\<open>thing_id.split('_')[1]\<close> is the second piece
  of the key. In the converter with the legend lookup the name and the description of a
  Location come from the legend entry of the row that registered it; its id is built
  from its key.
\<close>

definition locations_ok :: "transformer \<Rightarrow> bool" where
  "locations_ok s =
     list_all (\<lambda>e. snd e = new_location (fst e) (py_split CHR ''_'' (fst e) ! Suc 0)) (locations s)"

definition fv_locations_ok :: "stores \<Rightarrow> bool" where
  "fv_locations_ok s =
     list_all (\<lambda>e. l_id (snd e) = ''location_'' @ remove_all ''thing_'' (fst e)) (fv_locations s)"

text \<open>The Things and the Locations of the first stores are still there, in their places.\<close>

definition extends :: "transformer \<Rightarrow> transformer \<Rightarrow> bool" where
  "extends s s' = (prefix (things s) (things s') \<and> prefix (locations s) (locations s'))"

definition fv_extends :: "stores \<Rightarrow> stores \<Rightarrow> bool" where
  "fv_extends s s' =
     (prefix (fv_things s) (fv_things s') \<and> prefix (fv_locations s) (fv_locations s'))"

text \<open>The stores after the three registrations of one cell.\<close>

definition fv_registered :: "builtins \<Rightarrow> hms_info \<Rightarrow> string \<Rightarrow> string \<Rightarrow> stores \<Rightarrow> stores" where
  "fv_registered B i tid mt s =
     snd (fv_create_datastream B i tid mt
            (fst (fv_create_sensor mt (snd (fv_create_observed_property mt s))))
            (fst (fv_create_observed_property mt s))
            (snd (fv_create_sensor mt (snd (fv_create_observed_property mt s)))))"

section \<open>Concrete inputs\<close>

text \<open>Builtins for the examples, which convert no text to a number and print no number.\<close>

definition plain_builtins :: builtins where
  "plain_builtins = \<lparr>float_of_str = (\<lambda>s. None), str_of_num = (\<lambda>r. ''0''),
                      json_loads = (\<lambda>s. None)\<rparr>"

definition sheet_of :: "string list \<Rightarrow> row list \<Rightarrow> workbook" where
  "sheet_of columns rows = [(''Tension kPa'', \<lparr>df_columns = columns, df_rows = rows\<rparr>)]"

text \<open>One row with an identifier, a measurement and no timestamp.\<close>

definition row_without_timestamp :: row where
  "row_without_timestamp = [(''ID_MS'', Text ''MS1''), (''DATUM'', NaN), (''TENS20_1'', Number 12)]"

text \<open>One row with a timestamp, a measurement and no identifier.\<close>

definition row_without_identifier :: row where
  "row_without_identifier = [(''ID_MS'', NaN), (''DATUM'', Text ''T1''), (''TENS20_1'', Number 12)]"

text \<open>One row whose measurement is a text that is no number.\<close>

definition row_with_text :: row where
  "row_with_text = [(''ID_MS'', Text ''MS1''), (''DATUM'', Text ''T1''), (''TENS20_1'', Text ''n/a'')]"

text \<open>One station with two measurements at one time.\<close>

definition row_two_measurements :: row where
  "row_two_measurements =
     [(''ID_MS'', Text ''MS1''), (''DATUM'', Text ''T1''),
      (''TENS20_1'', Number 12), (''TENS50_1'', Number 7)]"

text \<open>Two stations, \<open>1\<close> and \<open>10\<close>, with one measurement each.\<close>

definition rows_stations_1_10 :: "row list" where
  "rows_stations_1_10 =
     [[(''ID_MS'', Text ''1''), (''DATUM'', Text ''T1''), (''TENS20_1'', Number 12)],
      [(''ID_MS'', Text ''10''), (''DATUM'', Text ''T1''), (''TENS20_1'', Number 7)]]"

text \<open>The Datastreams of a document, Thing by Thing: the id of each and the results of
  the Observations under it.\<close>

definition datastreams_of :: "document \<Rightarrow> (string \<times> (string \<times> pyfloat list) list) list" where
  "datastreams_of d =
     map (\<lambda>t. (t_id t,
                map (\<lambda>x. (d_id x, case d_Observations x of None \<Rightarrow> [] | Some os \<Rightarrow> map result os))
                  (case t_Datastreams t of None \<Rightarrow> [] | Some ds \<Rightarrow> ds)))
       (Things d)"

text \<open>The ids of the Datastreams of a document, Thing by Thing.\<close>

definition datastream_ids_of :: "document \<Rightarrow> (string \<times> string list) list" where
  "datastream_ids_of d = map (\<lambda>e. (fst e, map fst (snd e))) (datastreams_of d)"

section \<open>The nested document of the per-entity tables, by value\<close>

text \<open>
  What the assembly of the per-entity tables computes, written without the in-place
  updates and in the words of the matching policy: a reference resolves to the first
  entity of the target collection whose id equals the reference value, and stays the
  fragment it was when there is none.
\<close>

definition first_with_id :: "('a \<Rightarrow> cell option) \<Rightarrow> cell option \<Rightarrow> 'a list \<Rightarrow> 'a option" where
  "first_with_id f i xs = find (\<lambda>x. id_eq (f x) i) xs"

definition resolved_reference :: "('a \<Rightarrow> cell option) \<Rightarrow> 'a list \<Rightarrow> 'a ref \<Rightarrow> 'a ref" where
  "resolved_reference f xs r =
     (case first_with_id f (ref_id f r) xs of None \<Rightarrow> r | Some e \<Rightarrow> Entity e)"

definition matching_observations :: "sta_data \<Rightarrow> n_datastream \<Rightarrow> n_observation list" where
  "matching_observations sta d =
     filter (\<lambda>ob. case no_Datastream ob of None \<Rightarrow> False | Some v \<Rightarrow> id_eq (Some v) (nd_id d))
       (sd_Observations sta)"

definition nested_datastream :: "sta_data \<Rightarrow> n_datastream \<Rightarrow> n_datastream" where
  "nested_datastream sta d =
     d\<lparr>nd_Sensor := map_option (resolved_reference ns_id (sd_Sensors sta)) (nd_Sensor d),
       nd_ObservedProperty :=
         map_option (resolved_reference nop_id (sd_ObservedProperties sta)) (nd_ObservedProperty d),
       nd_Observations :=
         (if matching_observations sta d = [] then nd_Observations d
          else Some (matching_observations sta d))\<rparr>"

text \<open>The id of the Thing at position \<open>k\<close> (from 0) of the Things table.\<close>

definition assigned_id :: "sta_data \<Rightarrow> nat \<Rightarrow> cell" where
  "assigned_id sta k =
     (case nt_id (sd_Things sta ! k) of None \<Rightarrow> Number (real (k + 1)) | Some v \<Rightarrow> v)"

definition locations_of :: "sta_data \<Rightarrow> cell \<Rightarrow> n_location list" where
  "locations_of sta thing_id = filter (\<lambda>l. refers_to (nl_Thing l) thing_id) (sd_Locations sta)"

definition datastreams_for :: "sta_data \<Rightarrow> cell \<Rightarrow> n_datastream list" where
  "datastreams_for sta thing_id =
     filter (\<lambda>d. refers_to (nd_Thing d) thing_id) (sd_Datastreams sta)"

text \<open>The Thing at position \<open>k\<close> with its id and its Locations, before its Datastreams.\<close>

definition thing_head :: "sta_data \<Rightarrow> nat \<Rightarrow> n_thing" where
  "thing_head sta k =
     (if locations_of sta (assigned_id sta k) \<noteq> []
      then (sd_Things sta ! k)\<lparr>nt_id := Some (assigned_id sta k),
             nt_Locations := Some (locations_of sta (assigned_id sta k))\<rparr>
      else (sd_Things sta ! k)\<lparr>nt_id := Some (assigned_id sta k)\<rparr>)"

definition nested_thing :: "sta_data \<Rightarrow> nat \<Rightarrow> n_thing" where
  "nested_thing sta k =
     (if datastreams_for sta (assigned_id sta k) \<noteq> []
      then (thing_head sta k)\<lparr>nt_Datastreams :=
             Some (map (nested_datastream sta) (datastreams_for sta (assigned_id sta k)))\<rparr>
      else thing_head sta k)"

text \<open>The positions in the Datastreams table of the Datastreams that refer to an id.\<close>

definition positions_for :: "sta_data \<Rightarrow> cell \<Rightarrow> nat list" where
  "positions_for sta thing_id =
     filter (\<lambda>i. refers_to (nd_Thing (sd_Datastreams sta ! i)) thing_id)
       [0 ..< length (sd_Datastreams sta)]"

text \<open>
  A state of the assembly loop's Datastream list: each dictionary is as it was read or
  as the assembly leaves it.
\<close>

definition partly_resolved :: "sta_data \<Rightarrow> n_datastream list \<Rightarrow> bool" where
  "partly_resolved sta dss =
     (length dss = length (sd_Datastreams sta)
      \<and> (\<forall>i < length dss. dss ! i = sd_Datastreams sta ! i
                           \<or> dss ! i = nested_datastream sta (sd_Datastreams sta ! i)))"

text \<open>
  What the tables read from a workbook look like: the reader gives no entity an id,
  and every reference of a Datastream is a fragment.
\<close>

fun is_fragment :: "'a ref option \<Rightarrow> bool" where
  "is_fragment (Some (Entity e)) = False"
| "is_fragment r = True"

definition as_read :: "sta_data \<Rightarrow> bool" where
  "as_read sta =
     (list_all (\<lambda>t. nt_id t = None) (sd_Things sta)
      \<and> list_all (\<lambda>s. ns_id s = None) (sd_Sensors sta)
      \<and> list_all (\<lambda>p. nop_id p = None) (sd_ObservedProperties sta)
      \<and> list_all (\<lambda>d. nd_id d = None \<and> is_fragment (nd_Sensor d)
                        \<and> is_fragment (nd_ObservedProperty d)) (sd_Datastreams sta))"

text \<open>The rows of a table of the workbook; none when the workbook has no such table.\<close>

definition rows_of :: "workbook \<Rightarrow> string \<Rightarrow> row list" where
  "rows_of excel_data name = (case map_of excel_data name of None \<Rightarrow> [] | Some df \<Rightarrow> df_rows df)"

subsection \<open>A concrete input for the per-entity tables\<close>

definition no_uuids :: "nat \<Rightarrow> string" where
  "no_uuids n = ''00000000-0000-4000-8000-000000000000''"

text \<open>
  Two Things, and two Datastreams: one of Thing 1 with a reference to Sensor 9, one
  that refers to a Thing 7. There is no Sensors table.
\<close>

definition example_tables :: workbook where
  "example_tables =
     [(''Things'', \<lparr>df_columns = [''name''],
                    df_rows = [[(''name'', Text ''A'')], [(''name'', Text ''B'')]]\<rparr>),
      (''Datastreams'', \<lparr>df_columns = [''name'', ''thing_id'', ''sensor_id''],
                    df_rows = [[(''name'', Text ''D1''), (''thing_id'', Number 1),
                                (''sensor_id'', Number 9)],
                               [(''name'', Text ''D7''), (''thing_id'', Number 7),
                                (''sensor_id'', NaN)]]\<rparr>)]"

definition example_thing :: "string \<Rightarrow> n_thing" where
  "example_thing name =
     \<lparr>nt_id = None, nt_name = Text name, nt_description = Text [],
      nt_properties = Parsed (JObj []), nt_Locations = None, nt_Datastreams = None\<rparr>"

definition example_datastream :: "string \<Rightarrow> real \<Rightarrow> n_sensor ref option \<Rightarrow> n_datastream" where
  "example_datastream name thing_id sensor =
     \<lparr>nd_id = None, nd_name = Text name, nd_description = Text [],
      nd_observationType = Text OM_Measurement, nd_unitOfMeasurement = Parsed (JObj []),
      nd_Thing = Some (Number thing_id), nd_Sensor = sensor, nd_ObservedProperty = None,
      nd_Observations = None\<rparr>"

definition example_sta :: sta_data where
  "example_sta =
     \<lparr>sd_Things = [example_thing ''A'', example_thing ''B''],
      sd_Locations = [], sd_ObservedProperties = [], sd_Sensors = [],
      sd_Datastreams = [example_datastream ''D1'' 1 (Some (Fragment (Number 9))),
                        example_datastream ''D7'' 7 None],
      sd_Observations = []\<rparr>"

text \<open>The Things of a document with the names of the Datastreams under each.\<close>

definition n_datastream_names :: "n_thing \<Rightarrow> cell \<times> cell list" where
  "n_datastream_names t =
     (nt_name t, case nt_Datastreams t of None \<Rightarrow> [] | Some ds \<Rightarrow> map nd_name ds)"

definition n_names_of :: "n_document \<Rightarrow> (cell \<times> cell list) list" where
  "n_names_of d = map n_datastream_names (n_Things d)"

subsection \<open>Documents up to the names\<close>

text \<open>
  The name of an entity is the only value that can come from the random source. These
  functions blank the names, of the tables and of a document.
\<close>

definition erase_sensor :: "n_sensor \<Rightarrow> n_sensor" where
  "erase_sensor s = s\<lparr>ns_name := NaN\<rparr>"

definition erase_observed_property :: "n_observed_property \<Rightarrow> n_observed_property" where
  "erase_observed_property p = p\<lparr>nop_name := NaN\<rparr>"

definition erase_location :: "n_location \<Rightarrow> n_location" where
  "erase_location l = l\<lparr>nl_name := NaN\<rparr>"

definition erase_datastream :: "n_datastream \<Rightarrow> n_datastream" where
  "erase_datastream d =
     d\<lparr>nd_name := NaN,
       nd_Sensor := map_option (map_ref erase_sensor) (nd_Sensor d),
       nd_ObservedProperty := map_option (map_ref erase_observed_property) (nd_ObservedProperty d)\<rparr>"

definition erase_thing :: "n_thing \<Rightarrow> n_thing" where
  "erase_thing t =
     t\<lparr>nt_name := NaN,
       nt_Locations := map_option (map erase_location) (nt_Locations t),
       nt_Datastreams := map_option (map erase_datastream) (nt_Datastreams t)\<rparr>"

definition erase_sta :: "sta_data \<Rightarrow> sta_data" where
  "erase_sta sta =
     \<lparr>sd_Things = map erase_thing (sd_Things sta),
      sd_Locations = map erase_location (sd_Locations sta),
      sd_ObservedProperties = map erase_observed_property (sd_ObservedProperties sta),
      sd_Sensors = map erase_sensor (sd_Sensors sta),
      sd_Datastreams = map erase_datastream (sd_Datastreams sta),
      sd_Observations = sd_Observations sta\<rparr>"

definition erase_names :: "n_document \<Rightarrow> n_document" where
  "erase_names d = \<lparr>n_Things = map erase_thing (n_Things d)\<rparr>"

definition ids_of :: "n_document \<Rightarrow> cell option list" where
  "ids_of d = map nt_id (n_Things d)"

text \<open>Every row of the five tables whose rows get a default name has a name.\<close>

definition all_named :: "workbook \<Rightarrow> bool" where
  "all_named excel_data =
     list_all (\<lambda>table. list_all (\<lambda>r. map_of r ''name'' \<noteq> None) (rows_of excel_data table))
       [''Things'', ''Locations'', ''ObservedProperties'', ''Sensors'', ''Datastreams'']"

text \<open>Two states of the reading loops that agree up to the names.\<close>

definition same_up_to_names :: "reading \<Rightarrow> reading \<Rightarrow> bool" where
  "same_up_to_names st1 st2 = (erase_sta (snd st1) = erase_sta (snd st2))"

definition other_uuids :: "nat \<Rightarrow> string" where
  "other_uuids n = ''ffffffff-ffff-4fff-bfff-ffffffffffff''"

text \<open>A Things table whose only row has no name.\<close>

definition nameless_tables :: workbook where
  "nameless_tables =
     [(''Things'', \<lparr>df_columns = [''description''],
                    df_rows = [[(''description'', Text ''station'')]]\<rparr>)]"

section \<open>The assembly of final\_version\_6things.py on a store of dictionaries\<close>

text \<open>
  To state what the assembly leaves untouched, the dictionaries it handles are placed
  in a store: one list of objects for the Things, one for the Datastreams and one for
  the Observations, an address being a position in its list. \<^verbatim>\<open>d.copy()\<close> allocates a new
  object with the entries of \<open>d\<close>; an assignment \<^verbatim>\<open>d[k] = v\<close> and \<^verbatim>\<open>d.pop(k, None)\<close> update
  the object at the address of \<open>d\<close>. The children a dictionary receives are held by
  address. Locations, Sensors, ObservedProperties and units are never written by the
  assembly and are kept by value.

  The entries of a Thing or Datastream dictionary other than its children are a value
  of type \<open>thing\<close> or \<open>datastream\<close> whose own child fields are not used here.
\<close>

record h_observation =
  ho_phenomenonTime :: cell
  ho_resultTime :: cell
  ho_result :: pyfloat
  ho_Datastream :: "string option"

record h_datastream =
  hd_entity :: datastream
  hd_Observations :: "nat list option"

record h_thing =
  ht_entity :: thing
  ht_Locations :: "location list option"
  ht_Datastreams :: "nat list option"

text \<open>
  The memory of the function at the start of the assembly: the three lists of objects,
  and the local variables \<open>things\<close>, \<open>locations\<close>, \<open>datastreams\<close> and \<open>observations\<close>,
  which hold the addresses of their entries.
\<close>

record memory =
  h_things :: "h_thing list"
  h_datastreams :: "h_datastream list"
  h_observations :: "h_observation list"
  m_things :: "(string \<times> nat) list"
  m_locations :: "(string \<times> location) list"
  m_datastreams :: "(string \<times> nat) list"
  m_observations :: "nat list"

text \<open>\<^verbatim>\<open>observation.copy()\<close>, \<^verbatim>\<open>datastream.copy()\<close>, \<^verbatim>\<open>thing.copy()\<close>: the address of the copy and
  the memory with it.\<close>

definition copy_observation :: "nat \<Rightarrow> memory \<Rightarrow> nat \<times> memory" where
  "copy_observation a M =
     (length (h_observations M),
      M\<lparr>h_observations := h_observations M @ [h_observations M ! a]\<rparr>)"

definition copy_datastream :: "nat \<Rightarrow> memory \<Rightarrow> nat \<times> memory" where
  "copy_datastream a M =
     (length (h_datastreams M), M\<lparr>h_datastreams := h_datastreams M @ [h_datastreams M ! a]\<rparr>)"

definition copy_thing :: "nat \<Rightarrow> memory \<Rightarrow> nat \<times> memory" where
  "copy_thing a M = (length (h_things M), M\<lparr>h_things := h_things M @ [h_things M ! a]\<rparr>)"

text \<open>\<^verbatim>\<open>obs_copy.pop("Datastream", None)\<close>\<close>

definition pop_Datastream :: "nat \<Rightarrow> memory \<Rightarrow> memory" where
  "pop_Datastream a M =
     M\<lparr>h_observations := (h_observations M)[a := (h_observations M ! a)\<lparr>ho_Datastream := None\<rparr>]\<rparr>"

text \<open>\<^verbatim>\<open>d["Observations"] = v\<close>, \<^verbatim>\<open>t["Locations"] = v\<close>, \<^verbatim>\<open>t["Datastreams"] = v\<close>\<close>

definition set_Observations :: "nat \<Rightarrow> nat list \<Rightarrow> memory \<Rightarrow> memory" where
  "set_Observations a v M =
     M\<lparr>h_datastreams := (h_datastreams M)[a := (h_datastreams M ! a)\<lparr>hd_Observations := Some v\<rparr>]\<rparr>"

definition set_Locations :: "nat \<Rightarrow> location list \<Rightarrow> memory \<Rightarrow> memory" where
  "set_Locations a v M =
     M\<lparr>h_things := (h_things M)[a := (h_things M ! a)\<lparr>ht_Locations := Some v\<rparr>]\<rparr>"

definition set_Datastreams :: "nat \<Rightarrow> nat list \<Rightarrow> memory \<Rightarrow> memory" where
  "set_Datastreams a v M =
     M\<lparr>h_things := (h_things M)[a := (h_things M ! a)\<lparr>ht_Datastreams := Some v\<rparr>]\<rparr>"

text \<open>
  The body of the loop over the observations (lines 258 to 263), for the Datastream at
  address \<open>d\<close>: \<^verbatim>\<open>observation["Datastream"]\<close> raises KeyError on an observation without
  that key.
\<close>

definition h_observation_step ::
  "nat \<Rightarrow> nat \<Rightarrow> memory \<times> nat list \<Rightarrow> error + memory \<times> nat list" where
  "h_observation_step d a st =
     (case ho_Datastream (h_observations (fst st) ! a) of
        None \<Rightarrow> Inl (KeyError ''Datastream'')
      | Some i \<Rightarrow>
          if i = d_id (hd_entity (h_datastreams (fst st) ! d))
          then (let (obs_copy, M1) = copy_observation a (fst st);
                    M2 = pop_Datastream obs_copy M1
                in Inr (M2, snd st @ [obs_copy]))
          else Inr st)"

text \<open>The body of the loop over the datastreams (lines 252 to 268), for the Thing at
  address \<open>t\<close>.\<close>

definition h_datastream_step ::
  "nat \<Rightarrow> string \<times> nat \<Rightarrow> memory \<times> nat list \<Rightarrow> error + memory \<times> nat list" where
  "h_datastream_step t entry st =
     (if startswith (fst entry) (t_id (ht_entity (h_things (fst st) ! t)))
      then (let (datastream_copy, M1) = copy_datastream (snd entry) (fst st)
            in case for_each (h_observation_step (snd entry)) (m_observations M1) (M1, []) of
                 Inl e \<Rightarrow> Inl e
               | Inr (M2, datastream_observations) \<Rightarrow>
                   Inr (if datastream_observations \<noteq> []
                        then set_Observations datastream_copy
                               datastream_observations M2
                        else M2,
                        snd st @ [datastream_copy]))
      else Inr st)"

text \<open>The body of the loop over the things (lines 243 to 273).\<close>

definition h_thing_step ::
  "string \<times> nat \<Rightarrow> memory \<times> nat list \<Rightarrow> error + memory \<times> nat list" where
  "h_thing_step entry st =
     (let (thing_copy, M1) = copy_thing (snd entry) (fst st);
          thing_id = t_id (ht_entity (h_things M1 ! snd entry));
          M2 = (case map_of (m_locations M1) thing_id of
                  None \<Rightarrow> M1
                | Some l \<Rightarrow> set_Locations thing_copy [l] M1)
      in case for_each (h_datastream_step (snd entry)) (m_datastreams M2) (M2, []) of
           Inl e \<Rightarrow> Inl e
         | Inr (M3, copied_datastreams) \<Rightarrow>
             Inr (if copied_datastreams \<noteq> []
                  then set_Datastreams thing_copy copied_datastreams M3
                  else M3,
                  snd st @ [thing_copy]))"

text \<open>The assembly: the final memory and the addresses of the Things of the result.\<close>

definition h_assemble :: "memory \<Rightarrow> error + memory \<times> nat list" where
  "h_assemble M = for_each h_thing_step (m_things M) (M, [])"

text \<open>The memory in which the stores that the loops over the sheets have built lie: every
  entry is an object of its own.\<close>

definition load :: "stores \<Rightarrow> memory" where
  "load s =
     \<lparr>h_things = map (\<lambda>e. \<lparr>ht_entity = snd e, ht_Locations = None, ht_Datastreams = None\<rparr>)
                    (fv_things s),
      h_datastreams = map (\<lambda>e. \<lparr>hd_entity = snd e, hd_Observations = None\<rparr>) (fv_datastreams s),
      h_observations = map (\<lambda>ob. \<lparr>ho_phenomenonTime = so_phenomenonTime ob,
                                    ho_resultTime = so_resultTime ob,
                                    ho_result = so_result ob,
                                    ho_Datastream = Some (so_Datastream ob)\<rparr>)
                         (fv_observations s),
      m_things = zip (map fst (fv_things s)) [0 ..< length (fv_things s)],
      m_locations = fv_locations s,
      m_datastreams = zip (map fst (fv_datastreams s)) [0 ..< length (fv_datastreams s)],
      m_observations = [0 ..< length (fv_observations s)]\<rparr>"

text \<open>
  The second memory has every object of the first, unchanged and at its address, and
  the same four local variables.
\<close>

definition preserves :: "memory \<Rightarrow> memory \<Rightarrow> bool" where
  "preserves M M' =
     (prefix (h_things M) (h_things M') \<and> prefix (h_datastreams M) (h_datastreams M')
      \<and> prefix (h_observations M) (h_observations M')
      \<and> m_things M' = m_things M \<and> m_locations M' = m_locations M
      \<and> m_datastreams M' = m_datastreams M \<and> m_observations M' = m_observations M)"

text \<open>Every observation of the list has its back-reference.\<close>

definition observations_linked :: "memory \<Rightarrow> bool" where
  "observations_linked M =
     list_all (\<lambda>a. a < length (h_observations M) \<and> ho_Datastream (h_observations M ! a) \<noteq> None)
       (m_observations M)"

text \<open>The document that the result denotes: every address replaced by its object.\<close>

definition deref_observation :: "memory \<Rightarrow> nat \<Rightarrow> observation" where
  "deref_observation M a =
     \<lparr>phenomenonTime = ho_phenomenonTime (h_observations M ! a),
      resultTime = ho_resultTime (h_observations M ! a),
      result = ho_result (h_observations M ! a)\<rparr>"

definition deref_datastream :: "memory \<Rightarrow> nat \<Rightarrow> datastream" where
  "deref_datastream M a =
     (case hd_Observations (h_datastreams M ! a) of
        None \<Rightarrow> hd_entity (h_datastreams M ! a)
      | Some os \<Rightarrow> (hd_entity (h_datastreams M ! a))
                      \<lparr>d_Observations := Some (map (deref_observation M) os)\<rparr>)"

definition deref_thing :: "memory \<Rightarrow> nat \<Rightarrow> thing" where
  "deref_thing M a =
     (let t1 = (case ht_Locations (h_things M ! a) of
                  None \<Rightarrow> ht_entity (h_things M ! a)
                | Some ls \<Rightarrow> (ht_entity (h_things M ! a))\<lparr>t_Locations := Some ls\<rparr>)
      in case ht_Datastreams (h_things M ! a) of
           None \<Rightarrow> t1
         | Some ds \<Rightarrow> t1\<lparr>t_Datastreams := Some (map (deref_datastream M) ds)\<rparr>)"

definition document_of :: "memory \<times> nat list \<Rightarrow> document" where
  "document_of r = \<lparr>Things = map (deref_thing (fst r)) (snd r)\<rparr>"

subsection \<open>A concrete memory\<close>

definition example_thing_entity :: thing where
  "example_thing_entity =
     fv_new_thing plain_builtins \<lparr>hms = Text ''Unknown'', bemerkung = Text []\<rparr> ''MS1'' ''Soil Sensor''"

definition example_datastream_entity :: datastream where
  "example_datastream_entity =
     fv_new_datastream plain_builtins \<lparr>hms = Text ''Unknown'', bemerkung = Text []\<rparr>
       ''thing_Unknown__MS1_TENS20_1_Unknown_'' ''TENS20_1''
       (new_sensor ''TENS20_1'') (new_observed_property ''TENS20_1'')"

definition example_observation :: stored_observation where
  "example_observation =
     \<lparr>so_phenomenonTime = Text ''T1'', so_resultTime = Text ''T1'', so_result = Float 12,
      so_Datastream = ''ds_thing_Unknown__MS1_TENS20_1_Unknown_''\<rparr>"

text \<open>The stores after one row of station \<open>MS1\<close> with one measurement.\<close>

definition example_stores :: stores where
  "example_stores =
     \<lparr>fv_things = [(''Unknown__MS1'', example_thing_entity)],
      fv_locations = [],
      fv_observed_properties = [(''TENS20_1'', new_observed_property ''TENS20_1'')],
      fv_sensors = [(''TENS20_1'', new_sensor ''TENS20_1'')],
      fv_datastreams = [(''thing_Unknown__MS1_TENS20_1_Unknown_'', example_datastream_entity)],
      fv_observations = [example_observation]\<rparr>"

definition example_h_observation :: h_observation where
  "example_h_observation =
     \<lparr>ho_phenomenonTime = Text ''T1'', ho_resultTime = Text ''T1'', ho_result = Float 12,
      ho_Datastream = Some ''ds_thing_Unknown__MS1_TENS20_1_Unknown_''\<rparr>"

text \<open>The memory after the assembly of these stores: each object, and after it its copy.\<close>

definition example_memory_after :: memory where
  "example_memory_after =
     \<lparr>h_things = [\<lparr>ht_entity = example_thing_entity, ht_Locations = None, ht_Datastreams = None\<rparr>,
                  \<lparr>ht_entity = example_thing_entity, ht_Locations = None,
                    ht_Datastreams = Some [1]\<rparr>],
      h_datastreams = [\<lparr>hd_entity = example_datastream_entity, hd_Observations = None\<rparr>,
                       \<lparr>hd_entity = example_datastream_entity, hd_Observations = Some [1]\<rparr>],
      h_observations = [example_h_observation, example_h_observation\<lparr>ho_Datastream := None\<rparr>],
      m_things = [(''Unknown__MS1'', 0)],
      m_locations = [],
      m_datastreams = [(''thing_Unknown__MS1_TENS20_1_Unknown_'', 0)],
      m_observations = [0]\<rparr>"

subsection \<open>What the loops of the assembly yield, in terms of the memory they start from\<close>

definition selected_observations :: "memory \<Rightarrow> nat \<Rightarrow> nat list" where
  "selected_observations M d =
     filter (\<lambda>a. ho_Datastream (h_observations M ! a)
                   = Some (d_id (hd_entity (h_datastreams M ! d))))
       (m_observations M)"

definition assembled_datastream :: "memory \<Rightarrow> nat \<Rightarrow> datastream" where
  "assembled_datastream M d =
     (if selected_observations M d \<noteq> []
      then (hd_entity (h_datastreams M ! d))
             \<lparr>d_Observations := Some (map (deref_observation M) (selected_observations M d))\<rparr>
      else hd_entity (h_datastreams M ! d))"

definition selected_datastreams :: "memory \<Rightarrow> nat \<Rightarrow> (string \<times> nat) list" where
  "selected_datastreams M t =
     filter (\<lambda>e. startswith (fst e) (t_id (ht_entity (h_things M ! t)))) (m_datastreams M)"

definition assembled_thing :: "memory \<Rightarrow> nat \<Rightarrow> thing" where
  "assembled_thing M t =
     (let t1 = (case map_of (m_locations M) (t_id (ht_entity (h_things M ! t))) of
                  None \<Rightarrow> ht_entity (h_things M ! t)
                | Some l \<Rightarrow> (ht_entity (h_things M ! t))\<lparr>t_Locations := Some [l]\<rparr>)
      in if selected_datastreams M t \<noteq> []
         then t1\<lparr>t_Datastreams :=
                  Some (map (\<lambda>e. assembled_datastream M (snd e)) (selected_datastreams M t))\<rparr>
         else t1)"

text \<open>An object all of whose children lie in the memory.\<close>

definition datastream_closed :: "memory \<Rightarrow> nat \<Rightarrow> bool" where
  "datastream_closed M c =
     (c < length (h_datastreams M)
      \<and> (case hd_Observations (h_datastreams M ! c) of
            None \<Rightarrow> True
          | Some os \<Rightarrow> list_all (\<lambda>a. a < length (h_observations M)) os))"

definition thing_closed :: "memory \<Rightarrow> nat \<Rightarrow> bool" where
  "thing_closed M c =
     (c < length (h_things M)
      \<and> (case ht_Datastreams (h_things M ! c) of
            None \<Rightarrow> True
          | Some ds \<Rightarrow> list_all (datastream_closed M) ds))"

text \<open>The objects of the lists \<open>datastreams\<close> and \<open>things\<close> have no children yet.\<close>

definition datastreams_bare :: "memory \<Rightarrow> bool" where
  "datastreams_bare M =
     list_all (\<lambda>e. snd e < length (h_datastreams M)
                    \<and> hd_Observations (h_datastreams M ! snd e) = None) (m_datastreams M)"

definition things_bare :: "memory \<Rightarrow> (string \<times> nat) list \<Rightarrow> bool" where
  "things_bare M es =
     list_all (\<lambda>e. snd e < length (h_things M)
                    \<and> ht_Locations (h_things M ! snd e) = None
                    \<and> ht_Datastreams (h_things M ! snd e) = None) es"

section \<open>Loops that may raise\<close>

lemma for_each_append:
  "for_each f (xs @ ys) s =
     (case for_each f xs s of Inl e \<Rightarrow> Inl e | Inr s' \<Rightarrow> for_each f ys s')"
  by (induction xs arbitrary: s) (auto split: sum.splits)

lemma for_each_raises:
  assumes "x \<in> set xs" and "\<And>s. isl (f x s)"
  shows "isl (for_each f xs s)"
  using assms(1)
proof (induction xs arbitrary: s)
  case Nil
  then show ?case by simp
next
  case (Cons y ys)
  show ?case
  proof (cases "f y s")
    case (Inl e)
    then show ?thesis by simp
  next
    case (Inr s')
    show ?thesis
    proof (cases "x = y")
      case True
      with assms(2) [of s] Inr show ?thesis by simp
    next
      case False
      with Cons.prems have "x \<in> set ys" by simp
      from Cons.IH [OF this] Inr show ?thesis by simp
    qed
  qed
qed

lemma for_each_invariant:
  assumes "\<And>x s s'. x \<in> set xs \<Longrightarrow> P s \<Longrightarrow> f x s = Inr s' \<Longrightarrow> P s'"
    and "P s" and "for_each f xs s = Inr s'"
  shows "P s'"
  using assms
proof (induction xs arbitrary: s)
  case Nil
  then show ?case by simp
next
  case (Cons y ys)
  from Cons.prems(3) obtain s1 where y: "f y s = Inr s1" and r: "for_each f ys s1 = Inr s'"
    by (auto split: sum.splits)
  have "P s1" using Cons.prems(1) [of y s s1] Cons.prems(2) y by simp
  have "\<And>x s s'. x \<in> set ys \<Longrightarrow> P s \<Longrightarrow> f x s = Inr s' \<Longrightarrow> P s'"
    using Cons.prems(1) by (meson list.set_intros(2))
  from Cons.IH [OF this \<open>P s1\<close> r] show ?case .
qed

lemma for_each_total:
  assumes "\<And>x s. x \<in> set xs \<Longrightarrow> \<exists>s'. f x s = Inr s'"
  shows "\<exists>s'. for_each f xs s = Inr s'"
  using assms
proof (induction xs arbitrary: s)
  case Nil
  then show ?case by simp
next
  case (Cons y ys)
  from Cons.prems [of y s] obtain s1 where y: "f y s = Inr s1" by auto
  from Cons.IH [of s1] Cons.prems obtain s' where "for_each f ys s1 = Inr s'" by auto
  with y show ?case by simp
qed

section \<open>Create-or-get\<close>

lemma map_of_None_fresh: "map_of xs k = None \<Longrightarrow> k \<notin> fst ` set xs"
  by (simp add: map_of_eq_None_iff)

lemma map_of_snoc:
  "map_of (xs @ [(k, v)]) k' =
     (case map_of xs k' of None \<Rightarrow> (if k' = k then Some v else None) | Some y \<Rightarrow> Some y)"
  by (simp add: map_add_def split: option.splits)

lemma count_key_absent: "map_of xs k = None \<Longrightarrow> filter (\<lambda>e. fst e = k) xs = []"
  by (induction xs) (auto split: if_splits)

lemma count_key_present:
  "distinct (map fst xs) \<Longrightarrow> map_of xs k = Some v \<Longrightarrow> filter (\<lambda>e. fst e = k) xs = [(k, v)]"
proof (induction xs)
  case Nil
  then show ?case by simp
next
  case (Cons x xs)
  show ?case
  proof (cases "fst x = k")
    case True
    with Cons.prems have "k \<notin> fst ` set xs" and "x = (k, v)"
      by (auto simp: rev_image_eqI)
    then have "filter (\<lambda>e. fst e = k) xs = []"
      by (auto simp: filter_empty_conv)
    with \<open>x = (k, v)\<close> show ?thesis by simp
  next
    case False
    with Cons show ?thesis by (cases x) auto
  qed
qed

lemma create_thing_again:
  "create_thing id_ms c2 (snd (create_thing id_ms c1 s)) = create_thing id_ms c1 s"
  by (cases "map_of (things s) id_ms") (simp_all add: create_thing_def map_of_snoc del: map_of_append)

lemma create_thing_distinct:
  "distinct (map fst (things s)) \<Longrightarrow> distinct (map fst (things (snd (create_thing id_ms c s))))"
  by (cases "map_of (things s) id_ms")
     (auto simp: create_thing_def dest: map_of_None_fresh)

lemma create_thing_registered:
  "map_of (things (snd (create_thing id_ms c s))) id_ms = Some (fst (create_thing id_ms c s))"
  by (cases "map_of (things s) id_ms") (simp_all add: create_thing_def map_of_snoc del: map_of_append)

lemma create_thing_one:
  assumes "distinct (map fst (things s))"
  shows "filter (\<lambda>e. fst e = id_ms) (things (snd (create_thing id_ms c s)))
           = [(id_ms, fst (create_thing id_ms c s))]"
  using count_key_present [OF create_thing_distinct [OF assms] create_thing_registered] .

lemma create_location_again:
  "create_location thing_id s = Inr (l, s1) \<Longrightarrow> create_location thing_id s1 = Inr (l, s1)"
  by (cases "map_of (locations s) thing_id")
     (auto simp: create_location_def map_of_snoc simp del: map_of_append split: list.splits)

lemma create_observed_property_again:
  "create_observed_property p (snd (create_observed_property p s)) = create_observed_property p s"
  by (cases "map_of (observed_properties s) p")
     (simp_all add: create_observed_property_def map_of_snoc del: map_of_append)

lemma create_sensor_again:
  "create_sensor p (snd (create_sensor p s)) = create_sensor p s"
  by (cases "map_of (sensors s) p") (simp_all add: create_sensor_def map_of_snoc del: map_of_append)

lemma create_sensor_datastreams [simp]:
  "datastreams (snd (create_sensor p s)) = datastreams s"
  by (cases "map_of (sensors s) p") (simp_all add: create_sensor_def)

lemma create_observed_property_datastreams [simp]:
  "datastreams (snd (create_observed_property p s)) = datastreams s"
  by (cases "map_of (observed_properties s) p") (simp_all add: create_observed_property_def)

lemma create_datastream_registered:
  "map_of (datastreams (snd (create_datastream thing_id p s))) (thing_id @ ''_'' @ p)
     = Some (fst (create_datastream thing_id p s))"
  by (cases "map_of (datastreams s) (thing_id @ ''_'' @ p)")
     (simp_all add: create_datastream_def Let_def case_prod_beta map_of_snoc del: map_of_append)

lemma create_datastream_again:
  "create_datastream thing_id p (snd (create_datastream thing_id p s)) = create_datastream thing_id p s"
proof -
  obtain d s1 where r: "create_datastream thing_id p s = (d, s1)"
    by (cases "create_datastream thing_id p s")
  from create_datastream_registered [of thing_id p s] r
  have "map_of (datastreams s1) (thing_id @ ''_'' @ p) = Some d" by simp
  then have "create_datastream thing_id p s1 = (d, s1)"
    by (simp add: create_datastream_def)
  with r show ?thesis by simp
qed

lemma fv_create_thing_again:
  "fv_create_thing B i id_ms c2 (snd (fv_create_thing B i id_ms c1 s)) = fv_create_thing B i id_ms c1 s"
  by (cases "map_of (fv_things s) (thing_key_of B i id_ms)")
     (simp_all add: fv_create_thing_def map_of_snoc del: map_of_append)

lemma fv_create_location_again:
  "fv_create_location B i2 thing_id (fv_create_location B i1 thing_id s) = fv_create_location B i1 thing_id s"
  by (cases "map_of (fv_locations s) thing_id")
     (simp_all add: fv_create_location_def map_of_snoc del: map_of_append)

lemma fv_create_observed_property_again:
  "fv_create_observed_property p (snd (fv_create_observed_property p s)) = fv_create_observed_property p s"
  by (cases "map_of (fv_observed_properties s) p")
     (simp_all add: fv_create_observed_property_def map_of_snoc del: map_of_append)

lemma fv_create_sensor_again:
  "fv_create_sensor p (snd (fv_create_sensor p s)) = fv_create_sensor p s"
  by (cases "map_of (fv_sensors s) p") (simp_all add: fv_create_sensor_def map_of_snoc del: map_of_append)

lemma fv_create_datastream_again:
  "fv_create_datastream B i thing_id p x2 y2 (snd (fv_create_datastream B i thing_id p x1 y1 s))
     = fv_create_datastream B i thing_id p x1 y1 s"
  by (cases "map_of (fv_datastreams s) (datastream_key_of B i thing_id p)")
     (simp_all add: fv_create_datastream_def Let_def map_of_snoc del: map_of_append)

lemma entries_present:
  "distinct (map fst xs) \<Longrightarrow> map_of xs k = Some v \<Longrightarrow> entries k xs = [(k, v)]"
  unfolding entries_def by (rule count_key_present)

lemma entries_snoc_new:
  "map_of xs k = None \<Longrightarrow> entries k (xs @ [(k, v)]) = [(k, v)]"
  by (simp add: entries_def count_key_absent)

lemma py_split_nonempty: "py_split c s \<noteq> []"
  by (induction s) (auto split: list.splits)

lemma py_split_thing:
  "py_split CHR ''_'' (''thing_'' @ x) = ''thing'' # py_split CHR ''_'' x"
  by simp

lemma create_location_thing:
  "\<exists>l s1. create_location (''thing_'' @ x) s = Inr (l, s1)"
proof -
  obtain p ps where "py_split CHR ''_'' x = p # ps"
    using py_split_nonempty [of "CHR ''_''" x] by (cases "py_split CHR ''_'' x") auto
  then have "py_split CHR ''_'' (''thing_'' @ x) = ''thing'' # p # ps"
    by (simp only: py_split_thing)
  then show ?thesis
    unfolding create_location_def by (cases "map_of (locations s) (''thing_'' @ x)") simp_all
qed

lemma create_location_one:
  assumes "distinct (map fst (locations s))" and "create_location thing_id s = Inr (l, s1)"
  shows "entries thing_id (locations s1) = [(thing_id, l)]"
proof (cases "map_of (locations s) thing_id")
  case None
  with assms(2) show ?thesis
    by (auto simp: create_location_def entries_snoc_new split: list.splits)
next
  case (Some a)
  with assms show ?thesis
    by (auto simp: create_location_def entries_present)
qed

lemma create_observed_property_one:
  assumes "distinct (map fst (observed_properties s))"
  shows "entries p (observed_properties (snd (create_observed_property p s)))
           = [(p, fst (create_observed_property p s))]"
  using assms
  by (cases "map_of (observed_properties s) p")
     (simp_all add: create_observed_property_def entries_snoc_new entries_present)

lemma create_sensor_one:
  assumes "distinct (map fst (sensors s))"
  shows "entries p (sensors (snd (create_sensor p s))) = [(p, fst (create_sensor p s))]"
  using assms
  by (cases "map_of (sensors s) p")
     (simp_all add: create_sensor_def entries_snoc_new entries_present)

lemma create_datastream_one:
  assumes "distinct (map fst (datastreams s))"
  shows "entries (thing_id @ ''_'' @ p) (datastreams (snd (create_datastream thing_id p s)))
           = [(thing_id @ ''_'' @ p, fst (create_datastream thing_id p s))]"
  using assms
  by (cases "map_of (datastreams s) (thing_id @ ''_'' @ p)")
     (simp_all add: create_datastream_def Let_def case_prod_beta entries_snoc_new entries_present)

lemma fv_create_thing_one:
  assumes "distinct (map fst (fv_things s))"
  shows "entries (thing_key_of B i id_ms) (fv_things (snd (fv_create_thing B i id_ms c s)))
           = [(thing_key_of B i id_ms, fst (fv_create_thing B i id_ms c s))]"
  using assms
  by (cases "map_of (fv_things s) (thing_key_of B i id_ms)")
     (simp_all add: fv_create_thing_def entries_snoc_new entries_present)

lemma fv_create_location_one:
  assumes "distinct (map fst (fv_locations s))"
  shows "\<exists>l. entries thing_id (fv_locations (fv_create_location B i thing_id s)) = [(thing_id, l)]"
  using assms
  by (cases "map_of (fv_locations s) thing_id")
     (simp_all add: fv_create_location_def entries_snoc_new entries_present)

lemma fv_create_observed_property_one:
  assumes "distinct (map fst (fv_observed_properties s))"
  shows "entries p (fv_observed_properties (snd (fv_create_observed_property p s)))
           = [(p, fst (fv_create_observed_property p s))]"
  using assms
  by (cases "map_of (fv_observed_properties s) p")
     (simp_all add: fv_create_observed_property_def entries_snoc_new entries_present)

lemma fv_create_sensor_one:
  assumes "distinct (map fst (fv_sensors s))"
  shows "entries p (fv_sensors (snd (fv_create_sensor p s))) = [(p, fst (fv_create_sensor p s))]"
  using assms
  by (cases "map_of (fv_sensors s) p")
     (simp_all add: fv_create_sensor_def entries_snoc_new entries_present)

lemma fv_create_datastream_one:
  assumes "distinct (map fst (fv_datastreams s))"
  shows "entries (datastream_key_of B i thing_id p)
           (fv_datastreams (snd (fv_create_datastream B i thing_id p x y s)))
           = [(datastream_key_of B i thing_id p, fst (fv_create_datastream B i thing_id p x y s))]"
  using assms
  by (cases "map_of (fv_datastreams s) (datastream_key_of B i thing_id p)")
     (simp_all add: fv_create_datastream_def Let_def entries_snoc_new entries_present)

lemma create_thing_entries:
  assumes "distinct (map fst (things s))"
  shows "entries id_ms (things (snd (create_thing id_ms c s))) = [(id_ms, fst (create_thing id_ms c s))]"
  using create_thing_one [OF assms] by (simp add: entries_def)

section \<open>What the registrations change\<close>

lemma create_thing_state:
  "snd (create_thing k c s) =
     (if map_of (things s) k = None then s\<lparr>things := things s @ [(k, new_thing k c)]\<rparr> else s)"
  by (auto simp: create_thing_def split: option.splits)

lemma create_observed_property_state:
  "snd (create_observed_property p s) =
     (if map_of (observed_properties s) p = None
      then s\<lparr>observed_properties := observed_properties s @ [(p, new_observed_property p)]\<rparr>
      else s)"
  by (auto simp: create_observed_property_def split: option.splits)

lemma create_sensor_state:
  "snd (create_sensor p s) =
     (if map_of (sensors s) p = None
      then s\<lparr>sensors := sensors s @ [(p, new_sensor p)]\<rparr>
      else s)"
  by (auto simp: create_sensor_def split: option.splits)

lemma create_datastream_state:
  "snd (create_datastream t p s) =
     (if map_of (datastreams s) (t @ ''_'' @ p) = None
      then (snd (create_observed_property p (snd (create_sensor p s))))
             \<lparr>datastreams := datastreams s @ [(t @ ''_'' @ p, fst (create_datastream t p s))]\<rparr>
      else s)"
  by (auto simp: create_datastream_def Let_def case_prod_beta split: option.splits)

lemma create_location_state:
  assumes "create_location t s = Inr (l, s1)"
  shows "s1 = (if map_of (locations s) t = None
               then s\<lparr>locations := locations s @ [(t, l)]\<rparr> else s)"
  using assms by (auto simp: create_location_def split: option.splits list.splits)

lemma create_observation_state:
  "snd (create_observation d ts v s) =
     s\<lparr>observations := observations s @
        [\<lparr>phenomenonTime = ts, resultTime = ts, result = v\<rparr>]\<rparr>"
  by (simp add: create_observation_def Let_def)

lemma create_thing_ok: "entities_ok s \<Longrightarrow> entities_ok (snd (create_thing k c s))"
  by (simp add: create_thing_state entities_ok_def new_thing_def)

lemma create_observed_property_ok:
  "entities_ok s \<Longrightarrow> entities_ok (snd (create_observed_property p s))"
  by (simp add: create_observed_property_state entities_ok_def)

lemma create_sensor_ok: "entities_ok s \<Longrightarrow> entities_ok (snd (create_sensor p s))"
  by (simp add: create_sensor_state entities_ok_def)

lemma create_datastream_ok: "entities_ok s \<Longrightarrow> entities_ok (snd (create_datastream t p s))"
proof -
  assume "entities_ok s"
  then have "entities_ok (snd (create_observed_property p (snd (create_sensor p s))))"
    by (intro create_observed_property_ok create_sensor_ok)
  with \<open>entities_ok s\<close> show ?thesis
    by (simp add: create_datastream_state entities_ok_def)
qed

lemma create_location_ok:
  "entities_ok s \<Longrightarrow> create_location t s = Inr (l, s1) \<Longrightarrow> entities_ok s1"
  by (drule create_location_state) (auto simp: entities_ok_def split: if_splits)

lemma create_observation_ok: "entities_ok s \<Longrightarrow> entities_ok (snd (create_observation d ts v s))"
  by (simp add: create_observation_state entities_ok_def)

lemma create_thing_keys: "keys_distinct s \<Longrightarrow> keys_distinct (snd (create_thing k c s))"
  by (auto simp: create_thing_state keys_distinct_def dest: map_of_None_fresh)

lemma create_observed_property_keys:
  "keys_distinct s \<Longrightarrow> keys_distinct (snd (create_observed_property p s))"
  by (auto simp: create_observed_property_state keys_distinct_def dest: map_of_None_fresh)

lemma create_sensor_keys: "keys_distinct s \<Longrightarrow> keys_distinct (snd (create_sensor p s))"
  by (auto simp: create_sensor_state keys_distinct_def dest: map_of_None_fresh)

lemma create_datastream_keys:
  "keys_distinct s \<Longrightarrow> keys_distinct (snd (create_datastream t p s))"
proof -
  assume k: "keys_distinct s"
  then have "keys_distinct (snd (create_observed_property p (snd (create_sensor p s))))"
    by (intro create_observed_property_keys create_sensor_keys)
  with k show ?thesis
    by (auto simp: create_datastream_state keys_distinct_def dest: map_of_None_fresh)
qed

lemma create_location_keys:
  "keys_distinct s \<Longrightarrow> create_location t s = Inr (l, s1) \<Longrightarrow> keys_distinct s1"
  by (drule create_location_state)
     (auto simp: keys_distinct_def dest: map_of_None_fresh split: if_splits)

lemma create_observation_keys:
  "keys_distinct s \<Longrightarrow> keys_distinct (snd (create_observation d ts v s))"
  by (simp add: create_observation_state keys_distinct_def)

lemma create_thing_id:
  assumes "entities_ok s"
  shows "t_id (fst (create_thing k c s)) = ''thing_'' @ k"
proof (cases "map_of (things s) k")
  case None
  then show ?thesis by (simp add: create_thing_def new_thing_def)
next
  case (Some t)
  then have "(k, t) \<in> set (things s)" by (rule map_of_SomeD)
  with assms have "t_id t = ''thing_'' @ k"
    by (auto simp: entities_ok_def list_all_iff)
  with Some show ?thesis by (simp add: create_thing_def)
qed

lemma create_observed_property_value:
  assumes "entities_ok s"
  shows "fst (create_observed_property p s) = new_observed_property p"
proof (cases "map_of (observed_properties s) p")
  case None
  then show ?thesis by (simp add: create_observed_property_def)
next
  case (Some x)
  then have "(p, x) \<in> set (observed_properties s)" by (rule map_of_SomeD)
  with assms have "x = new_observed_property p"
    by (auto simp: entities_ok_def list_all_iff)
  with Some show ?thesis by (simp add: create_observed_property_def)
qed

lemma create_sensor_value:
  assumes "entities_ok s"
  shows "fst (create_sensor p s) = new_sensor p"
proof (cases "map_of (sensors s) p")
  case None
  then show ?thesis by (simp add: create_sensor_def)
next
  case (Some x)
  then have "(p, x) \<in> set (sensors s)" by (rule map_of_SomeD)
  with assms have "x = new_sensor p"
    by (auto simp: entities_ok_def list_all_iff)
  with Some show ?thesis by (simp add: create_sensor_def)
qed

lemma create_datastream_fresh:
  assumes "entities_ok s" and "map_of (datastreams s) (t @ ''_'' @ p) = None"
  shows "fst (create_datastream t p s)
           = new_datastream (t @ ''_'' @ p) t p (new_sensor p) (new_observed_property p)"
proof -
  have "fst (create_observed_property p (snd (create_sensor p s))) = new_observed_property p"
    by (intro create_observed_property_value create_sensor_ok assms(1))
  with assms create_sensor_value [OF assms(1), of p] show ?thesis
    by (simp add: create_datastream_def Let_def case_prod_beta)
qed

section \<open>The loops keep the stores well formed\<close>

lemma process_cell_cases:
  assumes "process_cell B tsc r tid ts column s = Inr s'"
  shows "s' = s \<or> (\<exists>d x. s' = snd (create_observation d ts x
                        (snd (create_datastream tid (measurement_type_of column) s))))"
  using assms
  by (auto simp: process_cell_def Let_def case_prod_beta split: if_splits sum.splits)

lemma process_cell_inv:
  assumes "process_cell B tsc r tid ts column s = Inr s'"
  shows "entities_ok s \<Longrightarrow> entities_ok s'" and "keys_distinct s \<Longrightarrow> keys_distinct s'"
  using process_cell_cases [OF assms]
  by (auto intro: create_observation_ok create_datastream_ok
                  create_observation_keys create_datastream_keys)

lemma process_row_inv:
  assumes "process_row B cat tsc columns r s = Inr s'"
  shows "entities_ok s \<Longrightarrow> entities_ok s'" and "keys_distinct s \<Longrightarrow> keys_distinct s'"
proof -
  from assms obtain idv l s2 where
    loc: "create_location (t_id (fst (create_thing (py_str B idv) cat s)))
            (snd (create_thing (py_str B idv) cat s)) = Inr (l, s2)"
    and rest: "s' = s2 \<or> for_each (process_cell B tsc r
                  (t_id (fst (create_thing (py_str B idv) cat s)))
                  (isoformat_if_timestamp (case getitem r tsc of Inr t \<Rightarrow> t | Inl e \<Rightarrow> NaN)))
                columns s2 = Inr s'"
    by (auto simp: process_row_def Let_def case_prod_beta split: sum.splits if_splits)
  {
    assume "entities_ok s"
    then have "entities_ok s2"
      using create_location_ok [OF create_thing_ok loc] by simp
    with rest show "entities_ok s'"
      by (auto elim: for_each_invariant [rotated 1] dest: process_cell_inv(1))
  }
  {
    assume "keys_distinct s"
    then have "keys_distinct s2"
      using create_location_keys [OF create_thing_keys loc] by simp
    with rest show "keys_distinct s'"
      by (auto elim: for_each_invariant [rotated 1] dest: process_cell_inv(2))
  }
qed

lemma process_sheet_inv:
  assumes "process_sheet B wb name s = Inr s'"
  shows "entities_ok s \<Longrightarrow> entities_ok s'" and "keys_distinct s \<Longrightarrow> keys_distinct s'"
proof -
  have rest: "s' = s \<or> (\<exists>df :: dataframe. for_each (process_row B (category_of name)
        (timestamp_column_of name) (df_columns df)) (df_rows df) s = Inr s')"
  proof (cases "name = LEGENDE")
    case True
    with assms show ?thesis by (simp add: process_sheet_def)
  next
    case False
    with assms obtain df :: dataframe where "for_each (process_row B (category_of name)
        (timestamp_column_of name) (df_columns df)) (df_rows df) s = Inr s'"
      by (cases "map_of wb name") (auto simp: process_sheet_def)
    then show ?thesis by blast
  qed
  {
    assume "entities_ok s"
    with rest show "entities_ok s'"
      by (auto elim: for_each_invariant [rotated 1] dest: process_row_inv(1))
  }
  {
    assume "keys_distinct s"
    with rest show "keys_distinct s'"
      by (auto elim: for_each_invariant [rotated 1] dest: process_row_inv(2))
  }
qed

lemma init_ok: "entities_ok init" "keys_distinct init"
  by (simp_all add: entities_ok_def keys_distinct_def init_def)

lemma process_sheets_inv:
  assumes "for_each (process_sheet B wb) names init = Inr s"
  shows "entities_ok s" and "keys_distinct s"
proof -
  show "entities_ok s"
    by (rule for_each_invariant [where P = entities_ok, OF _ init_ok(1) assms])
       (rule process_sheet_inv(1))
  show "keys_distinct s"
    by (rule for_each_invariant [where P = keys_distinct, OF _ init_ok(2) assms])
       (rule process_sheet_inv(2))
qed

section \<open>The same for the converter with the legend lookup\<close>

lemma fv_create_thing_state:
  "snd (fv_create_thing B i k c s) =
     (if map_of (fv_things s) (thing_key_of B i k) = None
      then s\<lparr>fv_things := fv_things s @ [(thing_key_of B i k, fv_new_thing B i k c)]\<rparr>
      else s)"
  by (auto simp: fv_create_thing_def Let_def split: option.splits)

lemma fv_create_location_state:
  "fv_create_location B i t s =
     (if map_of (fv_locations s) t = None
      then s\<lparr>fv_locations := fv_locations s @ [(t, fv_new_location B i t)]\<rparr>
      else s)"
  by (auto simp: fv_create_location_def split: option.splits)

lemma fv_create_observed_property_state:
  "snd (fv_create_observed_property p s) =
     (if map_of (fv_observed_properties s) p = None
      then s\<lparr>fv_observed_properties := fv_observed_properties s @ [(p, new_observed_property p)]\<rparr>
      else s)"
  by (auto simp: fv_create_observed_property_def split: option.splits)

lemma fv_create_sensor_state:
  "snd (fv_create_sensor p s) =
     (if map_of (fv_sensors s) p = None
      then s\<lparr>fv_sensors := fv_sensors s @ [(p, new_sensor p)]\<rparr>
      else s)"
  by (auto simp: fv_create_sensor_def split: option.splits)

lemma fv_create_datastream_state:
  "snd (fv_create_datastream B i t p x y s) =
     (if map_of (fv_datastreams s) (datastream_key_of B i t p) = None
      then s\<lparr>fv_datastreams := fv_datastreams s @
             [(datastream_key_of B i t p, fv_new_datastream B i (datastream_key_of B i t p) p x y)]\<rparr>
      else s)"
  by (auto simp: fv_create_datastream_def Let_def split: option.splits)

lemma fv_create_thing_ok: "fv_entities_ok s \<Longrightarrow> fv_entities_ok (snd (fv_create_thing B i k c s))"
  by (simp add: fv_create_thing_state fv_entities_ok_def fv_new_thing_def)

lemma fv_create_location_ok: "fv_entities_ok s \<Longrightarrow> fv_entities_ok (fv_create_location B i t s)"
  by (simp add: fv_create_location_state fv_entities_ok_def)

lemma fv_create_observed_property_ok:
  "fv_entities_ok s \<Longrightarrow> fv_entities_ok (snd (fv_create_observed_property p s))"
  by (simp add: fv_create_observed_property_state fv_entities_ok_def)

lemma fv_create_sensor_ok: "fv_entities_ok s \<Longrightarrow> fv_entities_ok (snd (fv_create_sensor p s))"
  by (simp add: fv_create_sensor_state fv_entities_ok_def)

lemma fv_create_datastream_ok:
  "fv_entities_ok s \<Longrightarrow> fv_entities_ok (snd (fv_create_datastream B i t p x y s))"
  by (simp add: fv_create_datastream_state fv_entities_ok_def)

lemma fv_observations_update_ok:
  "fv_entities_ok s \<Longrightarrow> fv_entities_ok (s\<lparr>fv_observations := os\<rparr>)"
  by (simp add: fv_entities_ok_def)

lemma fv_create_thing_keys:
  "fv_keys_distinct s \<Longrightarrow> fv_keys_distinct (snd (fv_create_thing B i k c s))"
  by (auto simp: fv_create_thing_state fv_keys_distinct_def dest: map_of_None_fresh)

lemma fv_create_location_keys:
  "fv_keys_distinct s \<Longrightarrow> fv_keys_distinct (fv_create_location B i t s)"
  by (auto simp: fv_create_location_state fv_keys_distinct_def dest: map_of_None_fresh)

lemma fv_create_observed_property_keys:
  "fv_keys_distinct s \<Longrightarrow> fv_keys_distinct (snd (fv_create_observed_property p s))"
  by (auto simp: fv_create_observed_property_state fv_keys_distinct_def dest: map_of_None_fresh)

lemma fv_create_sensor_keys:
  "fv_keys_distinct s \<Longrightarrow> fv_keys_distinct (snd (fv_create_sensor p s))"
  by (auto simp: fv_create_sensor_state fv_keys_distinct_def dest: map_of_None_fresh)

lemma fv_create_datastream_keys:
  "fv_keys_distinct s \<Longrightarrow> fv_keys_distinct (snd (fv_create_datastream B i t p x y s))"
  by (auto simp: fv_create_datastream_state fv_keys_distinct_def dest: map_of_None_fresh)

lemma fv_observations_update_keys:
  "fv_keys_distinct s \<Longrightarrow> fv_keys_distinct (s\<lparr>fv_observations := os\<rparr>)"
  by (simp add: fv_keys_distinct_def)

lemma fv_create_thing_id:
  assumes "fv_entities_ok s"
  shows "t_id (fst (fv_create_thing B i k c s)) = ''thing_'' @ thing_key_of B i k"
proof (cases "map_of (fv_things s) (thing_key_of B i k)")
  case None
  then show ?thesis by (simp add: fv_create_thing_def fv_new_thing_def Let_def)
next
  case (Some t)
  then have "(thing_key_of B i k, t) \<in> set (fv_things s)" by (rule map_of_SomeD)
  with assms have "t_id t = ''thing_'' @ thing_key_of B i k"
    by (auto simp: fv_entities_ok_def list_all_iff)
  with Some show ?thesis by (simp add: fv_create_thing_def Let_def)
qed

lemma fv_create_observed_property_value:
  assumes "fv_entities_ok s"
  shows "fst (fv_create_observed_property p s) = new_observed_property p"
proof (cases "map_of (fv_observed_properties s) p")
  case None
  then show ?thesis by (simp add: fv_create_observed_property_def)
next
  case (Some x)
  then have "(p, x) \<in> set (fv_observed_properties s)" by (rule map_of_SomeD)
  with assms have "x = new_observed_property p"
    by (auto simp: fv_entities_ok_def list_all_iff)
  with Some show ?thesis by (simp add: fv_create_observed_property_def)
qed

lemma fv_create_sensor_value:
  assumes "fv_entities_ok s"
  shows "fst (fv_create_sensor p s) = new_sensor p"
proof (cases "map_of (fv_sensors s) p")
  case None
  then show ?thesis by (simp add: fv_create_sensor_def)
next
  case (Some x)
  then have "(p, x) \<in> set (fv_sensors s)" by (rule map_of_SomeD)
  with assms have "x = new_sensor p"
    by (auto simp: fv_entities_ok_def list_all_iff)
  with Some show ?thesis by (simp add: fv_create_sensor_def)
qed

lemma fv_registered_inv:
  shows "fv_entities_ok s \<Longrightarrow> fv_entities_ok (fv_registered B i tid mt s)"
    and "fv_keys_distinct s \<Longrightarrow> fv_keys_distinct (fv_registered B i tid mt s)"
  unfolding fv_registered_def
  by (intro fv_create_datastream_ok fv_create_sensor_ok fv_create_observed_property_ok
        fv_create_datastream_keys fv_create_sensor_keys fv_create_observed_property_keys;
      assumption)+

lemma fv_process_cell_cases:
  assumes "fv_process_cell B i tsc r tid ts column s = Inr s'"
  shows "s' = s \<or> (\<exists>os. s' = (fv_registered B i tid (measurement_type_of column) s)
                                 \<lparr>fv_observations := os\<rparr>)"
  using assms
  by (auto simp: fv_process_cell_def fv_registered_def Let_def case_prod_beta
      split: if_splits sum.splits)

lemma fv_process_cell_inv:
  assumes "fv_process_cell B i tsc r tid ts column s = Inr s'"
  shows "fv_entities_ok s \<Longrightarrow> fv_entities_ok s'" and "fv_keys_distinct s \<Longrightarrow> fv_keys_distinct s'"
  using fv_process_cell_cases [OF assms]
  by (auto intro: fv_observations_update_ok fv_observations_update_keys fv_registered_inv)

lemma fv_process_row_inv:
  assumes "fv_process_row B m cat tsc columns r s = Inr s'"
  shows "fv_entities_ok s \<Longrightarrow> fv_entities_ok s'" and "fv_keys_distinct s \<Longrightarrow> fv_keys_distinct s'"
proof -
  from assms obtain idv where
    rest: "s' = fv_create_location B (hms_info_of m (py_str B idv))
                  (t_id (fst (fv_create_thing B (hms_info_of m (py_str B idv)) (py_str B idv) cat s)))
                  (snd (fv_create_thing B (hms_info_of m (py_str B idv)) (py_str B idv) cat s))
           \<or> (\<exists>ts. for_each (fv_process_cell B (hms_info_of m (py_str B idv)) tsc r
                  (t_id (fst (fv_create_thing B (hms_info_of m (py_str B idv)) (py_str B idv) cat s)))
                  ts)
                columns
                (fv_create_location B (hms_info_of m (py_str B idv))
                  (t_id (fst (fv_create_thing B (hms_info_of m (py_str B idv)) (py_str B idv) cat s)))
                  (snd (fv_create_thing B (hms_info_of m (py_str B idv)) (py_str B idv) cat s)))
                = Inr s')"
    by (auto simp: fv_process_row_def Let_def case_prod_beta split: sum.splits if_splits)
  {
    assume "fv_entities_ok s"
    then have "fv_entities_ok (fv_create_location B (hms_info_of m (py_str B idv))
                  (t_id (fst (fv_create_thing B (hms_info_of m (py_str B idv)) (py_str B idv) cat s)))
                  (snd (fv_create_thing B (hms_info_of m (py_str B idv)) (py_str B idv) cat s)))"
      by (intro fv_create_location_ok fv_create_thing_ok)
    with rest show "fv_entities_ok s'"
      by (auto elim: for_each_invariant [rotated 1] dest: fv_process_cell_inv(1))
  }
  {
    assume "fv_keys_distinct s"
    then have "fv_keys_distinct (fv_create_location B (hms_info_of m (py_str B idv))
                  (t_id (fst (fv_create_thing B (hms_info_of m (py_str B idv)) (py_str B idv) cat s)))
                  (snd (fv_create_thing B (hms_info_of m (py_str B idv)) (py_str B idv) cat s)))"
      by (intro fv_create_location_keys fv_create_thing_keys)
    with rest show "fv_keys_distinct s'"
      by (auto elim: for_each_invariant [rotated 1] dest: fv_process_cell_inv(2))
  }
qed

lemma fv_process_sheet_inv:
  assumes "fv_process_sheet B m sheet s = Inr s'"
  shows "fv_entities_ok s \<Longrightarrow> fv_entities_ok s'" and "fv_keys_distinct s \<Longrightarrow> fv_keys_distinct s'"
proof -
  from assms have rest: "s' = s \<or> for_each (fv_process_row B m (category_of (fst sheet))
        (timestamp_column_of (fst sheet)) (df_columns (snd sheet))) (df_rows (snd sheet)) s = Inr s'"
    by (auto simp: fv_process_sheet_def Let_def split: if_splits)
  {
    assume "fv_entities_ok s"
    with rest show "fv_entities_ok s'"
      by (auto elim: for_each_invariant [rotated 1] dest: fv_process_row_inv(1))
  }
  {
    assume "fv_keys_distinct s"
    with rest show "fv_keys_distinct s'"
      by (auto elim: for_each_invariant [rotated 1] dest: fv_process_row_inv(2))
  }
qed

lemma fv_init_ok: "fv_entities_ok fv_init" "fv_keys_distinct fv_init"
  by (simp_all add: fv_entities_ok_def fv_keys_distinct_def fv_init_def)

lemma fv_process_sheets_inv:
  assumes "for_each (fv_process_sheet B m) sheets fv_init = Inr s"
  shows "fv_entities_ok s" and "fv_keys_distinct s"
proof -
  show "fv_entities_ok s"
    by (rule for_each_invariant [where P = fv_entities_ok, OF _ fv_init_ok(1) assms])
       (rule fv_process_sheet_inv(1))
  show "fv_keys_distinct s"
    by (rule for_each_invariant [where P = fv_keys_distinct, OF _ fv_init_ok(2) assms])
       (rule fv_process_sheet_inv(2))
qed

section \<open>Rows without an identifier\<close>

lemma getitem_shadow:
  "column \<noteq> k \<Longrightarrow> getitem ((k, v) # r) column = getitem r column"
  by (simp add: getitem_def)

lemma for_each_cong_set:
  assumes "\<And>x s. x \<in> set xs \<Longrightarrow> f x s = g x s"
  shows "for_each f xs s = for_each g xs s"
  using assms by (induction xs arbitrary: s) (auto split: sum.splits)

lemma process_cell_shadow_id:
  "process_cell B tsc ((id_column, v) # r) tid ts column s = process_cell B tsc r tid ts column s"
proof (cases "column = id_column")
  case True
  then show ?thesis by (simp add: process_cell_def skipped_column_def)
next
  case False
  then show ?thesis by (simp add: process_cell_def getitem_shadow)
qed

lemma fv_process_cell_shadow_id:
  "fv_process_cell B i tsc ((id_column, v) # r) tid ts column s
     = fv_process_cell B i tsc r tid ts column s"
proof (cases "column = id_column")
  case True
  then show ?thesis by (simp add: fv_process_cell_def skipped_column_def)
next
  case False
  then show ?thesis by (simp add: fv_process_cell_def getitem_shadow)
qed

lemma process_row_missing_identifier:
  assumes "getitem r id_column = Inr NaN" and "tsc \<noteq> id_column"
  shows "process_row B cat tsc cols r s = process_row B cat tsc cols ((id_column, Text ''nan'') # r) s"
proof -
  have c: "\<And>tid ts. for_each (process_cell B tsc ((id_column, Text ''nan'') # r) tid ts) cols
      = for_each (process_cell B tsc r tid ts) cols"
    by (intro ext for_each_cong_set process_cell_shadow_id)
  have g: "getitem ((id_column, Text ''nan'') # r) id_column = Inr (Text ''nan'')"
    by (simp add: getitem_def)
  show ?thesis
    unfolding process_row_def c g getitem_shadow [OF assms(2)] assms(1) by simp
qed

lemma fv_process_row_missing_identifier:
  assumes "getitem r id_column = Inr NaN" and "tsc \<noteq> id_column"
  shows "fv_process_row B m cat tsc cols r s
           = fv_process_row B m cat tsc cols ((id_column, Text ''nan'') # r) s"
proof -
  have c: "\<And>i tid ts. for_each (fv_process_cell B i tsc ((id_column, Text ''nan'') # r) tid ts) cols
      = for_each (fv_process_cell B i tsc r tid ts) cols"
    by (intro ext for_each_cong_set fv_process_cell_shadow_id)
  have g: "getitem ((id_column, Text ''nan'') # r) id_column = Inr (Text ''nan'')"
    by (simp add: getitem_def)
  show ?thesis
    unfolding fv_process_row_def c g getitem_shadow [OF assms(2)] assms(1) by simp
qed

lemma timestamp_column_not_id: "timestamp_column_of name \<noteq> id_column"
  by (simp add: timestamp_column_of_def id_column_def)

section \<open>What a row registers stays, and is in the document\<close>

lemma map_of_prefix:
  assumes "prefix xs ys" and "map_of xs k = Some v"
  shows "map_of ys k = Some v"
proof -
  from assms(1) obtain zs where "ys = xs @ zs" by (auto simp: prefix_def)
  with assms(2) show ?thesis by (simp add: map_add_def)
qed

lemma for_each_chain:
  assumes step: "\<And>y a b. P a \<Longrightarrow> f y a = Inr b \<Longrightarrow> P b \<and> R a b"
    and refl: "\<And>a. R a a" and trans: "\<And>a b c. R a b \<Longrightarrow> R b c \<Longrightarrow> R a c"
    and "P s" and "for_each f xs s = Inr s'"
  shows "P s' \<and> R s s'"
  using assms(4,5)
proof (induction xs arbitrary: s)
  case Nil
  then show ?case by (simp add: refl)
next
  case (Cons y ys)
  from Cons.prems(2) obtain s1 where y: "f y s = Inr s1" and r: "for_each f ys s1 = Inr s'"
    by (auto split: sum.splits)
  from step [OF Cons.prems(1) y] have 1: "P s1" "R s s1" by simp_all
  from Cons.IH [OF 1(1) r] 1(2) show ?case
    using trans by blast
qed

lemma for_each_visits:
  assumes step: "\<And>y a b. P a \<Longrightarrow> f y a = Inr b \<Longrightarrow> P b \<and> R a b"
    and refl: "\<And>a. R a a" and trans: "\<And>a b c. R a b \<Longrightarrow> R b c \<Longrightarrow> R a c"
    and "P s" and "for_each f xs s = Inr s'" and "x \<in> set xs"
  shows "\<exists>a b. P a \<and> f x a = Inr b \<and> R b s'"
  using assms(4,5,6)
proof (induction xs arbitrary: s)
  case Nil
  then show ?case by simp
next
  case (Cons y ys)
  from Cons.prems(2) obtain s1 where y: "f y s = Inr s1" and r: "for_each f ys s1 = Inr s'"
    by (auto split: sum.splits)
  from step [OF Cons.prems(1) y] have 1: "P s1" by simp
  show ?case
  proof (cases "x = y")
    case True
    have "P s' \<and> R s1 s'"
    proof (rule for_each_chain [where P = P and R = R])
      show "for_each f ys s1 = Inr s'" by (rule r)
      show "P s1" by (rule 1)
    qed (use step refl trans in blast)+
    then have "R s1 s'" by simp
    with True y Cons.prems(1) show ?thesis by blast
  next
    case False
    with Cons.prems(3) have "x \<in> set ys" by simp
    from Cons.IH [OF 1 r this] show ?thesis by blast
  qed
qed

lemma extends_refl: "extends s s"
  by (simp add: extends_def)

lemma extends_trans: "extends s1 s2 \<Longrightarrow> extends s2 s3 \<Longrightarrow> extends s1 s3"
  by (auto simp: extends_def)

lemma fv_extends_refl: "fv_extends s s"
  by (simp add: fv_extends_def)

lemma fv_extends_trans: "fv_extends s1 s2 \<Longrightarrow> fv_extends s2 s3 \<Longrightarrow> fv_extends s1 s3"
  by (auto simp: fv_extends_def)

lemma create_location_thing_value:
  "create_location (''thing_'' @ x) s =
     Inr (case map_of (locations s) (''thing_'' @ x) of
            None \<Rightarrow> new_location (''thing_'' @ x) (hd (py_split CHR ''_'' x))
          | Some l \<Rightarrow> l,
          if map_of (locations s) (''thing_'' @ x) = None
          then s\<lparr>locations := locations s @
                  [(''thing_'' @ x, new_location (''thing_'' @ x) (hd (py_split CHR ''_'' x)))]\<rparr>
          else s)"
proof -
  obtain p ps where "py_split CHR ''_'' x = p # ps"
    using py_split_nonempty [of "CHR ''_''" x] by (cases "py_split CHR ''_'' x") auto
  then have "py_split CHR ''_'' (''thing_'' @ x) = ''thing'' # p # ps"
    and "hd (py_split CHR ''_'' x) = p"
    by (simp_all only: py_split_thing list.sel)
  then show ?thesis
    unfolding create_location_def by (cases "map_of (locations s) (''thing_'' @ x)") simp_all
qed

lemma second_piece: "py_split CHR ''_'' (''thing_'' @ x) ! Suc 0 = hd (py_split CHR ''_'' x)"
proof -
  obtain p ps where "py_split CHR ''_'' x = p # ps"
    using py_split_nonempty [of "CHR ''_''" x] by (cases "py_split CHR ''_'' x") auto
  then show ?thesis by (simp only: py_split_thing nth_Cons_Suc nth_Cons_0 list.sel)
qed

lemma process_cell_stations:
  assumes "process_cell B tsc r tid ts column s = Inr s'"
  shows "things s' = things s \<and> locations s' = locations s"
  using process_cell_cases [OF assms]
  by (auto simp: create_observation_state create_datastream_state create_sensor_state
        create_observed_property_state)

lemma process_cells_stations:
  assumes "for_each (process_cell B tsc r tid ts) columns s = Inr s'"
  shows "things s' = things s \<and> locations s' = locations s"
  by (rule for_each_invariant
        [where P = "\<lambda>x. things x = things s \<and> locations x = locations s", OF _ _ assms])
     (auto dest: process_cell_stations)

lemma process_row_stations:
  assumes ok: "entities_ok s" and run: "process_row B cat tsc columns r s = Inr s'"
  shows "\<exists>idv. getitem r id_column = Inr idv
      \<and> things s' = (if map_of (things s) (py_str B idv) = None
                      then things s @ [(py_str B idv, new_thing (py_str B idv) cat)]
                      else things s)
      \<and> locations s' =
          (if map_of (locations s) (''thing_'' @ py_str B idv) = None
           then locations s @
                  [(''thing_'' @ py_str B idv,
                    new_location (''thing_'' @ py_str B idv)
                      (hd (py_split CHR ''_'' (py_str B idv))))]
           else locations s)"
proof -
  from run obtain idv where idc: "getitem r id_column = Inr idv"
    by (auto simp: process_row_def split: sum.splits)
  let ?k = "py_str B idv"
  let ?s1 = "snd (create_thing ?k cat s)"
  let ?s2 = "if map_of (locations ?s1) (''thing_'' @ ?k) = None
             then ?s1\<lparr>locations := locations ?s1 @
                  [(''thing_'' @ ?k, new_location (''thing_'' @ ?k) (hd (py_split CHR ''_'' ?k)))]\<rparr>
             else ?s1"
  have tid: "t_id (fst (create_thing ?k cat s)) = ''thing_'' @ ?k"
    by (rule create_thing_id [OF ok])
  from run have "(case getitem r tsc of
           Inl e \<Rightarrow> Inl e
         | Inr ts \<Rightarrow>
             if isna ts then Inr ?s2
             else for_each (process_cell B tsc r (''thing_'' @ ?k) (isoformat_if_timestamp ts))
                    columns ?s2) = Inr s'"
    unfolding process_row_def idc sum.case Let_def case_prod_beta tid
      create_location_thing_value fst_conv snd_conv .
  then have "s' = ?s2 \<or> (\<exists>ts. for_each (process_cell B tsc r (''thing_'' @ ?k) ts)
        columns ?s2 = Inr s')"
    by (cases "getitem r tsc") (auto split: if_splits)
  then have "things s' = things ?s2 \<and> locations s' = locations ?s2"
    by (auto dest: process_cells_stations)
  then have "things s' = (if map_of (things s) ?k = None
                      then things s @ [(?k, new_thing ?k cat)] else things s)"
    and "locations s' =
          (if map_of (locations s) (''thing_'' @ ?k) = None
           then locations s @
                  [(''thing_'' @ ?k, new_location (''thing_'' @ ?k) (hd (py_split CHR ''_'' ?k)))]
           else locations s)"
    by (simp_all add: create_thing_state)
  with idc show ?thesis by blast
qed

lemma process_row_step:
  assumes P: "entities_ok a \<and> locations_ok a" and run: "process_row B cat tsc columns r a = Inr b"
  shows "(entities_ok b \<and> locations_ok b) \<and> extends a b"
proof -
  from P have ok: "entities_ok a" and lok: "locations_ok a" by simp_all
  from process_row_stations [OF ok run] obtain idv where
    t: "things b = (if map_of (things a) (py_str B idv) = None
                    then things a @ [(py_str B idv, new_thing (py_str B idv) cat)]
                    else things a)"
    and l: "locations b =
          (if map_of (locations a) (''thing_'' @ py_str B idv) = None
           then locations a @
                  [(''thing_'' @ py_str B idv,
                    new_location (''thing_'' @ py_str B idv)
                      (hd (py_split CHR ''_'' (py_str B idv))))]
           else locations a)"
    by blast
  have "entities_ok b" by (rule process_row_inv(1) [OF run ok])
  moreover have "new_location (''thing_'' @ py_str B idv) (hd (py_split CHR ''_'' (py_str B idv)))
      = new_location (''thing_'' @ py_str B idv)
          (py_split CHR ''_'' (''thing_'' @ py_str B idv) ! Suc 0)"
    by (simp only: second_piece)
  then have "locations_ok b"
    using lok by (simp add: locations_ok_def l del: py_split.simps)
  moreover have "extends a b"
    unfolding extends_def t l by simp
  ultimately show ?thesis by simp
qed

lemma process_row_registers:
  assumes P: "entities_ok a \<and> locations_ok a" and run: "process_row B cat tsc columns r a = Inr b"
    and idc: "getitem r id_column = Inr idv"
  shows "\<exists>t. map_of (things b) (py_str B idv) = Some t \<and> t_id t = ''thing_'' @ py_str B idv
      \<and> map_of (locations b) (''thing_'' @ py_str B idv)
          = Some (new_location (''thing_'' @ py_str B idv) (hd (py_split CHR ''_'' (py_str B idv))))"
proof -
  let ?k = "py_str B idv"
  let ?tid = "''thing_'' @ ?k"
  from P have ok: "entities_ok a" by simp
  from process_row_step [OF P run] have okb: "entities_ok b" and lokb: "locations_ok b"
    by simp_all
  from process_row_stations [OF ok run] idc have
    t: "things b = (if map_of (things a) ?k = None
                    then things a @ [(?k, new_thing ?k cat)] else things a)"
    and l: "locations b =
          (if map_of (locations a) ?tid = None
           then locations a @ [(?tid, new_location ?tid (hd (py_split CHR ''_'' ?k)))]
           else locations a)"
    by auto
  have "map_of (things b) ?k \<noteq> None"
    unfolding t by (simp add: map_of_snoc del: map_of_append)
  then obtain t where t': "map_of (things b) ?k = Some t" by blast
  then have "(?k, t) \<in> set (things b)" by (rule map_of_SomeD)
  with okb have tid: "t_id t = ?tid"
    by (auto simp: entities_ok_def list_all_iff)
  have "map_of (locations b) ?tid \<noteq> None"
    unfolding l by (simp add: map_of_snoc del: map_of_append)
  then obtain x where x: "map_of (locations b) ?tid = Some x" by blast
  then have "(?tid, x) \<in> set (locations b)" by (rule map_of_SomeD)
  with lokb have "x = new_location ?tid (py_split CHR ''_'' ?tid ! Suc 0)"
    by (auto simp: locations_ok_def list_all_iff simp del: py_split.simps)
  then have "x = new_location ?tid (hd (py_split CHR ''_'' ?k))"
    by (simp only: second_piece)
  with t' tid x show ?thesis by blast
qed

lemma process_sheet_rows:
  assumes "process_sheet B wb name s = Inr s'"
  shows "s' = s \<or> (\<exists>df :: dataframe. for_each (process_row B (category_of name)
        (timestamp_column_of name) (df_columns df)) (df_rows df) s = Inr s')"
proof (cases "name = LEGENDE")
  case True
  with assms show ?thesis by (simp add: process_sheet_def)
next
  case False
  with assms obtain df :: dataframe where "for_each (process_row B (category_of name)
      (timestamp_column_of name) (df_columns df)) (df_rows df) s = Inr s'"
    by (cases "map_of wb name") (auto simp: process_sheet_def)
  then show ?thesis by blast
qed

lemma process_sheet_step:
  assumes P: "entities_ok a \<and> locations_ok a" and run: "process_sheet B wb name a = Inr b"
  shows "(entities_ok b \<and> locations_ok b) \<and> extends a b"
proof -
  from process_sheet_rows [OF run] show ?thesis
  proof
    assume "b = a"
    with P show ?thesis by (simp add: extends_refl)
  next
    assume "\<exists>df :: dataframe. for_each (process_row B (category_of name)
        (timestamp_column_of name) (df_columns df)) (df_rows df) a = Inr b"
    then obtain df :: dataframe where rows: "for_each (process_row B (category_of name)
        (timestamp_column_of name) (df_columns df)) (df_rows df) a = Inr b"
      by blast
    show ?thesis
    proof (rule for_each_chain [where P = "\<lambda>s. entities_ok s \<and> locations_ok s" and R = extends])
      show "for_each (process_row B (category_of name) (timestamp_column_of name) (df_columns df))
              (df_rows df) a = Inr b"
        by (rule rows)
      show "entities_ok a \<and> locations_ok a" by (rule P)
    qed (use process_row_step extends_refl extends_trans in blast)+
  qed
qed

lemma init_locations_ok: "locations_ok init"
  by (simp add: locations_ok_def init_def)

lemma thing_with_relations_fields:
  shows "t_id (thing_with_relations s t) = t_id t"
    and "map_of (locations s) (t_id t) = Some l
          \<Longrightarrow> t_Locations (thing_with_relations s t) = Some [l]"
  by (simp_all add: thing_with_relations_def Let_def split: option.splits)

lemma transform_station:
  assumes run: "transform B wb = Inr d" and df: "map_of wb name = Some df"
    and name: "name \<noteq> LEGENDE" and r: "r \<in> set (df_rows df)"
    and idc: "getitem r id_column = Inr idv"
  shows "\<exists>t \<in> set (Things d). t_id t = ''thing_'' @ py_str B idv
      \<and> t_Locations t
          = Some [new_location (''thing_'' @ py_str B idv) (hd (py_split CHR ''_'' (py_str B idv)))]"
proof -
  let ?k = "py_str B idv"
  let ?tid = "''thing_'' @ ?k"
  let ?l = "new_location ?tid (hd (py_split CHR ''_'' ?k))"
  let ?P = "\<lambda>s. entities_ok s \<and> locations_ok s"
  from run obtain s where sheets: "for_each (process_sheet B wb) (map fst wb) init = Inr s"
    and d: "d = construct_nested_structure s"
    by (auto simp: transform_def split: sum.splits)
  from df have "(name, df) \<in> set wb" by (rule map_of_SomeD)
  then have "name \<in> set (map fst wb)" by force
  have "\<exists>a b. ?P a \<and> process_sheet B wb name a = Inr b \<and> extends b s"
  proof (rule for_each_visits [where P = ?P and R = extends])
    show "for_each (process_sheet B wb) (map fst wb) init = Inr s" by (rule sheets)
    show "?P init" by (simp add: init_ok init_locations_ok)
    show "name \<in> set (map fst wb)" by fact
  qed (use process_sheet_step extends_refl extends_trans in blast)+
  then obtain a b where a: "?P a" and sheet: "process_sheet B wb name a = Inr b"
    and b: "extends b s"
    by blast
  from sheet name df have rows: "for_each (process_row B (category_of name)
        (timestamp_column_of name) (df_columns df)) (df_rows df) a = Inr b"
    by (simp add: process_sheet_def)
  have "\<exists>a' b'. ?P a' \<and> process_row B (category_of name) (timestamp_column_of name)
          (df_columns df) r a' = Inr b' \<and> extends b' b"
  proof (rule for_each_visits [where P = ?P and R = extends])
    show "for_each (process_row B (category_of name) (timestamp_column_of name) (df_columns df))
            (df_rows df) a = Inr b"
      by (rule rows)
    show "?P a" by (rule a)
    show "r \<in> set (df_rows df)" by (rule r)
  qed (use process_row_step extends_refl extends_trans in blast)+
  then obtain a' b' where a': "?P a'"
    and row: "process_row B (category_of name) (timestamp_column_of name) (df_columns df) r a'
        = Inr b'"
    and b': "extends b' b"
    by blast
  from process_row_registers [OF a' row idc] obtain t where
    t: "map_of (things b') ?k = Some t" and tid: "t_id t = ?tid"
    and l: "map_of (locations b') ?tid = Some ?l"
    by blast
  from b' b have e: "extends b' s" by (rule extends_trans)
  from e t have "map_of (things s) ?k = Some t"
    by (auto simp: extends_def intro: map_of_prefix)
  then have mem: "(?k, t) \<in> set (things s)" by (rule map_of_SomeD)
  from e l have "map_of (locations s) ?tid = Some ?l"
    by (auto simp: extends_def intro: map_of_prefix)
  then have "t_Locations (thing_with_relations s t) = Some [?l]"
    using thing_with_relations_fields(2) [of s t ?l] by (simp only: tid)
  moreover have "t_id (thing_with_relations s t) = ?tid"
    by (simp only: thing_with_relations_fields(1) tid)
  moreover from mem have "thing_with_relations s t \<in> set (Things d)"
    by (force simp: d construct_nested_structure_def)
  ultimately show ?thesis by blast
qed

section \<open>The same for the converter with the legend lookup\<close>

lemma fv_process_cell_stations:
  assumes "fv_process_cell B i tsc r tid ts column s = Inr s'"
  shows "fv_things s' = fv_things s \<and> fv_locations s' = fv_locations s"
  using fv_process_cell_cases [OF assms]
  by (auto simp: fv_registered_def fv_create_datastream_state fv_create_sensor_state
        fv_create_observed_property_state)

lemma fv_process_cells_stations:
  assumes "for_each (fv_process_cell B i tsc r tid ts) columns s = Inr s'"
  shows "fv_things s' = fv_things s \<and> fv_locations s' = fv_locations s"
  by (rule for_each_invariant
        [where P = "\<lambda>x. fv_things x = fv_things s \<and> fv_locations x = fv_locations s",
         OF _ _ assms])
     (auto dest: fv_process_cell_stations)

lemma fv_process_row_stations:
  assumes ok: "fv_entities_ok s" and run: "fv_process_row B m cat tsc columns r s = Inr s'"
  shows "\<exists>idv. getitem r id_column = Inr idv
      \<and> fv_things s' =
          (if map_of (fv_things s) (thing_key_of B (hms_info_of m (py_str B idv)) (py_str B idv))
                = None
           then fv_things s @
              [(thing_key_of B (hms_info_of m (py_str B idv)) (py_str B idv),
                fv_new_thing B (hms_info_of m (py_str B idv)) (py_str B idv) cat)]
           else fv_things s)
      \<and> fv_locations s' =
          (if map_of (fv_locations s)
                (''thing_'' @ thing_key_of B (hms_info_of m (py_str B idv)) (py_str B idv)) = None
           then fv_locations s @
              [(''thing_'' @ thing_key_of B (hms_info_of m (py_str B idv)) (py_str B idv),
                fv_new_location B (hms_info_of m (py_str B idv))
                  (''thing_'' @ thing_key_of B (hms_info_of m (py_str B idv)) (py_str B idv)))]
           else fv_locations s)"
proof -
  from run obtain idv where idc: "getitem r id_column = Inr idv"
    by (auto simp: fv_process_row_def split: sum.splits)
  let ?k = "py_str B idv"
  let ?i = "hms_info_of m ?k"
  let ?tid = "''thing_'' @ thing_key_of B ?i ?k"
  let ?s1 = "snd (fv_create_thing B ?i ?k cat s)"
  let ?s2 = "fv_create_location B ?i ?tid ?s1"
  have tid: "t_id (fst (fv_create_thing B ?i ?k cat s)) = ?tid"
    by (rule fv_create_thing_id [OF ok])
  from run have "(case getitem r tsc of
           Inl e \<Rightarrow> Inl e
         | Inr ts \<Rightarrow>
             if isna ts then Inr ?s2
             else for_each (fv_process_cell B ?i tsc r ?tid (isoformat_if_timestamp ts))
                    columns ?s2) = Inr s'"
    unfolding fv_process_row_def idc sum.case Let_def case_prod_beta tid .
  then have "s' = ?s2 \<or> (\<exists>ts. for_each (fv_process_cell B ?i tsc r ?tid ts) columns ?s2 = Inr s')"
    by (cases "getitem r tsc") (auto split: if_splits)
  then have "fv_things s' = fv_things ?s2 \<and> fv_locations s' = fv_locations ?s2"
    by (auto dest: fv_process_cells_stations)
  then have "fv_things s' =
          (if map_of (fv_things s) (thing_key_of B ?i ?k) = None
           then fv_things s @ [(thing_key_of B ?i ?k, fv_new_thing B ?i ?k cat)]
           else fv_things s)"
    and "fv_locations s' =
          (if map_of (fv_locations s) ?tid = None
           then fv_locations s @ [(?tid, fv_new_location B ?i ?tid)]
           else fv_locations s)"
    by (simp_all add: fv_create_location_state fv_create_thing_state)
  with idc show ?thesis by blast
qed

lemma fv_process_row_step:
  assumes P: "fv_entities_ok a \<and> fv_locations_ok a"
    and run: "fv_process_row B m cat tsc columns r a = Inr b"
  shows "(fv_entities_ok b \<and> fv_locations_ok b) \<and> fv_extends a b"
proof -
  from P have ok: "fv_entities_ok a" and lok: "fv_locations_ok a" by simp_all
  from fv_process_row_stations [OF ok run] obtain idv where
    t: "fv_things b =
          (if map_of (fv_things a) (thing_key_of B (hms_info_of m (py_str B idv)) (py_str B idv))
                = None
           then fv_things a @
              [(thing_key_of B (hms_info_of m (py_str B idv)) (py_str B idv),
                fv_new_thing B (hms_info_of m (py_str B idv)) (py_str B idv) cat)]
           else fv_things a)"
    and l: "fv_locations b =
          (if map_of (fv_locations a)
                (''thing_'' @ thing_key_of B (hms_info_of m (py_str B idv)) (py_str B idv)) = None
           then fv_locations a @
              [(''thing_'' @ thing_key_of B (hms_info_of m (py_str B idv)) (py_str B idv),
                fv_new_location B (hms_info_of m (py_str B idv))
                  (''thing_'' @ thing_key_of B (hms_info_of m (py_str B idv)) (py_str B idv)))]
           else fv_locations a)"
    by blast
  have "fv_entities_ok b" by (rule fv_process_row_inv(1) [OF run ok])
  moreover have "fv_locations_ok b"
    using lok by (simp add: fv_locations_ok_def l fv_new_location_def del: remove_all.simps)
  moreover have "fv_extends a b"
    unfolding fv_extends_def t l by simp
  ultimately show ?thesis by simp
qed

lemma fv_process_row_registers:
  assumes P: "fv_entities_ok a \<and> fv_locations_ok a"
    and run: "fv_process_row B m cat tsc columns r a = Inr b"
    and idc: "getitem r id_column = Inr idv"
  shows "\<exists>t l. map_of (fv_things b) (thing_key_of B (hms_info_of m (py_str B idv)) (py_str B idv))
          = Some t
      \<and> t_id t = ''thing_'' @ thing_key_of B (hms_info_of m (py_str B idv)) (py_str B idv)
      \<and> map_of (fv_locations b)
          (''thing_'' @ thing_key_of B (hms_info_of m (py_str B idv)) (py_str B idv)) = Some l
      \<and> l_id l = ''location_'' @ remove_all ''thing_''
           (''thing_'' @ thing_key_of B (hms_info_of m (py_str B idv)) (py_str B idv))"
proof -
  let ?k = "thing_key_of B (hms_info_of m (py_str B idv)) (py_str B idv)"
  let ?tid = "''thing_'' @ ?k"
  from P have ok: "fv_entities_ok a" by simp
  from fv_process_row_step [OF P run] have okb: "fv_entities_ok b" and lokb: "fv_locations_ok b"
    by simp_all
  from fv_process_row_stations [OF ok run] idc have
    t: "fv_things b =
          (if map_of (fv_things a) ?k = None
           then fv_things a @ [(?k, fv_new_thing B (hms_info_of m (py_str B idv)) (py_str B idv) cat)]
           else fv_things a)"
    and l: "fv_locations b =
          (if map_of (fv_locations a) ?tid = None
           then fv_locations a @ [(?tid, fv_new_location B (hms_info_of m (py_str B idv)) ?tid)]
           else fv_locations a)"
    by auto
  have "map_of (fv_things b) ?k \<noteq> None"
    unfolding t by (simp add: map_of_snoc del: map_of_append)
  then obtain t where t': "map_of (fv_things b) ?k = Some t" by blast
  then have "(?k, t) \<in> set (fv_things b)" by (rule map_of_SomeD)
  with okb have tid: "t_id t = ?tid"
    by (auto simp: fv_entities_ok_def list_all_iff)
  have "map_of (fv_locations b) ?tid \<noteq> None"
    unfolding l by (simp add: map_of_snoc del: map_of_append)
  then obtain x where x: "map_of (fv_locations b) ?tid = Some x" by blast
  then have "(?tid, x) \<in> set (fv_locations b)" by (rule map_of_SomeD)
  with lokb have "l_id x = ''location_'' @ remove_all ''thing_'' ?tid"
    unfolding fv_locations_ok_def list_all_iff by fastforce
  with t' tid x show ?thesis by blast
qed

lemma fv_process_sheet_rows:
  assumes "fv_process_sheet B m sheet s = Inr s'"
  shows "s' = s \<or> for_each (fv_process_row B m (category_of (fst sheet))
        (timestamp_column_of (fst sheet)) (df_columns (snd sheet))) (df_rows (snd sheet)) s = Inr s'"
  using assms by (auto simp: fv_process_sheet_def Let_def split: if_splits)

lemma fv_process_sheet_step:
  assumes P: "fv_entities_ok a \<and> fv_locations_ok a" and run: "fv_process_sheet B m sheet a = Inr b"
  shows "(fv_entities_ok b \<and> fv_locations_ok b) \<and> fv_extends a b"
proof -
  from fv_process_sheet_rows [OF run] show ?thesis
  proof
    assume "b = a"
    with P show ?thesis by (simp add: fv_extends_refl)
  next
    assume rows: "for_each (fv_process_row B m (category_of (fst sheet))
        (timestamp_column_of (fst sheet)) (df_columns (snd sheet))) (df_rows (snd sheet)) a = Inr b"
    show ?thesis
    proof (rule for_each_chain
        [where P = "\<lambda>s. fv_entities_ok s \<and> fv_locations_ok s" and R = fv_extends])
      show "for_each (fv_process_row B m (category_of (fst sheet))
        (timestamp_column_of (fst sheet)) (df_columns (snd sheet))) (df_rows (snd sheet)) a = Inr b"
        by (rule rows)
      show "fv_entities_ok a \<and> fv_locations_ok a" by (rule P)
    qed (use fv_process_row_step fv_extends_refl fv_extends_trans in blast)+
  qed
qed

lemma fv_init_locations_ok: "fv_locations_ok fv_init"
  by (simp add: fv_locations_ok_def fv_init_def)

lemma fv_thing_with_relations_fields:
  shows "t_id (fv_thing_with_relations s t) = t_id t"
    and "map_of (fv_locations s) (t_id t) = Some l
          \<Longrightarrow> t_Locations (fv_thing_with_relations s t) = Some [l]"
  by (simp_all add: fv_thing_with_relations_def Let_def split: option.splits)

lemma fv_station:
  assumes run: "fv_excel_to_sensorthings B wb = Inr d" and m: "id_to_hms_mapping B wb = Inr m"
    and sheet: "(name, df) \<in> set wb" and name: "name \<noteq> LEGENDE"
    and cols: "id_column \<in> set (df_columns df)" "timestamp_column_of name \<in> set (df_columns df)"
    and r: "r \<in> set (df_rows df)" and idc: "getitem r id_column = Inr idv"
  shows "\<exists>t \<in> set (Things d).
      t_id t = ''thing_'' @ thing_key_of B (hms_info_of m (py_str B idv)) (py_str B idv)
      \<and> map_option (map l_id) (t_Locations t)
          = Some [''location_'' @ remove_all ''thing_''
                    (''thing_'' @ thing_key_of B (hms_info_of m (py_str B idv)) (py_str B idv))]"
proof -
  let ?k = "thing_key_of B (hms_info_of m (py_str B idv)) (py_str B idv)"
  let ?tid = "''thing_'' @ ?k"
  let ?P = "\<lambda>s. fv_entities_ok s \<and> fv_locations_ok s"
  from run m obtain s where sheets: "for_each (fv_process_sheet B m) wb fv_init = Inr s"
    and d: "d = fv_assemble s"
    by (auto simp: fv_excel_to_sensorthings_def split: sum.splits)
  have "\<exists>a b. ?P a \<and> fv_process_sheet B m (name, df) a = Inr b \<and> fv_extends b s"
  proof (rule for_each_visits [where P = ?P and R = fv_extends])
    show "for_each (fv_process_sheet B m) wb fv_init = Inr s" by (rule sheets)
    show "?P fv_init" by (simp add: fv_init_ok fv_init_locations_ok)
    show "(name, df) \<in> set wb" by (rule sheet)
  qed (use fv_process_sheet_step fv_extends_refl fv_extends_trans in blast)+
  then obtain a b where a: "?P a" and sh: "fv_process_sheet B m (name, df) a = Inr b"
    and b: "fv_extends b s"
    by blast
  from sh name cols have rows: "for_each (fv_process_row B m (category_of name)
        (timestamp_column_of name) (df_columns df)) (df_rows df) a = Inr b"
    by (simp add: fv_process_sheet_def)
  have "\<exists>a' b'. ?P a' \<and> fv_process_row B m (category_of name) (timestamp_column_of name)
          (df_columns df) r a' = Inr b' \<and> fv_extends b' b"
  proof (rule for_each_visits [where P = ?P and R = fv_extends])
    show "for_each (fv_process_row B m (category_of name) (timestamp_column_of name)
            (df_columns df)) (df_rows df) a = Inr b"
      by (rule rows)
    show "?P a" by (rule a)
    show "r \<in> set (df_rows df)" by (rule r)
  qed (use fv_process_row_step fv_extends_refl fv_extends_trans in blast)+
  then obtain a' b' where a': "?P a'"
    and row: "fv_process_row B m (category_of name) (timestamp_column_of name) (df_columns df) r a'
        = Inr b'"
    and b': "fv_extends b' b"
    by blast
  from fv_process_row_registers [OF a' row idc] obtain t l where
    t: "map_of (fv_things b') ?k = Some t" and tid: "t_id t = ?tid"
    and l: "map_of (fv_locations b') ?tid = Some l"
    and lid: "l_id l = ''location_'' @ remove_all ''thing_'' ?tid"
    by blast
  from b' b have e: "fv_extends b' s" by (rule fv_extends_trans)
  from e t have "map_of (fv_things s) ?k = Some t"
    by (auto simp: fv_extends_def intro: map_of_prefix)
  then have mem: "(?k, t) \<in> set (fv_things s)" by (rule map_of_SomeD)
  from e l have "map_of (fv_locations s) ?tid = Some l"
    by (auto simp: fv_extends_def intro: map_of_prefix)
  then have "t_Locations (fv_thing_with_relations s t) = Some [l]"
    using fv_thing_with_relations_fields(2) [of s t l] by (simp only: tid)
  then have f1: "map_option (map l_id) (t_Locations (fv_thing_with_relations s t))
      = Some [''location_'' @ remove_all ''thing_'' ?tid]"
    by (simp only: lid option.map list.map)
  have f2: "t_id (fv_thing_with_relations s t) = ?tid"
    by (simp only: fv_thing_with_relations_fields(1) tid)
  from mem have f3: "fv_thing_with_relations s t \<in> set (Things d)"
    by (force simp: d fv_assemble_def)
  show ?thesis
  proof (rule bexI [where x = "fv_thing_with_relations s t"])
    show "fv_thing_with_relations s t \<in> set (Things d)" by (rule f3)
    show "t_id (fv_thing_with_relations s t) = ?tid
      \<and> map_option (map l_id) (t_Locations (fv_thing_with_relations s t))
          = Some [''location_'' @ remove_all ''thing_'' ?tid]"
      using f2 f1 by (rule conjI)
  qed
qed

section \<open>Rows without a timestamp\<close>

lemma process_row_missing_timestamp:
  assumes ok: "entities_ok s" and idc: "getitem r id_column = Inr idv"
    and ts: "getitem r tsc = Inr NaN"
  shows "\<exists>s'. process_row B cat tsc cols r s = Inr s'
           \<and> observations s' = observations s \<and> datastreams s' = datastreams s
           \<and> sensors s' = sensors s \<and> observed_properties s' = observed_properties s
           \<and> things s' = (if map_of (things s) (py_str B idv) = None
                           then things s @ [(py_str B idv, new_thing (py_str B idv) cat)]
                           else things s)
           \<and> locations s' =
               (if map_of (locations s) (''thing_'' @ py_str B idv) = None
                then locations s @
                       [(''thing_'' @ py_str B idv,
                         new_location (''thing_'' @ py_str B idv)
                           (hd (py_split CHR ''_'' (py_str B idv))))]
                else locations s)"
proof -
  let ?k = "py_str B idv"
  let ?s1 = "snd (create_thing ?k cat s)"
  let ?s2 = "if map_of (locations ?s1) (''thing_'' @ ?k) = None
             then ?s1\<lparr>locations := locations ?s1 @
                  [(''thing_'' @ ?k, new_location (''thing_'' @ ?k) (hd (py_split CHR ''_'' ?k)))]\<rparr>
             else ?s1"
  have tid: "t_id (fst (create_thing ?k cat s)) = ''thing_'' @ ?k"
    by (rule create_thing_id [OF ok])
  have "isna NaN" by simp
  then have run: "process_row B cat tsc cols r s = Inr ?s2"
    unfolding process_row_def idc ts sum.case Let_def case_prod_beta tid
      create_location_thing_value fst_conv snd_conv
    by (simp only: if_True)
  have "observations ?s2 = observations s" "datastreams ?s2 = datastreams s"
    "sensors ?s2 = sensors s" "observed_properties ?s2 = observed_properties s"
    "things ?s2 = (if map_of (things s) ?k = None
                  then things s @ [(?k, new_thing ?k cat)] else things s)"
    "locations ?s2 =
       (if map_of (locations s) (''thing_'' @ ?k) = None
        then locations s @
               [(''thing_'' @ ?k, new_location (''thing_'' @ ?k) (hd (py_split CHR ''_'' ?k)))]
        else locations s)"
    by (simp_all add: create_thing_state)
  with run show ?thesis by blast
qed

lemma fv_process_row_missing_timestamp:
  assumes ok: "fv_entities_ok f" and idc: "getitem r id_column = Inr idv"
    and ts: "getitem r tsc = Inr NaN"
  shows "\<exists>f'. fv_process_row B m cat tsc cols r f = Inr f'
           \<and> fv_observations f' = fv_observations f \<and> fv_datastreams f' = fv_datastreams f
           \<and> fv_sensors f' = fv_sensors f
           \<and> fv_observed_properties f' = fv_observed_properties f
           \<and> fv_things f' =
               (if map_of (fv_things f) (thing_key_of B (hms_info_of m (py_str B idv)) (py_str B idv))
                     = None
                then fv_things f @
                   [(thing_key_of B (hms_info_of m (py_str B idv)) (py_str B idv),
                     fv_new_thing B (hms_info_of m (py_str B idv)) (py_str B idv) cat)]
                else fv_things f)
           \<and> fv_locations f' =
               (if map_of (fv_locations f)
                     (''thing_'' @ thing_key_of B (hms_info_of m (py_str B idv)) (py_str B idv))
                     = None
                then fv_locations f @
                   [(''thing_'' @ thing_key_of B (hms_info_of m (py_str B idv)) (py_str B idv),
                     fv_new_location B (hms_info_of m (py_str B idv))
                       (''thing_'' @ thing_key_of B (hms_info_of m (py_str B idv)) (py_str B idv)))]
                else fv_locations f)"
proof -
  let ?k = "py_str B idv"
  let ?i = "hms_info_of m ?k"
  let ?tid = "''thing_'' @ thing_key_of B ?i ?k"
  let ?s1 = "snd (fv_create_thing B ?i ?k cat f)"
  let ?s2 = "fv_create_location B ?i ?tid ?s1"
  have tid: "t_id (fst (fv_create_thing B ?i ?k cat f)) = ?tid"
    by (rule fv_create_thing_id [OF ok])
  have "isna NaN" by simp
  then have run: "fv_process_row B m cat tsc cols r f = Inr ?s2"
    unfolding fv_process_row_def idc ts sum.case Let_def case_prod_beta tid
    by (simp only: if_True)
  have "fv_observations ?s2 = fv_observations f" "fv_datastreams ?s2 = fv_datastreams f"
    "fv_sensors ?s2 = fv_sensors f" "fv_observed_properties ?s2 = fv_observed_properties f"
    "fv_things ?s2 = (if map_of (fv_things f) (thing_key_of B ?i ?k) = None
                      then fv_things f @ [(thing_key_of B ?i ?k, fv_new_thing B ?i ?k cat)]
                      else fv_things f)"
    "fv_locations ?s2 =
       (if map_of (fv_locations f) ?tid = None
        then fv_locations f @ [(?tid, fv_new_location B ?i ?tid)]
        else fv_locations f)"
    by (simp_all add: fv_create_location_state fv_create_thing_state)
  with run show ?thesis by blast
qed

section \<open>Unfolding the converters on a concrete workbook\<close>

lemmas run_defs =
  transform_def process_sheet_def process_row_def process_cell_def
  create_thing_def create_location_def create_datastream_def create_sensor_def
  create_observed_property_def create_observation_def construct_nested_structure_def
  thing_with_relations_def thing_datastreams_def datastream_with_observations_def init_def
  getitem_def skipped_column_def startswith_def measurement_type_of_def LEGENDE_def
  id_column_def timestamp_column_of_def category_of_def FREIFLAECHE_def Boden_Lufttemp_def
  A_uml_def deg_def sheet_of_def plain_builtins_def Let_def

lemmas fv_run_defs =
  fv_excel_to_sensorthings_def id_to_hms_mapping_def fv_process_sheet_def fv_process_row_def
  fv_process_cell_def fv_create_thing_def fv_create_location_def fv_create_datastream_def
  fv_create_sensor_def fv_create_observed_property_def fv_assemble_def
  fv_thing_with_relations_def fv_thing_datastreams_def fv_datastream_with_observations_def
  fv_init_def hms_info_of_def thing_key_of_def datastream_key_of_def obs_copy_def
  getitem_def skipped_column_def startswith_def measurement_type_of_def LEGENDE_def
  id_column_def timestamp_column_of_def category_of_def FREIFLAECHE_def Boden_Lufttemp_def
  A_uml_def deg_def sheet_of_def plain_builtins_def Let_def

section \<open>The assembly of the per-entity tables\<close>

lemma first_of_filter:
  "(case filter P xs of [] \<Rightarrow> a | x # rest \<Rightarrow> b x) = (case find P xs of None \<Rightarrow> a | Some x \<Rightarrow> b x)"
  by (induction xs) auto

lemma cell_eq_eq: "cell_eq a b \<Longrightarrow> a = b"
  by (cases a; cases b) auto

lemma id_eq_eq: "id_eq a b \<Longrightarrow> a = b"
  by (cases a; cases b) (auto dest: cell_eq_eq)

lemma find_id_eq:
  assumes "find (\<lambda>x. id_eq (f x) i) xs = Some e"
  shows "f e = i"
proof -
  from assms have "id_eq (f e) i" by (auto simp: find_Some_iff)
  then show ?thesis by (rule id_eq_eq)
qed

lemma resolved_reference_id:
  "ref_id f (resolved_reference f xs r) = ref_id f r"
  by (auto simp: resolved_reference_def first_with_id_def split: option.splits dest: find_id_eq)

lemma resolved_reference_again:
  "resolved_reference f xs (resolved_reference f xs r) = resolved_reference f xs r"
proof (cases "first_with_id f (ref_id f r) xs")
  case None
  then show ?thesis by (simp add: resolved_reference_def)
next
  case (Some e)
  then have "f e = ref_id f r" by (auto simp: first_with_id_def dest: find_id_eq)
  with Some show ?thesis by (simp add: resolved_reference_def)
qed

lemma resolve_sensor_eq:
  "resolve_sensor sta d =
     d\<lparr>nd_Sensor := map_option (resolved_reference ns_id (sd_Sensors sta)) (nd_Sensor d)\<rparr>"
  by (cases "nd_Sensor d")
     (simp_all add: resolve_sensor_def resolved_reference_def first_with_id_def Let_def
        first_of_filter split: option.splits)

lemma resolve_observed_property_eq:
  "resolve_observed_property sta d =
     d\<lparr>nd_ObservedProperty :=
         map_option (resolved_reference nop_id (sd_ObservedProperties sta)) (nd_ObservedProperty d)\<rparr>"
  by (cases "nd_ObservedProperty d")
     (simp_all add: resolve_observed_property_def resolved_reference_def first_with_id_def Let_def
        first_of_filter split: option.splits)

lemma attach_observations_eq:
  "attach_observations sta d =
     d\<lparr>nd_Observations :=
         (if matching_observations sta d = [] then nd_Observations d
          else Some (matching_observations sta d))\<rparr>"
  by (simp add: attach_observations_def matching_observations_def Let_def)

lemma matching_observations_cong:
  "nd_id d = nd_id d' \<Longrightarrow> matching_observations sta d = matching_observations sta d'"
  by (simp add: matching_observations_def cong: option.case_cong)

lemma resolve_eq: "resolve sta d = nested_datastream sta d"
proof -
  let ?d2 = "d\<lparr>nd_Sensor := map_option (resolved_reference ns_id (sd_Sensors sta)) (nd_Sensor d),
      nd_ObservedProperty :=
        map_option (resolved_reference nop_id (sd_ObservedProperties sta)) (nd_ObservedProperty d)\<rparr>"
  have m: "matching_observations sta ?d2 = matching_observations sta d"
    by (rule matching_observations_cong) simp
  have "resolve sta d = attach_observations sta ?d2"
    by (simp add: resolve_def resolve_sensor_eq resolve_observed_property_eq)
  also have "\<dots> = nested_datastream sta d"
    unfolding attach_observations_eq m by (simp add: nested_datastream_def)
  finally show ?thesis .
qed

lemma nested_datastream_Thing [simp]: "nd_Thing (nested_datastream sta d) = nd_Thing d"
  by (simp add: nested_datastream_def)

lemma matching_observations_nested [simp]:
  "matching_observations sta (nested_datastream sta d) = matching_observations sta d"
  by (rule matching_observations_cong) (simp add: nested_datastream_def)

lemma nested_datastream_again:
  "nested_datastream sta (nested_datastream sta d) = nested_datastream sta d"
proof -
  have "nested_datastream sta (nested_datastream sta d) =
      (nested_datastream sta d)
       \<lparr>nd_Sensor := map_option (resolved_reference ns_id (sd_Sensors sta))
            (nd_Sensor (nested_datastream sta d)),
        nd_ObservedProperty := map_option (resolved_reference nop_id (sd_ObservedProperties sta))
            (nd_ObservedProperty (nested_datastream sta d)),
        nd_Observations :=
          (if matching_observations sta d = [] then nd_Observations (nested_datastream sta d)
           else Some (matching_observations sta d))\<rparr>"
    by (subst nested_datastream_def) simp
  also have "\<dots> = nested_datastream sta d"
    by (simp add: nested_datastream_def option.map_comp comp_def resolved_reference_again)
  finally show ?thesis .
qed

lemma map_filter_positions:
  "map (\<lambda>i. f (xs ! i)) (filter (\<lambda>i. P (xs ! i)) [0 ..< length xs]) = map f (filter P xs)"
proof -
  have "map f (filter P xs) = map f (filter P (map (nth xs) [0 ..< length xs]))"
    by (simp add: map_nth)
  also have "\<dots> = map f (map (nth xs) (filter (P \<circ> nth xs) [0 ..< length xs]))"
    by (simp only: filter_map)
  also have "\<dots> = map (\<lambda>i. f (xs ! i)) (filter (\<lambda>i. P (xs ! i)) [0 ..< length xs])"
    by (simp add: comp_def)
  finally show ?thesis by simp
qed

lemma positions_for_datastreams:
  "map (\<lambda>i. f (sd_Datastreams sta ! i)) (positions_for sta tid) = map f (datastreams_for sta tid)"
  unfolding positions_for_def datastreams_for_def by (rule map_filter_positions)

lemma positions_for_empty:
  "positions_for sta tid = [] \<longleftrightarrow> datastreams_for sta tid = []"
  using positions_for_datastreams [of id sta tid] by (metis map_is_Nil_conv)

lemma positions_for_bound:
  "i \<in> set (positions_for sta tid) \<Longrightarrow> i < length (sd_Datastreams sta)"
  by (simp add: positions_for_def)

lemma partly_resolved_Thing:
  assumes "partly_resolved sta dss" and "i < length dss"
  shows "nd_Thing (dss ! i) = nd_Thing (sd_Datastreams sta ! i)"
  using assms by (auto simp: partly_resolved_def)

lemma partly_resolved_positions:
  assumes "partly_resolved sta dss"
  shows "filter (\<lambda>i. refers_to (nd_Thing (dss ! i)) tid) [0 ..< length dss] = positions_for sta tid"
proof -
  have "length dss = length (sd_Datastreams sta)"
    using assms by (simp add: partly_resolved_def)
  moreover have "filter (\<lambda>i. refers_to (nd_Thing (dss ! i)) tid) [0 ..< length dss]
      = filter (\<lambda>i. refers_to (nd_Thing (sd_Datastreams sta ! i)) tid) [0 ..< length dss]"
    by (rule filter_cong) (simp_all add: partly_resolved_Thing [OF assms])
  ultimately show ?thesis by (simp add: positions_for_def)
qed

lemma partly_resolved_resolve:
  assumes "partly_resolved sta dss" and "i < length dss"
  shows "resolve sta (dss ! i) = nested_datastream sta (sd_Datastreams sta ! i)"
  using assms by (auto simp: partly_resolved_def resolve_eq nested_datastream_again)

lemma resolve_selected:
  assumes "partly_resolved sta dss" and "\<forall>i \<in> set sel. i < length dss"
  shows "length (fold (\<lambda>i dss. dss[i := resolve sta (dss ! i)]) sel dss) = length dss
    \<and> (\<forall>i < length dss.
          fold (\<lambda>i dss. dss[i := resolve sta (dss ! i)]) sel dss ! i =
            (if i \<in> set sel then nested_datastream sta (sd_Datastreams sta ! i) else dss ! i))"
  using assms
proof (induction sel arbitrary: dss)
  case Nil
  then show ?case by simp
next
  case (Cons j sel)
  let ?dss1 = "dss[j := resolve sta (dss ! j)]"
  from Cons.prems have j: "j < length dss" by simp
  have r: "resolve sta (dss ! j) = nested_datastream sta (sd_Datastreams sta ! j)"
    by (rule partly_resolved_resolve [OF Cons.prems(1) j])
  have p1: "partly_resolved sta ?dss1"
    using Cons.prems(1) j by (auto simp: partly_resolved_def r nth_list_update)
  have b1: "\<forall>i \<in> set sel. i < length ?dss1"
    using Cons.prems(2) by simp
  from Cons.IH [OF p1 b1] show ?case
    by (auto simp: r nth_list_update)
qed

lemma resolve_selected_partly:
  assumes "partly_resolved sta dss" and "\<forall>i \<in> set sel. i < length dss"
  shows "partly_resolved sta (fold (\<lambda>i dss. dss[i := resolve sta (dss ! i)]) sel dss)"
  using resolve_selected [OF assms] assms(1)
  by (auto simp: partly_resolved_def)

text \<open>What one round of the loop over the Things does.\<close>

lemma assemble_thing_step:
  assumes p: "partly_resolved sta (a_datastreams a)"
    and k: "length (a_result a) = k" and t: "thing = sd_Things sta ! k"
  shows "a_result (assemble_thing sta thing a)
           = a_result a @ [(thing_head sta k, positions_for sta (assigned_id sta k))]"
    and "partly_resolved sta (a_datastreams (assemble_thing sta thing a))"
    and "\<forall>i < length (sd_Datastreams sta).
           a_datastreams (assemble_thing sta thing a) ! i =
             (if i \<in> set (positions_for sta (assigned_id sta k))
              then nested_datastream sta (sd_Datastreams sta ! i)
              else a_datastreams a ! i)"
proof -
  have tid: "(case nt_id thing of None \<Rightarrow> Number (real (length (a_result a) + 1)) | Some v \<Rightarrow> v)
      = assigned_id sta k"
    by (simp add: assigned_id_def k t cong: option.case_cong)
  have len: "length (a_datastreams a) = length (sd_Datastreams sta)"
    using p by (simp add: partly_resolved_def)
  have b: "\<forall>i \<in> set (positions_for sta (assigned_id sta k)). i < length (a_datastreams a)"
    by (simp add: len positions_for_bound)
  have ds: "a_datastreams (assemble_thing sta thing a)
      = fold (\<lambda>i dss. dss[i := resolve sta (dss ! i)]) (positions_for sta (assigned_id sta k))
          (a_datastreams a)"
    unfolding assemble_thing_def Let_def tid partly_resolved_positions [OF p] by simp
  show "a_result (assemble_thing sta thing a)
           = a_result a @ [(thing_head sta k, positions_for sta (assigned_id sta k))]"
    unfolding assemble_thing_def Let_def tid partly_resolved_positions [OF p]
    by (simp add: thing_head_def locations_of_def t)
  show "partly_resolved sta (a_datastreams (assemble_thing sta thing a))"
    unfolding ds by (rule resolve_selected_partly [OF p b])
  show "\<forall>i < length (sd_Datastreams sta).
           a_datastreams (assemble_thing sta thing a) ! i =
             (if i \<in> set (positions_for sta (assigned_id sta k))
              then nested_datastream sta (sd_Datastreams sta ! i)
              else a_datastreams a ! i)"
    unfolding ds using resolve_selected [OF p b] by (simp add: len)
qed

text \<open>The state of the loop after the first \<open>k\<close> Things.\<close>

lemma assemble_prefix:
  assumes "k \<le> length (sd_Things sta)"
  shows "a_result (fold (assemble_thing sta) (take k (sd_Things sta))
                     \<lparr>a_result = [], a_datastreams = sd_Datastreams sta\<rparr>)
           = map (\<lambda>j. (thing_head sta j, positions_for sta (assigned_id sta j))) [0 ..< k]
     \<and> partly_resolved sta
         (a_datastreams (fold (assemble_thing sta) (take k (sd_Things sta))
                     \<lparr>a_result = [], a_datastreams = sd_Datastreams sta\<rparr>))
     \<and> (\<forall>j < k. \<forall>i \<in> set (positions_for sta (assigned_id sta j)).
           a_datastreams (fold (assemble_thing sta) (take k (sd_Things sta))
                     \<lparr>a_result = [], a_datastreams = sd_Datastreams sta\<rparr>) ! i
             = nested_datastream sta (sd_Datastreams sta ! i))"
  using assms
proof (induction k)
  case 0
  then show ?case by (simp add: partly_resolved_def)
next
  case (Suc k)
  let ?a = "fold (assemble_thing sta) (take k (sd_Things sta))
              \<lparr>a_result = [], a_datastreams = sd_Datastreams sta\<rparr>"
  from Suc.prems have k: "k < length (sd_Things sta)" by simp
  from Suc.IH k have
    res: "a_result ?a = map (\<lambda>j. (thing_head sta j, positions_for sta (assigned_id sta j))) [0 ..< k]"
    and p: "partly_resolved sta (a_datastreams ?a)"
    and old: "\<forall>j < k. \<forall>i \<in> set (positions_for sta (assigned_id sta j)).
           a_datastreams ?a ! i = nested_datastream sta (sd_Datastreams sta ! i)"
    by simp_all
  have len: "length (a_result ?a) = k" by (simp add: res)
  have step: "fold (assemble_thing sta) (take (Suc k) (sd_Things sta))
              \<lparr>a_result = [], a_datastreams = sd_Datastreams sta\<rparr>
      = assemble_thing sta (sd_Things sta ! k) ?a"
    by (simp add: take_Suc_conv_app_nth [OF k])
  note s = assemble_thing_step [OF p len refl]
  have "\<forall>j < Suc k. \<forall>i \<in> set (positions_for sta (assigned_id sta j)).
           a_datastreams (assemble_thing sta (sd_Things sta ! k) ?a) ! i
             = nested_datastream sta (sd_Datastreams sta ! i)"
    using s(3) old by (auto simp: less_Suc_eq positions_for_bound)
  with s(1,2) res show ?case
    unfolding step by simp
qed

lemma emit_nested_thing:
  assumes "\<forall>i \<in> set (positions_for sta (assigned_id sta j)).
             dss ! i = nested_datastream sta (sd_Datastreams sta ! i)"
  shows "emit_thing dss (thing_head sta j, positions_for sta (assigned_id sta j))
           = nested_thing sta j"
proof -
  have "map (\<lambda>i. dss ! i) (positions_for sta (assigned_id sta j))
      = map (\<lambda>i. nested_datastream sta (sd_Datastreams sta ! i))
          (positions_for sta (assigned_id sta j))"
    using assms by simp
  also have "\<dots> = map (nested_datastream sta) (datastreams_for sta (assigned_id sta j))"
    by (rule positions_for_datastreams)
  finally show ?thesis
    by (simp add: emit_thing_def nested_thing_def positions_for_empty)
qed

text \<open>
  The assembly with its in-place updates yields the document described by value.
\<close>

lemma n_construct_nested_structure_eq:
  "n_construct_nested_structure sta
     = \<lparr>n_Things = map (nested_thing sta) [0 ..< length (sd_Things sta)]\<rparr>"
proof -
  let ?a = "fold (assemble_thing sta) (sd_Things sta)
              \<lparr>a_result = [], a_datastreams = sd_Datastreams sta\<rparr>"
  from assemble_prefix [of "length (sd_Things sta)" sta] have
    res: "a_result ?a = map (\<lambda>j. (thing_head sta j, positions_for sta (assigned_id sta j)))
                          [0 ..< length (sd_Things sta)]"
    and old: "\<forall>j < length (sd_Things sta). \<forall>i \<in> set (positions_for sta (assigned_id sta j)).
           a_datastreams ?a ! i = nested_datastream sta (sd_Datastreams sta ! i)"
    by simp_all
  have "map (emit_thing (a_datastreams ?a)) (a_result ?a)
      = map (nested_thing sta) [0 ..< length (sd_Things sta)]"
    unfolding res map_map
    by (rule map_cong [OF refl]) (simp add: emit_nested_thing old)
  then show ?thesis
    by (simp add: n_construct_nested_structure_def Let_def)
qed

section \<open>The tables as read\<close>

lemma read_table_rows:
  "read_table excel_data name f st = for_each f (rows_of excel_data name) st"
  by (simp add: read_table_def rows_of_def split: option.splits)

lemma as_read_init: "as_read sta_init"
  by (simp add: as_read_def sta_init_def)

lemma thing_row_as_read:
  "thing_row B U r st = Inr st' \<Longrightarrow> as_read (snd st) \<Longrightarrow> as_read (snd st')"
  by (auto simp: thing_row_def as_read_def split: sum.splits)

lemma location_row_as_read:
  "location_row B U r st = Inr st' \<Longrightarrow> as_read (snd st) \<Longrightarrow> as_read (snd st')"
  by (auto simp: location_row_def as_read_def split: sum.splits)

lemma observed_property_row_as_read:
  "observed_property_row B U r st = Inr st' \<Longrightarrow> as_read (snd st) \<Longrightarrow> as_read (snd st')"
  by (auto simp: observed_property_row_def as_read_def)

lemma sensor_row_as_read:
  "sensor_row B U r st = Inr st' \<Longrightarrow> as_read (snd st) \<Longrightarrow> as_read (snd st')"
  by (auto simp: sensor_row_def as_read_def)

lemma is_fragment_Fragment: "is_fragment (map_option Fragment x)"
  by (cases x) simp_all

lemma datastream_row_as_read:
  "datastream_row B U r st = Inr st' \<Longrightarrow> as_read (snd st) \<Longrightarrow> as_read (snd st')"
  by (auto simp: datastream_row_def as_read_def is_fragment_Fragment split: sum.splits)

lemma observation_row_as_read:
  "observation_row B U r st = Inr st' \<Longrightarrow> as_read (snd st) \<Longrightarrow> as_read (snd st')"
  by (auto simp: observation_row_def as_read_def split: sum.splits)

lemma read_table_as_read:
  assumes "\<And>r st st'. f r st = Inr st' \<Longrightarrow> as_read (snd st) \<Longrightarrow> as_read (snd st')"
    and "read_table excel_data name f st = Inr st'" and "as_read (snd st)"
  shows "as_read (snd st')"
  using assms(2) unfolding read_table_rows
  by (rule for_each_invariant [where P = "\<lambda>st. as_read (snd st)", rotated 2])
     (auto intro: assms(1,3))

lemma read_tables_as_read:
  assumes "read_tables B U excel_data = Inr st"
  shows "as_read (snd st)"
proof -
  from assms obtain st1 st2 st3 st4 st5 where
    1: "read_table excel_data ''Things'' (thing_row B U) (0, sta_init) = Inr st1"
    and 2: "read_table excel_data ''Locations'' (location_row B U) st1 = Inr st2"
    and 3: "read_table excel_data ''ObservedProperties'' (observed_property_row B U) st2 = Inr st3"
    and 4: "read_table excel_data ''Sensors'' (sensor_row B U) st3 = Inr st4"
    and 5: "read_table excel_data ''Datastreams'' (datastream_row B U) st4 = Inr st5"
    and 6: "read_table excel_data ''Observations'' (observation_row B U) st5 = Inr st"
    by (auto simp: read_tables_def split: sum.splits)
  have "as_read (snd st1)"
    by (rule read_table_as_read [OF thing_row_as_read 1]) (simp_all add: as_read_init)
  then have "as_read (snd st2)"
    by (rule read_table_as_read [OF location_row_as_read 2, rotated 2])
  then have "as_read (snd st3)"
    by (rule read_table_as_read [OF observed_property_row_as_read 3, rotated 2])
  then have "as_read (snd st4)"
    by (rule read_table_as_read [OF sensor_row_as_read 4, rotated 2])
  then have "as_read (snd st5)"
    by (rule read_table_as_read [OF datastream_row_as_read 5, rotated 2])
  then show "as_read (snd st)"
    by (rule read_table_as_read [OF observation_row_as_read 6, rotated 2])
qed

lemma find_none: "list_all (\<lambda>x. \<not> P x) xs \<Longrightarrow> find P xs = None"
  by (induction xs) auto

lemma as_read_reference:
  assumes "list_all (\<lambda>x. f x = None) xs" and "is_fragment r"
  shows "map_option (resolved_reference f xs) r = r"
proof (cases r)
  case None
  then show ?thesis by simp
next
  case (Some x)
  with assms(2) obtain v where x: "x = Fragment v" by (cases x) auto
  have "list_all (\<lambda>e. \<not> id_eq (f e) (Some v)) xs"
    using assms(1) by (auto simp: list_all_iff)
  then have "find (\<lambda>e. id_eq (f e) (Some v)) xs = None" by (rule find_none)
  with Some x show ?thesis by (simp add: resolved_reference_def first_with_id_def)
qed

lemma as_read_no_observations:
  "nd_id d = None \<Longrightarrow> matching_observations sta d = []"
  by (auto simp: matching_observations_def filter_empty_conv split: option.splits)

lemma as_read_nested_datastream:
  assumes "as_read sta" and "d \<in> set (sd_Datastreams sta)"
  shows "nested_datastream sta d = d"
proof -
  from assms have d: "nd_id d = None" "is_fragment (nd_Sensor d)"
    "is_fragment (nd_ObservedProperty d)"
    and s: "list_all (\<lambda>s. ns_id s = None) (sd_Sensors sta)"
    and p: "list_all (\<lambda>p. nop_id p = None) (sd_ObservedProperties sta)"
    by (auto simp: as_read_def list_all_iff)
  show ?thesis
    by (simp add: nested_datastream_def as_read_reference [OF s d(2)]
          as_read_reference [OF p d(3)] as_read_no_observations [OF d(1)])
qed

lemma as_read_assigned_id:
  assumes "as_read sta" and "k < length (sd_Things sta)"
  shows "assigned_id sta k = Number (real (k + 1))"
  using assms by (auto simp: as_read_def assigned_id_def list_all_length)

section \<open>Two runs of the converter for the per-entity tables\<close>

lemma rel_sum_bind:
  assumes "rel_sum (=) R a b"
    and "\<And>x y. R x y \<Longrightarrow> rel_sum (=) R' (k1 x) (k2 y)"
  shows "rel_sum (=) R' (case a of Inl e \<Rightarrow> Inl e | Inr x \<Rightarrow> k1 x)
                        (case b of Inl e \<Rightarrow> Inl e | Inr y \<Rightarrow> k2 y)"
  using assms by (cases a; cases b) auto

lemma for_each_related:
  assumes "\<And>x s1 s2. x \<in> set xs \<Longrightarrow> R s1 s2 \<Longrightarrow> rel_sum (=) R (f x s1) (g x s2)"
    and "R s1 s2"
  shows "rel_sum (=) R (for_each f xs s1) (for_each g xs s2)"
  using assms
proof (induction xs arbitrary: s1 s2)
  case Nil
  then show ?case by simp
next
  case (Cons x xs)
  have "rel_sum (=) R (f x s1) (g x s2)"
    using Cons.prems by simp
  moreover have "\<And>a b. R a b \<Longrightarrow> rel_sum (=) R (for_each f xs a) (for_each g xs b)"
    using Cons.IH Cons.prems(1) by simp
  ultimately show ?case
    unfolding for_each.simps by (rule rel_sum_bind)
qed

lemma thing_row_related:
  assumes "same_up_to_names st1 st2"
  shows "rel_sum (=) same_up_to_names (thing_row B U1 r st1) (thing_row B U2 r st2)"
  using assms
  by (cases "json_field B r ''properties'' (JObj [])")
     (simp_all add: thing_row_def same_up_to_names_def erase_sta_def erase_thing_def)

lemma location_row_related:
  assumes "same_up_to_names st1 st2"
  shows "rel_sum (=) same_up_to_names (location_row B U1 r st1) (location_row B U2 r st2)"
  using assms
  by (cases "json_field B r ''location'' default_point")
     (simp_all add: location_row_def same_up_to_names_def erase_sta_def erase_location_def)

lemma observed_property_row_related:
  assumes "same_up_to_names st1 st2"
  shows "rel_sum (=) same_up_to_names
           (observed_property_row B U1 r st1) (observed_property_row B U2 r st2)"
  using assms
  by (simp add: observed_property_row_def same_up_to_names_def erase_sta_def
        erase_observed_property_def)

lemma sensor_row_related:
  assumes "same_up_to_names st1 st2"
  shows "rel_sum (=) same_up_to_names (sensor_row B U1 r st1) (sensor_row B U2 r st2)"
  using assms
  by (simp add: sensor_row_def same_up_to_names_def erase_sta_def erase_sensor_def)

lemma datastream_row_related:
  assumes "same_up_to_names st1 st2"
  shows "rel_sum (=) same_up_to_names (datastream_row B U1 r st1) (datastream_row B U2 r st2)"
  using assms
  by (cases "json_field B r ''unitOfMeasurement'' (JObj [])")
     (simp_all add: datastream_row_def same_up_to_names_def erase_sta_def erase_datastream_def)

lemma observation_row_related:
  assumes "same_up_to_names st1 st2"
  shows "rel_sum (=) same_up_to_names (observation_row B U1 r st1) (observation_row B U2 r st2)"
  using assms
  by (cases "json_field B r ''parameters'' (JObj [])"; cases "feature_of_interest B r")
     (simp_all add: observation_row_def same_up_to_names_def erase_sta_def)

lemma read_table_related:
  assumes "\<And>r s1 s2. same_up_to_names s1 s2 \<Longrightarrow> rel_sum (=) same_up_to_names (f r s1) (g r s2)"
    and "same_up_to_names st1 st2"
  shows "rel_sum (=) same_up_to_names
           (read_table excel_data name f st1) (read_table excel_data name g st2)"
  unfolding read_table_rows using assms by (intro for_each_related) auto

lemma read_tables_related:
  "rel_sum (=) same_up_to_names (read_tables B U1 excel_data) (read_tables B U2 excel_data)"
proof -
  have 0: "same_up_to_names (0, sta_init) (0, sta_init)"
    by (simp add: same_up_to_names_def)
  show ?thesis
    unfolding read_tables_def
    by (intro rel_sum_bind [where R = same_up_to_names and R' = same_up_to_names]
          read_table_related thing_row_related location_row_related
          observed_property_row_related sensor_row_related datastream_row_related
          observation_row_related 0)
qed

lemma erase_fields [simp]:
  "ns_id (erase_sensor s) = ns_id s"
  "nop_id (erase_observed_property p) = nop_id p"
  "nl_Thing (erase_location l) = nl_Thing l"
  "nd_Thing (erase_datastream d) = nd_Thing d"
  "nd_id (erase_datastream d) = nd_id d"
  "nt_id (erase_thing t) = nt_id t"
  by (simp_all add: erase_sensor_def erase_observed_property_def erase_location_def
        erase_datastream_def erase_thing_def)

lemma find_map_list: "find P (map f xs) = map_option f (find (P \<circ> f) xs)"
  by (induction xs) auto

lemma ref_id_map_ref:
  assumes "\<And>x. f (e x) = f x"
  shows "ref_id f (map_ref e r) = ref_id f r"
  by (cases r) (simp_all add: assms)

lemma resolved_reference_map:
  assumes "\<And>x. f (e x) = f x"
  shows "resolved_reference f (map e xs) (map_ref e r) = map_ref e (resolved_reference f xs r)"
  by (simp add: resolved_reference_def first_with_id_def find_map_list comp_def
        ref_id_map_ref [of f e, OF assms] assms split: option.splits)

lemma erase_sta_fields [simp]:
  "sd_Things (erase_sta sta) = map erase_thing (sd_Things sta)"
  "sd_Locations (erase_sta sta) = map erase_location (sd_Locations sta)"
  "sd_ObservedProperties (erase_sta sta) = map erase_observed_property (sd_ObservedProperties sta)"
  "sd_Sensors (erase_sta sta) = map erase_sensor (sd_Sensors sta)"
  "sd_Datastreams (erase_sta sta) = map erase_datastream (sd_Datastreams sta)"
  "sd_Observations (erase_sta sta) = sd_Observations sta"
  by (simp_all add: erase_sta_def)

lemma matching_observations_erase:
  "matching_observations (erase_sta sta) (erase_datastream d) = matching_observations sta d"
  by (simp add: matching_observations_def cong: option.case_cong)

lemma nested_datastream_erase:
  "nested_datastream (erase_sta sta) (erase_datastream d)
     = erase_datastream (nested_datastream sta d)"
proof -
  have s: "map_option (resolved_reference ns_id (map erase_sensor (sd_Sensors sta)))
             (map_option (map_ref erase_sensor) (nd_Sensor d))
      = map_option (map_ref erase_sensor)
          (map_option (resolved_reference ns_id (sd_Sensors sta)) (nd_Sensor d))"
    by (cases "nd_Sensor d") (simp_all add: resolved_reference_map)
  have p: "map_option (resolved_reference nop_id
               (map erase_observed_property (sd_ObservedProperties sta)))
             (map_option (map_ref erase_observed_property) (nd_ObservedProperty d))
      = map_option (map_ref erase_observed_property)
          (map_option (resolved_reference nop_id (sd_ObservedProperties sta))
             (nd_ObservedProperty d))"
    by (cases "nd_ObservedProperty d") (simp_all add: resolved_reference_map)
  have "nested_datastream (erase_sta sta) (erase_datastream d)
      = (erase_datastream d)
          \<lparr>nd_Sensor := map_option (resolved_reference ns_id (map erase_sensor (sd_Sensors sta)))
               (nd_Sensor (erase_datastream d)),
           nd_ObservedProperty := map_option (resolved_reference nop_id
               (map erase_observed_property (sd_ObservedProperties sta)))
               (nd_ObservedProperty (erase_datastream d)),
           nd_Observations :=
             (if matching_observations sta d = [] then nd_Observations (erase_datastream d)
              else Some (matching_observations sta d))\<rparr>"
    by (simp add: nested_datastream_def [of "erase_sta sta"] matching_observations_erase)
  also have "\<dots> = erase_datastream (nested_datastream sta d)"
    by (simp add: erase_datastream_def nested_datastream_def s p)
  finally show ?thesis .
qed

lemma locations_of_erase:
  "locations_of (erase_sta sta) tid = map erase_location (locations_of sta tid)"
  by (simp add: locations_of_def filter_map comp_def)

lemma datastreams_for_erase:
  "datastreams_for (erase_sta sta) tid = map erase_datastream (datastreams_for sta tid)"
  by (simp add: datastreams_for_def filter_map comp_def)

lemma assigned_id_erase:
  "k < length (sd_Things sta) \<Longrightarrow> assigned_id (erase_sta sta) k = assigned_id sta k"
  by (simp add: assigned_id_def)

lemma nested_thing_erase:
  assumes "k < length (sd_Things sta)"
  shows "nested_thing (erase_sta sta) k
           = (nested_thing sta k)
               \<lparr>nt_name := NaN,
                nt_Locations := map_option (map erase_location) (nt_Locations (nested_thing sta k)),
                nt_Datastreams :=
                  map_option (map erase_datastream) (nt_Datastreams (nested_thing sta k))\<rparr>"
  using assms
  by (simp add: nested_thing_def thing_head_def assigned_id_erase locations_of_erase
        datastreams_for_erase nested_datastream_erase erase_thing_def)

lemma n_construct_nested_structure_erase:
  "n_construct_nested_structure (erase_sta sta) = erase_names (n_construct_nested_structure sta)"
proof -
  have "map (nested_thing (erase_sta sta)) [0 ..< length (sd_Things sta)]
      = map (erase_thing \<circ> nested_thing sta) [0 ..< length (sd_Things sta)]"
    by (rule map_cong [OF refl]) (simp add: nested_thing_erase erase_thing_def)
  then show ?thesis
    by (simp add: n_construct_nested_structure_eq erase_names_def)
qed

lemma erase_names_ids: "ids_of (erase_names d) = ids_of d"
  by (simp add: ids_of_def erase_names_def comp_def)

lemma n_excel_to_sensorthings_up_to_names:
  "map_sum id erase_names (n_excel_to_sensorthings B U1 excel_data)
     = map_sum id erase_names (n_excel_to_sensorthings B U2 excel_data)"
proof -
  have "rel_sum (=) same_up_to_names (read_tables B U1 excel_data) (read_tables B U2 excel_data)"
    by (rule read_tables_related)
  then show ?thesis
  proof (cases "read_tables B U1 excel_data"; cases "read_tables B U2 excel_data")
    fix st1 st2
    assume 1: "read_tables B U1 excel_data = Inr st1"
      and 2: "read_tables B U2 excel_data = Inr st2"
      and "rel_sum (=) same_up_to_names (read_tables B U1 excel_data) (read_tables B U2 excel_data)"
    then have "erase_sta (snd st1) = erase_sta (snd st2)"
      by (simp add: same_up_to_names_def)
    then have "erase_names (n_construct_nested_structure (snd st1))
        = erase_names (n_construct_nested_structure (snd st2))"
      by (simp add: n_construct_nested_structure_erase [symmetric])
    with 1 2 show ?thesis by (simp add: n_excel_to_sensorthings_def)
  qed (simp_all add: n_excel_to_sensorthings_def)
qed

lemma n_excel_to_sensorthings_ids:
  "map_sum id ids_of (n_excel_to_sensorthings B U1 excel_data)
     = map_sum id ids_of (n_excel_to_sensorthings B U2 excel_data)"
proof -
  have "map_sum id ids_of (n_excel_to_sensorthings B U excel_data)
      = map_sum id ids_of (map_sum id erase_names (n_excel_to_sensorthings B U excel_data))"
    for U
    by (cases "n_excel_to_sensorthings B U excel_data") (simp_all add: erase_names_ids)
  then show ?thesis
    by (simp add: n_excel_to_sensorthings_up_to_names [of B U1 excel_data U2])
qed

lemma named_rows:
  assumes "all_named excel_data"
  shows "\<forall>r \<in> set (rows_of excel_data ''Things''). map_of r ''name'' \<noteq> None"
    and "\<forall>r \<in> set (rows_of excel_data ''Locations''). map_of r ''name'' \<noteq> None"
    and "\<forall>r \<in> set (rows_of excel_data ''ObservedProperties''). map_of r ''name'' \<noteq> None"
    and "\<forall>r \<in> set (rows_of excel_data ''Sensors''). map_of r ''name'' \<noteq> None"
    and "\<forall>r \<in> set (rows_of excel_data ''Datastreams''). map_of r ''name'' \<noteq> None"
  using assms by (simp_all add: all_named_def list_all_iff)

lemma named_row_functions:
  assumes "map_of r ''name'' \<noteq> None"
  shows "thing_row B U1 r st = thing_row B U2 r st"
    and "location_row B U1 r st = location_row B U2 r st"
    and "observed_property_row B U1 r st = observed_property_row B U2 r st"
    and "sensor_row B U1 r st = sensor_row B U2 r st"
    and "datastream_row B U1 r st = datastream_row B U2 r st"
proof -
  from assms obtain v where "map_of r ''name'' = Some v" by auto
  then have n: "\<And>d. row_get r ''name'' d = v" by (simp add: row_get_def)
  show "thing_row B U1 r st = thing_row B U2 r st"
    and "location_row B U1 r st = location_row B U2 r st"
    and "observed_property_row B U1 r st = observed_property_row B U2 r st"
    and "sensor_row B U1 r st = sensor_row B U2 r st"
    and "datastream_row B U1 r st = datastream_row B U2 r st"
    by (simp_all add: thing_row_def location_row_def observed_property_row_def sensor_row_def
          datastream_row_def n split: sum.splits)
qed

lemma observation_row_no_uuid: "observation_row B U1 = observation_row B U2"
  by (intro ext) (simp add: observation_row_def)

lemma read_tables_named:
  assumes "all_named excel_data"
  shows "read_tables B U1 excel_data = read_tables B U2 excel_data"
proof -
  note n = named_rows [OF assms]
  have eq: "read_table excel_data ''Things'' (thing_row B U1)
       = read_table excel_data ''Things'' (thing_row B U2)"
    "read_table excel_data ''Locations'' (location_row B U1)
       = read_table excel_data ''Locations'' (location_row B U2)"
    "read_table excel_data ''ObservedProperties'' (observed_property_row B U1)
       = read_table excel_data ''ObservedProperties'' (observed_property_row B U2)"
    "read_table excel_data ''Sensors'' (sensor_row B U1)
       = read_table excel_data ''Sensors'' (sensor_row B U2)"
    "read_table excel_data ''Datastreams'' (datastream_row B U1)
       = read_table excel_data ''Datastreams'' (datastream_row B U2)"
    unfolding read_table_rows
    using n by (auto intro!: ext for_each_cong_set named_row_functions)
  show ?thesis
    unfolding read_tables_def eq observation_row_no_uuid [of B U1 U2] by (rule refl)
qed

section \<open>The assembly writes to its copies only\<close>

lemma preserves_refl: "preserves M M"
  by (simp add: preserves_def)

lemma preserves_trans: "preserves M1 M2 \<Longrightarrow> preserves M2 M3 \<Longrightarrow> preserves M1 M3"
  by (auto simp: preserves_def)

lemma prefix_update_beyond:
  assumes "prefix xs ys" and "length xs \<le> a"
  shows "prefix xs (ys[a := v])"
proof -
  from assms(1) obtain zs where ys: "ys = xs @ zs" by (auto simp: prefix_def)
  with assms(2) have "ys[a := v] = xs @ zs[a - length xs := v]"
    by (simp add: list_update_append)
  then show ?thesis by simp
qed

lemma copy_observation_preserves: "preserves M (snd (copy_observation a M))"
  by (simp add: copy_observation_def preserves_def)

lemma copy_datastream_preserves: "preserves M (snd (copy_datastream a M))"
  by (simp add: copy_datastream_def preserves_def)

lemma copy_thing_preserves: "preserves M (snd (copy_thing a M))"
  by (simp add: copy_thing_def preserves_def)

lemma pop_Datastream_preserves:
  assumes "preserves M M'" and "length (h_observations M) \<le> a"
  shows "preserves M (pop_Datastream a M')"
  using assms by (simp add: preserves_def pop_Datastream_def prefix_update_beyond)

lemma set_Observations_preserves:
  assumes "preserves M M'" and "length (h_datastreams M) \<le> a"
  shows "preserves M (set_Observations a v M')"
  using assms by (simp add: preserves_def set_Observations_def prefix_update_beyond)

lemma set_Locations_preserves:
  assumes "preserves M M'" and "length (h_things M) \<le> a"
  shows "preserves M (set_Locations a v M')"
  using assms by (simp add: preserves_def set_Locations_def prefix_update_beyond)

lemma set_Datastreams_preserves:
  assumes "preserves M M'" and "length (h_things M) \<le> a"
  shows "preserves M (set_Datastreams a v M')"
  using assms by (simp add: preserves_def set_Datastreams_def prefix_update_beyond)

lemma for_each_preserves:
  assumes "\<And>x st st'. f x st = Inr st' \<Longrightarrow> preserves (fst st) (fst st')"
    and "for_each f xs st = Inr st'"
  shows "preserves (fst st) (fst st')"
proof -
  have "preserves (fst st) (fst st')"
  proof (rule for_each_invariant [where P = "\<lambda>x. preserves (fst st) (fst x)", OF _ _ assms(2)])
    show "preserves (fst st) (fst st)" by (rule preserves_refl)
  next
    fix x s s'
    assume "preserves (fst st) (fst s)" and "f x s = Inr s'"
    then show "preserves (fst st) (fst s')"
      using assms(1) preserves_trans by blast
  qed
  then show ?thesis .
qed

lemma h_observation_step_preserves:
  assumes "h_observation_step d a st = Inr st'"
  shows "preserves (fst st) (fst st')"
proof (cases "ho_Datastream (h_observations (fst st) ! a)")
  case None
  with assms show ?thesis by (simp add: h_observation_step_def)
next
  case (Some i)
  show ?thesis
  proof (cases "i = d_id (hd_entity (h_datastreams (fst st) ! d))")
    case False
    with Some assms show ?thesis by (auto simp: h_observation_step_def preserves_refl)
  next
    case True
    have "preserves (fst st)
            (pop_Datastream (fst (copy_observation a (fst st))) (snd (copy_observation a (fst st))))"
      by (rule pop_Datastream_preserves [OF copy_observation_preserves])
         (simp add: copy_observation_def)
    with Some True assms show ?thesis
      by (auto simp: h_observation_step_def case_prod_beta Let_def)
  qed
qed

lemma h_datastream_step_preserves:
  assumes "h_datastream_step t entry st = Inr st'"
  shows "preserves (fst st) (fst st')"
proof (cases "startswith (fst entry) (t_id (ht_entity (h_things (fst st) ! t)))")
  case False
  with assms show ?thesis by (auto simp: h_datastream_step_def preserves_refl)
next
  case True
  let ?c = "fst (copy_datastream (snd entry) (fst st))"
  let ?M1 = "snd (copy_datastream (snd entry) (fst st))"
  from True assms obtain M2 os where
    loop: "for_each (h_observation_step (snd entry)) (m_observations ?M1) (?M1, []) = Inr (M2, os)"
    and st': "fst st' = (if os \<noteq> [] then set_Observations ?c os M2 else M2)"
    by (auto simp: h_datastream_step_def case_prod_beta Let_def split: sum.splits)
  have "preserves ?M1 M2"
    using for_each_preserves [OF h_observation_step_preserves loop] by simp
  with copy_datastream_preserves have p: "preserves (fst st) M2"
    by (rule preserves_trans)
  have "length (h_datastreams (fst st)) \<le> ?c"
    by (simp add: copy_datastream_def)
  from set_Observations_preserves [OF p this] p show ?thesis
    by (simp add: st')
qed

lemma h_thing_step_preserves:
  assumes "h_thing_step entry st = Inr st'"
  shows "preserves (fst st) (fst st')"
proof -
  let ?c = "fst (copy_thing (snd entry) (fst st))"
  let ?M1 = "snd (copy_thing (snd entry) (fst st))"
  let ?M2 = "case map_of (m_locations ?M1) (t_id (ht_entity (h_things ?M1 ! snd entry))) of
               None \<Rightarrow> ?M1 | Some l \<Rightarrow> set_Locations ?c [l] ?M1"
  from assms obtain M3 ds where
    loop: "for_each (h_datastream_step (snd entry)) (m_datastreams ?M2) (?M2, []) = Inr (M3, ds)"
    and st': "fst st' = (if ds \<noteq> [] then set_Datastreams ?c ds M3 else M3)"
    by (auto simp: h_thing_step_def case_prod_beta Let_def split: sum.splits)
  have c: "length (h_things (fst st)) \<le> ?c"
    by (simp add: copy_thing_def)
  have "preserves (fst st) ?M2"
    using copy_thing_preserves [of "fst st" "snd entry"]
      set_Locations_preserves [OF copy_thing_preserves c]
    by (simp split: option.splits)
  moreover have "preserves ?M2 M3"
    using for_each_preserves [OF h_datastream_step_preserves loop] by simp
  ultimately have p: "preserves (fst st) M3"
    by (rule preserves_trans)
  from set_Datastreams_preserves [OF p c] p show ?thesis
    by (simp add: st')
qed

lemma h_assemble_preserves:
  assumes "h_assemble M = Inr r"
  shows "preserves M (fst r)"
  using for_each_preserves [OF h_thing_step_preserves assms [unfolded h_assemble_def]]
  by simp

section \<open>Observations with their back-reference\<close>

lemma prefix_nth: "prefix xs ys \<Longrightarrow> a < length xs \<Longrightarrow> ys ! a = xs ! a"
  by (auto simp: prefix_def nth_append)

lemma preserves_linked:
  assumes "preserves M M'" and "observations_linked M"
  shows "observations_linked M'"
proof -
  from assms(1) have p: "prefix (h_observations M) (h_observations M')"
    and m: "m_observations M' = m_observations M"
    by (simp_all add: preserves_def)
  have "a < length (h_observations M') \<and> ho_Datastream (h_observations M' ! a) \<noteq> None"
    if "a < length (h_observations M)" and "ho_Datastream (h_observations M ! a) \<noteq> None" for a
    using that prefix_nth [OF p that(1)] prefix_length_le [OF p] by simp
  with assms(2) show ?thesis
    by (auto simp: observations_linked_def m list_all_iff)
qed

lemma load_linked: "observations_linked (load s)"
  by (simp add: observations_linked_def load_def list_all_iff)

lemma prefix_take: "prefix xs ys \<Longrightarrow> take (length xs) ys = xs"
  by (auto simp: prefix_def)

section \<open>The document that the assembly on the store yields\<close>

lemma h_observation_step_match:
  assumes "ho_Datastream (h_observations M ! a) = Some (d_id (hd_entity (h_datastreams M ! d)))"
  shows "h_observation_step d a (M, acc) =
           Inr (M\<lparr>h_observations := h_observations M
                     @ [(h_observations M ! a)\<lparr>ho_Datastream := None\<rparr>]\<rparr>,
                acc @ [length (h_observations M)])"
  using assms
  by (simp add: h_observation_step_def copy_observation_def pop_Datastream_def)

lemma h_observation_step_other:
  assumes "ho_Datastream (h_observations M ! a) = Some i"
    and "i \<noteq> d_id (hd_entity (h_datastreams M ! d))"
  shows "h_observation_step d a (M, acc) = Inr (M, acc)"
  using assms by (simp add: h_observation_step_def)

lemma deref_observation_cong:
  "h_observations M' ! a = h_observations M ! a \<Longrightarrow> deref_observation M' a = deref_observation M a"
  by (simp add: deref_observation_def)

lemma preserves_observation:
  assumes "preserves M M'" and "a < length (h_observations M)"
  shows "h_observations M' ! a = h_observations M ! a"
  using assms by (simp add: preserves_def prefix_nth)

lemma preserves_datastream:
  assumes "preserves M M'" and "a < length (h_datastreams M)"
  shows "h_datastreams M' ! a = h_datastreams M ! a"
  using assms by (simp add: preserves_def prefix_nth)

lemma preserves_thing:
  assumes "preserves M M'" and "a < length (h_things M)"
  shows "h_things M' ! a = h_things M ! a"
  using assms by (simp add: preserves_def prefix_nth)

lemma preserves_lengths:
  assumes "preserves M M'"
  shows "length (h_observations M) \<le> length (h_observations M')"
    and "length (h_datastreams M) \<le> length (h_datastreams M')"
    and "length (h_things M) \<le> length (h_things M')"
  using assms by (simp_all add: preserves_def prefix_length_le)

lemma observation_loop:
  assumes "\<forall>a \<in> set as. a < length (h_observations M)
             \<and> ho_Datastream (h_observations M ! a) \<noteq> None"
  shows "\<exists>M' new. for_each (h_observation_step d) as (M, acc) = Inr (M', acc @ new)
      \<and> preserves M M' \<and> h_datastreams M' = h_datastreams M \<and> h_things M' = h_things M
      \<and> (\<forall>c \<in> set new. c < length (h_observations M'))
      \<and> map (deref_observation M') new
          = map (deref_observation M)
              (filter (\<lambda>a. ho_Datastream (h_observations M ! a)
                            = Some (d_id (hd_entity (h_datastreams M ! d)))) as)"
  using assms
proof (induction as arbitrary: M acc)
  case Nil
  then show ?case by (simp add: preserves_refl)
next
  case (Cons a as)
  let ?target = "d_id (hd_entity (h_datastreams M ! d))"
  from Cons.prems obtain i where i: "ho_Datastream (h_observations M ! a) = Some i"
    and a: "a < length (h_observations M)"
    by auto
  show ?case
  proof (cases "i = ?target")
    case False
    from Cons.IH [of M acc] Cons.prems obtain M' new where
      "for_each (h_observation_step d) as (M, acc) = Inr (M', acc @ new)"
      "preserves M M'" "h_datastreams M' = h_datastreams M" "h_things M' = h_things M"
      "\<forall>c \<in> set new. c < length (h_observations M')"
      "map (deref_observation M') new
          = map (deref_observation M)
              (filter (\<lambda>a. ho_Datastream (h_observations M ! a) = Some ?target) as)"
      by auto
    with False i show ?thesis
      by (simp add: h_observation_step_other [OF i False])
  next
    case True
    let ?c = "length (h_observations M)"
    let ?M2 = "M\<lparr>h_observations := h_observations M
                     @ [(h_observations M ! a)\<lparr>ho_Datastream := None\<rparr>]\<rparr>"
    have step: "h_observation_step d a (M, acc) = Inr (?M2, acc @ [?c])"
      using i True by (simp add: h_observation_step_match)
    have p2: "preserves M ?M2" by (simp add: preserves_def)
    have old: "h_observations ?M2 ! x = h_observations M ! x" if "x < length (h_observations M)" for x
      using that by (simp add: nth_append)
    have prem: "\<forall>x \<in> set as. x < length (h_observations ?M2)
             \<and> ho_Datastream (h_observations ?M2 ! x) \<noteq> None"
      using Cons.prems by (auto simp: nth_append)
    from Cons.IH [OF prem, of "acc @ [?c]"] obtain M' new where
      run: "for_each (h_observation_step d) as (?M2, acc @ [?c]) = Inr (M', (acc @ [?c]) @ new)"
      and p: "preserves ?M2 M'" and hd: "h_datastreams M' = h_datastreams ?M2"
      and ht: "h_things M' = h_things ?M2"
      and valid: "\<forall>c \<in> set new. c < length (h_observations M')"
      and vals: "map (deref_observation M') new
          = map (deref_observation ?M2)
              (filter (\<lambda>x. ho_Datastream (h_observations ?M2 ! x)
                            = Some (d_id (hd_entity (h_datastreams ?M2 ! d)))) as)"
      by blast
    have f: "filter (\<lambda>x. ho_Datastream (h_observations ?M2 ! x)
                            = Some (d_id (hd_entity (h_datastreams ?M2 ! d)))) as
        = filter (\<lambda>x. ho_Datastream (h_observations M ! x) = Some ?target) as"
      by (rule filter_cong [OF refl]) (use Cons.prems in \<open>simp add: nth_append\<close>)
    have m: "map (deref_observation ?M2)
               (filter (\<lambda>x. ho_Datastream (h_observations M ! x) = Some ?target) as)
        = map (deref_observation M)
               (filter (\<lambda>x. ho_Datastream (h_observations M ! x) = Some ?target) as)"
      by (rule map_cong [OF refl], rule deref_observation_cong)
         (use Cons.prems in \<open>simp add: nth_append\<close>)
    have c: "?c < length (h_observations M')"
      using preserves_lengths(1) [OF p] by simp
    have "h_observations M' ! ?c = h_observations ?M2 ! ?c"
      by (rule preserves_observation [OF p]) simp
    then have dc: "deref_observation M' ?c = deref_observation M a"
      by (simp add: deref_observation_def)
    have "for_each (h_observation_step d) (a # as) (M, acc) = Inr (M', acc @ (?c # new))"
      using step run by simp
    moreover have "preserves M M'" using p2 p by (rule preserves_trans)
    moreover have "h_datastreams M' = h_datastreams M" "h_things M' = h_things M"
      using hd ht by simp_all
    moreover have "\<forall>x \<in> set (?c # new). x < length (h_observations M')"
      using valid c by simp
    moreover have "map (deref_observation M') (?c # new)
          = map (deref_observation M)
              (filter (\<lambda>x. ho_Datastream (h_observations M ! x) = Some ?target) (a # as))"
      using i True dc vals f m by simp
    ultimately show ?thesis by blast
  qed
qed

lemma datastream_closed_preserves:
  assumes "preserves M M'" and "datastream_closed M c"
  shows "datastream_closed M' c" and "deref_datastream M' c = deref_datastream M c"
proof -
  from assms(2) have c: "c < length (h_datastreams M)"
    by (simp add: datastream_closed_def)
  have obj: "h_datastreams M' ! c = h_datastreams M ! c"
    by (rule preserves_datastream [OF assms(1) c])
  note l = preserves_lengths [OF assms(1)]
  show "datastream_closed M' c"
    using assms(2) l
    by (auto simp: datastream_closed_def obj list_all_iff split: option.splits)
  show "deref_datastream M' c = deref_datastream M c"
  proof (cases "hd_Observations (h_datastreams M ! c)")
    case None
    then show ?thesis by (simp add: deref_datastream_def obj)
  next
    case (Some os)
    with assms(2) have "\<forall>a \<in> set os. a < length (h_observations M)"
      by (simp add: datastream_closed_def list_all_iff)
    then have "map (deref_observation M') os = map (deref_observation M) os"
      by (intro map_cong [OF refl] deref_observation_cong preserves_observation [OF assms(1)]) simp
    with Some show ?thesis by (simp add: deref_datastream_def obj)
  qed
qed

lemma linked_addresses:
  assumes "observations_linked M" and "a \<in> set (m_observations M)"
  shows "a < length (h_observations M)" and "ho_Datastream (h_observations M ! a) \<noteq> None"
  using assms by (auto simp: observations_linked_def list_all_iff)

lemma selected_observations_preserved:
  assumes "preserves M M'" and "observations_linked M" and "d < length (h_datastreams M)"
  shows "selected_observations M' d = selected_observations M d"
proof -
  have m: "m_observations M' = m_observations M"
    using assms(1) by (simp add: preserves_def)
  have d: "h_datastreams M' ! d = h_datastreams M ! d"
    by (rule preserves_datastream [OF assms(1,3)])
  show ?thesis
    unfolding selected_observations_def m d
    by (rule filter_cong [OF refl])
       (simp add: preserves_observation [OF assms(1) linked_addresses(1) [OF assms(2)]])
qed

lemma assembled_datastream_preserved:
  assumes "preserves M M'" and "observations_linked M" and "d < length (h_datastreams M)"
  shows "assembled_datastream M' d = assembled_datastream M d"
proof -
  have "map (deref_observation M') (selected_observations M d)
      = map (deref_observation M) (selected_observations M d)"
    by (intro map_cong [OF refl] deref_observation_cong preserves_observation [OF assms(1)]
          linked_addresses(1) [OF assms(2)])
       (simp add: selected_observations_def)
  then show ?thesis
    by (simp add: assembled_datastream_def selected_observations_preserved [OF assms]
          preserves_datastream [OF assms(1,3)])
qed

lemma h_datastream_step_skipped:
  assumes "\<not> startswith (fst e) (t_id (ht_entity (h_things M ! t)))"
  shows "h_datastream_step t e (M, acc) = Inr (M, acc)"
  using assms by (simp add: h_datastream_step_def)

lemma h_datastream_step_selected:
  assumes sel: "startswith (fst e) (t_id (ht_entity (h_things M ! t)))"
    and linked: "observations_linked M"
    and d: "snd e < length (h_datastreams M)"
    and bare: "hd_Observations (h_datastreams M ! snd e) = None"
  shows "\<exists>M3. h_datastream_step t e (M, acc) = Inr (M3, acc @ [length (h_datastreams M)])
      \<and> preserves M M3 \<and> h_things M3 = h_things M
      \<and> datastream_closed M3 (length (h_datastreams M))
      \<and> deref_datastream M3 (length (h_datastreams M)) = assembled_datastream M (snd e)"
proof -
  let ?c = "length (h_datastreams M)"
  let ?M1 = "M\<lparr>h_datastreams := h_datastreams M @ [h_datastreams M ! snd e]\<rparr>"
  have copy: "copy_datastream (snd e) M = (?c, ?M1)"
    by (simp add: copy_datastream_def)
  have p1: "preserves M ?M1" by (simp add: preserves_def)
  have prem: "\<forall>a \<in> set (m_observations M). a < length (h_observations ?M1)
             \<and> ho_Datastream (h_observations ?M1 ! a) \<noteq> None"
    using linked_addresses [OF linked] by simp
  from observation_loop [OF prem, of "snd e" "[]"] obtain M2 os where
    run: "for_each (h_observation_step (snd e)) (m_observations M) (?M1, []) = Inr (M2, os)"
    and p2: "preserves ?M1 M2" and hd: "h_datastreams M2 = h_datastreams ?M1"
    and ht: "h_things M2 = h_things ?M1"
    and valid: "\<forall>c \<in> set os. c < length (h_observations M2)"
    and vals: "map (deref_observation M2) os
          = map (deref_observation ?M1)
              (filter (\<lambda>a. ho_Datastream (h_observations ?M1 ! a)
                            = Some (d_id (hd_entity (h_datastreams ?M1 ! snd e))))
                 (m_observations M))"
    by auto
  have "map (deref_observation ?M1)
              (filter (\<lambda>a. ho_Datastream (h_observations ?M1 ! a)
                            = Some (d_id (hd_entity (h_datastreams ?M1 ! snd e))))
                 (m_observations M))
      = map (deref_observation M) (selected_observations M (snd e))"
    using d by (simp add: selected_observations_def nth_append deref_observation_def)
  with vals have vals': "map (deref_observation M2) os
      = map (deref_observation M) (selected_observations M (snd e))"
    by simp
  then have empty: "os = [] \<longleftrightarrow> selected_observations M (snd e) = []"
    by (metis map_is_Nil_conv)
  let ?M3 = "if os \<noteq> [] then set_Observations ?c os M2 else M2"
  have step: "h_datastream_step t e (M, acc) = Inr (?M3, acc @ [?c])"
    using sel run by (simp add: h_datastream_step_def copy)
  have p: "preserves M M2" using p1 p2 by (rule preserves_trans)
  have p3: "preserves M ?M3"
    using p set_Observations_preserves [OF p, of ?c os] by simp
  have t3: "h_things ?M3 = h_things M"
    using ht by (simp add: set_Observations_def)
  have o3: "h_observations ?M3 = h_observations M2"
    by (simp add: set_Observations_def)
  have obj: "h_datastreams ?M3 ! ?c =
      (if os \<noteq> [] then (h_datastreams M ! snd e)\<lparr>hd_Observations := Some os\<rparr>
       else h_datastreams M ! snd e)"
    by (simp add: set_Observations_def hd)
  have len: "?c < length (h_datastreams ?M3)"
    by (simp add: set_Observations_def hd)
  have closed: "datastream_closed ?M3 ?c"
    unfolding datastream_closed_def obj o3 using len valid bare
    by (simp add: list_all_iff)
  have "map (deref_observation ?M3) os = map (deref_observation M2) os"
    by (rule map_cong [OF refl], rule deref_observation_cong) (simp add: o3)
  with vals' have v3: "map (deref_observation ?M3) os
      = map (deref_observation M) (selected_observations M (snd e))"
    by simp
  have val: "deref_datastream ?M3 ?c = assembled_datastream M (snd e)"
  proof (cases "os = []")
    case True
    with empty bare show ?thesis
      by (simp add: deref_datastream_def assembled_datastream_def hd)
  next
    case False
    with empty have "selected_observations M (snd e) \<noteq> []" by simp
    with False v3 show ?thesis
      unfolding deref_datastream_def assembled_datastream_def obj by simp
  qed
  from step p3 t3 closed val show ?thesis by blast
qed

lemma datastream_loop:
  assumes "observations_linked M"
    and "\<forall>e \<in> set es. snd e < length (h_datastreams M)
           \<and> hd_Observations (h_datastreams M ! snd e) = None"
  shows "\<exists>M' new. for_each (h_datastream_step t) es (M, acc) = Inr (M', acc @ new)
      \<and> preserves M M' \<and> h_things M' = h_things M
      \<and> (\<forall>c \<in> set new. datastream_closed M' c)
      \<and> map (deref_datastream M') new
          = map (\<lambda>e. assembled_datastream M (snd e))
              (filter (\<lambda>e. startswith (fst e) (t_id (ht_entity (h_things M ! t)))) es)"
  using assms
proof (induction es arbitrary: M acc)
  case Nil
  then show ?case by (simp add: preserves_refl)
next
  case (Cons e es)
  show ?case
  proof (cases "startswith (fst e) (t_id (ht_entity (h_things M ! t)))")
    case False
    from Cons.IH [of M acc] Cons.prems obtain M' new where
      "for_each (h_datastream_step t) es (M, acc) = Inr (M', acc @ new)"
      "preserves M M'" "h_things M' = h_things M" "\<forall>c \<in> set new. datastream_closed M' c"
      "map (deref_datastream M') new
          = map (\<lambda>e. assembled_datastream M (snd e))
              (filter (\<lambda>e. startswith (fst e) (t_id (ht_entity (h_things M ! t)))) es)"
      by auto
    with False show ?thesis
      by (simp add: h_datastream_step_skipped [OF False])
  next
    case True
    let ?c = "length (h_datastreams M)"
    from Cons.prems have e: "snd e < length (h_datastreams M)"
      "hd_Observations (h_datastreams M ! snd e) = None"
      by simp_all
    from h_datastream_step_selected [OF True Cons.prems(1) e, of acc] obtain M3 where
      step: "h_datastream_step t e (M, acc) = Inr (M3, acc @ [?c])"
      and p3: "preserves M M3" and t3: "h_things M3 = h_things M"
      and closed: "datastream_closed M3 ?c"
      and val: "deref_datastream M3 ?c = assembled_datastream M (snd e)"
      by blast
    have l3: "observations_linked M3"
      by (rule preserves_linked [OF p3 Cons.prems(1)])
    have b3: "\<forall>x \<in> set es. snd x < length (h_datastreams M3)
           \<and> hd_Observations (h_datastreams M3 ! snd x) = None"
      using Cons.prems(2) preserves_lengths(2) [OF p3] preserves_datastream [OF p3]
      by auto
    from Cons.IH [OF l3 b3, of "acc @ [?c]"] obtain M' new where
      run: "for_each (h_datastream_step t) es (M3, acc @ [?c]) = Inr (M', (acc @ [?c]) @ new)"
      and p: "preserves M3 M'" and t': "h_things M' = h_things M3"
      and cl: "\<forall>c \<in> set new. datastream_closed M' c"
      and vals: "map (deref_datastream M') new
          = map (\<lambda>e. assembled_datastream M3 (snd e))
              (filter (\<lambda>e. startswith (fst e) (t_id (ht_entity (h_things M3 ! t)))) es)"
      by blast
    have same: "map (\<lambda>e. assembled_datastream M3 (snd e))
              (filter (\<lambda>e. startswith (fst e) (t_id (ht_entity (h_things M ! t)))) es)
        = map (\<lambda>e. assembled_datastream M (snd e))
              (filter (\<lambda>e. startswith (fst e) (t_id (ht_entity (h_things M ! t)))) es)"
      by (rule map_cong [OF refl])
         (use Cons.prems(2) in \<open>simp add: assembled_datastream_preserved [OF p3 Cons.prems(1)]\<close>)
    have "for_each (h_datastream_step t) (e # es) (M, acc) = Inr (M', acc @ (?c # new))"
      using step run by simp
    moreover have "preserves M M'" using p3 p by (rule preserves_trans)
    moreover have "h_things M' = h_things M" using t' t3 by simp
    moreover have "\<forall>c \<in> set (?c # new). datastream_closed M' c"
      using cl datastream_closed_preserves(1) [OF p closed] by simp
    moreover have "map (deref_datastream M') (?c # new)
          = map (\<lambda>e. assembled_datastream M (snd e))
              (filter (\<lambda>e. startswith (fst e) (t_id (ht_entity (h_things M ! t)))) (e # es))"
      using True vals same val datastream_closed_preserves(2) [OF p closed]
      by (simp add: t3)
    ultimately show ?thesis by blast
  qed
qed

lemma deref_datastream_cong:
  assumes "h_datastreams M' = h_datastreams M" and "h_observations M' = h_observations M"
  shows "deref_datastream M' c = deref_datastream M c"
    and "datastream_closed M' c = datastream_closed M c"
proof -
  have "deref_observation M' = deref_observation M"
    by (rule ext) (simp add: deref_observation_def assms(2))
  then show "deref_datastream M' c = deref_datastream M c"
    by (simp add: deref_datastream_def assms(1) cong: option.case_cong)
  show "datastream_closed M' c = datastream_closed M c"
    by (simp add: datastream_closed_def assms cong: option.case_cong)
qed

lemma thing_closed_preserves:
  assumes "preserves M M'" and "thing_closed M c"
  shows "thing_closed M' c" and "deref_thing M' c = deref_thing M c"
proof -
  from assms(2) have c: "c < length (h_things M)"
    by (simp add: thing_closed_def)
  have obj: "h_things M' ! c = h_things M ! c"
    by (rule preserves_thing [OF assms(1) c])
  note l = preserves_lengths [OF assms(1)]
  show "thing_closed M' c"
    using assms(2) l datastream_closed_preserves(1) [OF assms(1)]
    by (auto simp: thing_closed_def obj list_all_iff split: option.splits)
  show "deref_thing M' c = deref_thing M c"
  proof (cases "ht_Datastreams (h_things M ! c)")
    case None
    then show ?thesis by (simp add: deref_thing_def obj cong: option.case_cong)
  next
    case (Some ds)
    with assms(2) have "\<forall>a \<in> set ds. datastream_closed M a"
      by (simp add: thing_closed_def list_all_iff)
    then have "map (deref_datastream M') ds = map (deref_datastream M) ds"
      by (intro map_cong [OF refl] datastream_closed_preserves(2) [OF assms(1)]) simp
    with Some show ?thesis by (simp add: deref_thing_def obj cong: option.case_cong)
  qed
qed

lemma bare_addresses:
  assumes "datastreams_bare M" and "e \<in> set (m_datastreams M)"
  shows "snd e < length (h_datastreams M)"
    and "hd_Observations (h_datastreams M ! snd e) = None"
  using assms by (auto simp: datastreams_bare_def list_all_iff)

lemma preserves_bare:
  assumes "preserves M M'" and "datastreams_bare M"
  shows "datastreams_bare M'"
proof -
  have m: "m_datastreams M' = m_datastreams M"
    using assms(1) by (simp add: preserves_def)
  have "snd e < length (h_datastreams M')
      \<and> hd_Observations (h_datastreams M' ! snd e) = None"
    if "e \<in> set (m_datastreams M)" for e
    using bare_addresses [OF assms(2) that] preserves_lengths(2) [OF assms(1)]
      preserves_datastream [OF assms(1), of "snd e"]
    by simp
  then show ?thesis
    unfolding datastreams_bare_def m list_all_iff by blast
qed

lemma preserves_things_bare:
  assumes "preserves M M'" and "things_bare M es"
  shows "things_bare M' es"
proof -
  have "snd e < length (h_things M') \<and> ht_Locations (h_things M' ! snd e) = None
      \<and> ht_Datastreams (h_things M' ! snd e) = None"
    if "e \<in> set es" for e
  proof -
    from assms(2) that have e: "snd e < length (h_things M)"
      "ht_Locations (h_things M ! snd e) = None" "ht_Datastreams (h_things M ! snd e) = None"
      by (auto simp: things_bare_def list_all_iff)
    with preserves_lengths(3) [OF assms(1)] preserves_thing [OF assms(1) e(1)]
    show ?thesis by simp
  qed
  then show ?thesis
    unfolding things_bare_def list_all_iff by blast
qed

lemma selected_datastreams_preserved:
  assumes "preserves M M'" and "t < length (h_things M)"
  shows "selected_datastreams M' t = selected_datastreams M t"
proof -
  have m: "m_datastreams M' = m_datastreams M"
    using assms(1) by (simp add: preserves_def)
  show ?thesis
    by (simp add: selected_datastreams_def m preserves_thing [OF assms])
qed

lemma assembled_thing_preserved:
  assumes p: "preserves M M'" and linked: "observations_linked M"
    and bare: "datastreams_bare M" and t: "t < length (h_things M)"
  shows "assembled_thing M' t = assembled_thing M t"
proof -
  have l: "m_locations M' = m_locations M"
    using p by (simp add: preserves_def)
  have "map (\<lambda>e. assembled_datastream M' (snd e)) (selected_datastreams M t)
      = map (\<lambda>e. assembled_datastream M (snd e)) (selected_datastreams M t)"
    by (rule map_cong [OF refl])
       (simp add: selected_datastreams_def
          assembled_datastream_preserved [OF p linked bare_addresses(1) [OF bare]])
  then show ?thesis
    unfolding assembled_thing_def l selected_datastreams_preserved [OF p t]
      preserves_thing [OF p t] Let_def
    by simp
qed

lemma h_thing_step_result:
  assumes linked: "observations_linked M" and bare: "datastreams_bare M"
    and t: "snd e < length (h_things M)"
    and noloc: "ht_Locations (h_things M ! snd e) = None"
    and nods: "ht_Datastreams (h_things M ! snd e) = None"
  shows "\<exists>M4. h_thing_step e (M, acc) = Inr (M4, acc @ [length (h_things M)])
      \<and> preserves M M4 \<and> thing_closed M4 (length (h_things M))
      \<and> deref_thing M4 (length (h_things M)) = assembled_thing M (snd e)"
proof -
  let ?c = "length (h_things M)"
  let ?M1 = "M\<lparr>h_things := h_things M @ [h_things M ! snd e]\<rparr>"
  let ?tid = "t_id (ht_entity (h_things M ! snd e))"
  let ?M2 = "case map_of (m_locations M) ?tid of
               None \<Rightarrow> ?M1 | Some l \<Rightarrow> set_Locations ?c [l] ?M1"
  have copy: "copy_thing (snd e) M = (?c, ?M1)"
    by (simp add: copy_thing_def)
  have tid: "t_id (ht_entity (h_things ?M1 ! snd e)) = ?tid"
    using t by (simp add: nth_append)
  have loc: "m_locations ?M1 = m_locations M" by simp
  have p1: "preserves M ?M1" by (simp add: preserves_def)
  have p2: "preserves M ?M2"
    using p1 set_Locations_preserves [OF p1, of ?c] by (simp split: option.splits)
  have l2: "observations_linked ?M2" by (rule preserves_linked [OF p2 linked])
  have m2: "m_datastreams ?M2 = m_datastreams M"
    using p2 by (simp add: preserves_def)
  have b2: "\<forall>x \<in> set (m_datastreams M). snd x < length (h_datastreams ?M2)
           \<and> hd_Observations (h_datastreams ?M2 ! snd x) = None"
    using preserves_bare [OF p2 bare] by (simp add: datastreams_bare_def list_all_iff m2)
  have t2: "h_things ?M2 ! snd e = h_things M ! snd e"
    by (rule preserves_thing [OF p2 t])
  have c2: "h_things ?M2 ! ?c =
      (case map_of (m_locations M) ?tid of
         None \<Rightarrow> h_things M ! snd e
       | Some l \<Rightarrow> (h_things M ! snd e)\<lparr>ht_Locations := Some [l]\<rparr>)"
    by (simp add: set_Locations_def split: option.splits)
  have len2: "?c < length (h_things ?M2)"
    by (simp add: set_Locations_def split: option.splits)
  from datastream_loop [OF l2 b2, of "snd e" "[]"] obtain M3 ds where
    run: "for_each (h_datastream_step (snd e)) (m_datastreams M) (?M2, []) = Inr (M3, ds)"
    and p3: "preserves ?M2 M3" and ht: "h_things M3 = h_things ?M2"
    and closed: "\<forall>c \<in> set ds. datastream_closed M3 c"
    and vals: "map (deref_datastream M3) ds
          = map (\<lambda>x. assembled_datastream ?M2 (snd x))
              (filter (\<lambda>x. startswith (fst x) (t_id (ht_entity (h_things ?M2 ! snd e))))
                 (m_datastreams M))"
    by auto
  have "map (\<lambda>x. assembled_datastream ?M2 (snd x)) (selected_datastreams M (snd e))
      = map (\<lambda>x. assembled_datastream M (snd x)) (selected_datastreams M (snd e))"
    by (rule map_cong [OF refl])
       (simp add: selected_datastreams_def
          assembled_datastream_preserved [OF p2 linked bare_addresses(1) [OF bare]])
  with vals have vals': "map (deref_datastream M3) ds
      = map (\<lambda>x. assembled_datastream M (snd x)) (selected_datastreams M (snd e))"
    unfolding t2 selected_datastreams_def by simp
  then have empty: "ds = [] \<longleftrightarrow> selected_datastreams M (snd e) = []"
    by (metis map_is_Nil_conv)
  let ?M4 = "if ds \<noteq> [] then set_Datastreams ?c ds M3 else M3"
  have step: "h_thing_step e (M, acc) = Inr (?M4, acc @ [?c])"
    unfolding h_thing_step_def fst_conv snd_conv copy Let_def prod.case tid loc m2 run
    by simp
  have p: "preserves M M3" using p2 p3 by (rule preserves_trans)
  have p4: "preserves M ?M4"
    using p set_Datastreams_preserves [OF p, of ?c ds] by simp
  have d4: "h_datastreams ?M4 = h_datastreams M3" "h_observations ?M4 = h_observations M3"
    by (simp_all add: set_Datastreams_def)
  have obj: "h_things ?M4 ! ?c =
      (if ds \<noteq> [] then (h_things ?M2 ! ?c)\<lparr>ht_Datastreams := Some ds\<rparr> else h_things ?M2 ! ?c)"
    using len2 by (simp add: set_Datastreams_def ht)
  have len: "?c < length (h_things ?M4)"
    using len2 by (simp add: set_Datastreams_def ht)
  have cl4: "\<forall>c \<in> set ds. datastream_closed ?M4 c"
    unfolding deref_datastream_cong(2) [OF d4] by (rule closed)
  have closed4: "thing_closed ?M4 ?c"
    unfolding thing_closed_def obj c2 using len cl4 nods
    by (cases "ds = []") (simp_all add: list_all_iff split: option.splits)
  have "map (deref_datastream ?M4) ds = map (deref_datastream M3) ds"
    by (rule map_cong [OF refl]) (rule deref_datastream_cong(1) [OF d4])
  with vals' have v4: "map (deref_datastream ?M4) ds
      = map (\<lambda>x. assembled_datastream M (snd x)) (selected_datastreams M (snd e))"
    by simp
  have val: "deref_thing ?M4 ?c = assembled_thing M (snd e)"
  proof (cases "ds = []")
    case True
    with empty noloc nods show ?thesis
      unfolding deref_thing_def assembled_thing_def obj c2
      by (simp add: Let_def split: option.splits)
  next
    case False
    with empty have "selected_datastreams M (snd e) \<noteq> []" by simp
    with False v4 noloc nods show ?thesis
      unfolding deref_thing_def assembled_thing_def obj c2
      by (simp add: Let_def split: option.splits)
  qed
  from step p4 closed4 val show ?thesis by blast
qed

lemma thing_loop:
  assumes "observations_linked M" and "datastreams_bare M" and "things_bare M es"
  shows "\<exists>M' new. for_each h_thing_step es (M, acc) = Inr (M', acc @ new)
      \<and> preserves M M'
      \<and> (\<forall>c \<in> set new. thing_closed M' c)
      \<and> map (deref_thing M') new = map (\<lambda>e. assembled_thing M (snd e)) es"
  using assms
proof (induction es arbitrary: M acc)
  case Nil
  then show ?case by (simp add: preserves_refl)
next
  case (Cons e es)
  let ?c = "length (h_things M)"
  from Cons.prems(3) have e: "snd e < length (h_things M)"
    "ht_Locations (h_things M ! snd e) = None" "ht_Datastreams (h_things M ! snd e) = None"
    and rest: "things_bare M es"
    by (simp_all add: things_bare_def)
  from h_thing_step_result [OF Cons.prems(1,2) e, of acc] obtain M4 where
    step: "h_thing_step e (M, acc) = Inr (M4, acc @ [?c])"
    and p4: "preserves M M4" and closed: "thing_closed M4 ?c"
    and val: "deref_thing M4 ?c = assembled_thing M (snd e)"
    by blast
  have l4: "observations_linked M4" by (rule preserves_linked [OF p4 Cons.prems(1)])
  have b4: "datastreams_bare M4" by (rule preserves_bare [OF p4 Cons.prems(2)])
  have t4: "things_bare M4 es" by (rule preserves_things_bare [OF p4 rest])
  from Cons.IH [OF l4 b4 t4, of "acc @ [?c]"] obtain M' new where
    run: "for_each h_thing_step es (M4, acc @ [?c]) = Inr (M', (acc @ [?c]) @ new)"
    and p: "preserves M4 M'"
    and cl: "\<forall>c \<in> set new. thing_closed M' c"
    and vals: "map (deref_thing M') new = map (\<lambda>e. assembled_thing M4 (snd e)) es"
    by blast
  have same: "map (\<lambda>e. assembled_thing M4 (snd e)) es = map (\<lambda>e. assembled_thing M (snd e)) es"
    by (rule map_cong [OF refl])
       (use rest in \<open>simp add: things_bare_def list_all_iff
          assembled_thing_preserved [OF p4 Cons.prems(1,2)]\<close>)
  have "for_each h_thing_step (e # es) (M, acc) = Inr (M', acc @ (?c # new))"
    using step run by simp
  moreover have "preserves M M'" using p4 p by (rule preserves_trans)
  moreover have "\<forall>c \<in> set (?c # new). thing_closed M' c"
    using cl thing_closed_preserves(1) [OF p closed] by simp
  moreover have "map (deref_thing M') (?c # new)
      = map (\<lambda>e. assembled_thing M (snd e)) (e # es)"
    using vals same val thing_closed_preserves(2) [OF p closed] by simp
  ultimately show ?case by blast
qed

section \<open>The store of dictionaries and the stores by value yield the same document\<close>

lemma index_filter:
  "map (\<lambda>a. g (xs ! a)) (filter (\<lambda>a. P (xs ! a)) [0 ..< length xs]) = map g (filter P xs)"
proof -
  have "map g (filter P (map ((!) xs) [0 ..< length xs]))
      = map (\<lambda>a. g (xs ! a)) (filter (\<lambda>a. P (xs ! a)) [0 ..< length xs])"
    by (simp add: filter_map o_def del: map_nth)
  then show ?thesis unfolding map_nth by simp
qed

lemma zip_index:
  "zip (map f xs) [0 ..< length xs] = map (\<lambda>i. (f (xs ! i), i)) [0 ..< length xs]"
  by (rule nth_equalityI) simp_all

lemma load_observation:
  assumes "a < length (fv_observations s)"
  shows "deref_observation (load s) a = obs_copy (fv_observations s ! a)"
    and "ho_Datastream (h_observations (load s) ! a) = Some (so_Datastream (fv_observations s ! a))"
  using assms by (simp_all add: deref_observation_def load_def obs_copy_def)

lemma load_datastream:
  assumes "d < length (fv_datastreams s)"
  shows "hd_entity (h_datastreams (load s) ! d) = snd (fv_datastreams s ! d)"
  using assms by (simp add: load_def)

lemma load_thing:
  assumes "t < length (fv_things s)"
  shows "ht_entity (h_things (load s) ! t) = snd (fv_things s ! t)"
  using assms by (simp add: load_def)

lemma load_variables:
  "m_observations (load s) = [0 ..< length (fv_observations s)]"
  "m_datastreams (load s) = map (\<lambda>i. (fst (fv_datastreams s ! i), i)) [0 ..< length (fv_datastreams s)]"
  "m_things (load s) = map (\<lambda>i. (fst (fv_things s ! i), i)) [0 ..< length (fv_things s)]"
  "m_locations (load s) = fv_locations s"
  by (simp_all add: load_def zip_index)

lemma load_assembled_datastream:
  assumes d: "d < length (fv_datastreams s)"
  shows "assembled_datastream (load s) d
       = fv_datastream_with_observations s (snd (fv_datastreams s ! d))"
proof -
  let ?P = "\<lambda>ob. so_Datastream ob = d_id (snd (fv_datastreams s ! d))"
  let ?sel = "filter (\<lambda>a. ?P (fv_observations s ! a)) [0 ..< length (fv_observations s)]"
  have sel: "selected_observations (load s) d = ?sel"
    unfolding selected_observations_def load_variables load_datastream [OF d]
    by (rule filter_cong [OF refl]) (simp add: load_observation(2))
  have "map (deref_observation (load s)) ?sel
      = map (\<lambda>a. obs_copy (fv_observations s ! a)) ?sel"
    by (rule map_cong [OF refl]) (simp add: load_observation(1))
  also have "\<dots> = map obs_copy (filter ?P (fv_observations s))"
    by (rule index_filter)
  finally have vals: "map (deref_observation (load s)) ?sel
      = map obs_copy (filter ?P (fv_observations s))" .
  then have "?sel = [] \<longleftrightarrow> map obs_copy (filter ?P (fv_observations s)) = []"
    by (metis map_is_Nil_conv)
  with vals show ?thesis
    unfolding assembled_datastream_def fv_datastream_with_observations_def Let_def sel
      load_datastream [OF d]
    by simp
qed

lemma load_assembled_thing:
  assumes t: "t < length (fv_things s)"
  shows "assembled_thing (load s) t = fv_thing_with_relations s (snd (fv_things s ! t))"
proof -
  let ?tid = "t_id (snd (fv_things s ! t))"
  let ?P = "\<lambda>e :: string \<times> datastream. startswith (fst e) ?tid"
  let ?is = "filter (\<lambda>i. ?P (fv_datastreams s ! i)) [0 ..< length (fv_datastreams s)]"
  have sel: "selected_datastreams (load s) t
      = map (\<lambda>i. (fst (fv_datastreams s ! i), i)) ?is"
    unfolding selected_datastreams_def load_variables load_thing [OF t]
    by (simp add: filter_map o_def)
  have "map (\<lambda>e. assembled_datastream (load s) (snd e)) (selected_datastreams (load s) t)
      = map (\<lambda>i. assembled_datastream (load s) i) ?is"
    by (simp add: sel o_def)
  also have "\<dots> = map (\<lambda>i. fv_datastream_with_observations s (snd (fv_datastreams s ! i))) ?is"
    by (rule map_cong [OF refl]) (simp add: load_assembled_datastream)
  also have "\<dots> = map (\<lambda>e. fv_datastream_with_observations s (snd e))
                     (filter ?P (fv_datastreams s))"
    by (rule index_filter)
  also have "\<dots> = fv_thing_datastreams s (snd (fv_things s ! t))"
    by (simp add: fv_thing_datastreams_def case_prod_unfold)
  finally have vals:
    "map (\<lambda>e. assembled_datastream (load s) (snd e)) (selected_datastreams (load s) t)
      = fv_thing_datastreams s (snd (fv_things s ! t))" .
  then have "selected_datastreams (load s) t = []
      \<longleftrightarrow> fv_thing_datastreams s (snd (fv_things s ! t)) = []"
    by (metis map_is_Nil_conv)
  with vals show ?thesis
    unfolding assembled_thing_def fv_thing_with_relations_def Let_def
      load_thing [OF t] load_variables(4)
    by simp
qed

lemma load_bare: "datastreams_bare (load s)" "things_bare (load s) (m_things (load s))"
  by (simp_all add: datastreams_bare_def things_bare_def load_variables list_all_iff)
     (simp_all add: load_def)

lemma h_assemble_document:
  "\<exists>r. h_assemble (load s) = Inr r \<and> document_of r = fv_assemble s"
proof -
  from thing_loop [OF load_linked load_bare, of s "[]"] obtain M' new where
    run: "h_assemble (load s) = Inr (M', new)"
    and vals: "map (deref_thing M') new
        = map (\<lambda>e. assembled_thing (load s) (snd e)) (m_things (load s))"
    unfolding h_assemble_def by auto
  have "map (\<lambda>e. assembled_thing (load s) (snd e)) (m_things (load s))
      = map (\<lambda>i. assembled_thing (load s) i) [0 ..< length (fv_things s)]"
    by (simp add: load_variables o_def)
  also have "\<dots> = map (\<lambda>i. fv_thing_with_relations s (snd (fv_things s ! i)))
                     [0 ..< length (fv_things s)]"
    by (rule map_cong [OF refl]) (simp add: load_assembled_thing)
  also have "\<dots> = map (\<lambda>e. fv_thing_with_relations s (snd e)) (fv_things s)"
    using index_filter [of "\<lambda>e. fv_thing_with_relations s (snd e)" "fv_things s" "\<lambda>e. True"]
    by simp
  finally have "map (deref_thing M') new
      = map (\<lambda>e. fv_thing_with_relations s (snd e)) (fv_things s)"
    using vals by simp
  then have "document_of (M', new) = fv_assemble s"
    by (simp add: document_of_def fv_assemble_def case_prod_unfold)
  with run show ?thesis by blast
qed

section \<open>Observations and Datastreams in the assembled document\<close>

text \<open>
  Claim C1 does not hold of the code. In SensorThingsTransformer the loop that is to
  find the Observations of a Datastream appends every Observation of the run: for one
  station with two measurements, each of the two Datastreams carries both results. In
  the converter with the legend lookup the Observations are filtered by the Datastream
  id, but the Datastream of station \<open>10\<close> is also nested under station \<open>1\<close>, and its
  Observation with it.
\<close>

theorem observations_on_every_datastream:
  "map_sum id datastreams_of
     (transform plain_builtins
        (sheet_of [''ID_MS'', ''DATUM'', ''TENS20_1'', ''TENS50_1''] [row_two_measurements]))
     = Inr [(''thing_MS1'',
             [(''ds_thing_MS1_TENS20_1'', [Float 12, Float 7]),
              (''ds_thing_MS1_TENS50_1'', [Float 12, Float 7])])]
   \<and> map_sum id datastreams_of
       (fv_excel_to_sensorthings plain_builtins
          (sheet_of [''ID_MS'', ''DATUM'', ''TENS20_1''] rows_stations_1_10))
     = Inr [(''thing_Unknown__1'',
             [(''ds_thing_Unknown__1_TENS20_1_Unknown_'', [Float 12]),
              (''ds_thing_Unknown__10_TENS20_1_Unknown_'', [Float 7])]),
            (''thing_Unknown__10'',
             [(''ds_thing_Unknown__10_TENS20_1_Unknown_'', [Float 7])])]"
proof -
  have "map_sum id datastreams_of
     (transform plain_builtins
        (sheet_of [''ID_MS'', ''DATUM'', ''TENS20_1'', ''TENS50_1''] [row_two_measurements]))
     = Inr [(''thing_MS1'',
             [(''ds_thing_MS1_TENS20_1'', [Float 12, Float 7]),
              (''ds_thing_MS1_TENS50_1'', [Float 12, Float 7])])]"
    by (simp add: run_defs row_two_measurements_def datastreams_of_def new_thing_def
          new_location_def new_datastream_def)
  moreover have "map_sum id datastreams_of
       (fv_excel_to_sensorthings plain_builtins
          (sheet_of [''ID_MS'', ''DATUM'', ''TENS20_1''] rows_stations_1_10))
     = Inr [(''thing_Unknown__1'',
             [(''ds_thing_Unknown__1_TENS20_1_Unknown_'', [Float 12]),
              (''ds_thing_Unknown__10_TENS20_1_Unknown_'', [Float 7])]),
            (''thing_Unknown__10'',
             [(''ds_thing_Unknown__10_TENS20_1_Unknown_'', [Float 7])])]"
    by (simp add: fv_run_defs rows_stations_1_10_def datastreams_of_def datastream_ids_of_def
          fv_new_thing_def fv_new_location_def fv_new_datastream_def)
  ultimately show ?thesis by (rule conjI)
qed

text \<open>
  Claim C2 does not hold of the code either. Both wide-shape converters select the
  Datastreams of a Thing by testing whether the Datastream's key starts with the
  Thing's id, so the Thing of station \<open>1\<close> also receives the Datastream of station
  \<open>10\<close>.
\<close>

theorem datastreams_by_prefix:
  "map_sum id datastream_ids_of
     (transform plain_builtins (sheet_of [''ID_MS'', ''DATUM'', ''TENS20_1''] rows_stations_1_10))
     = Inr [(''thing_1'', [''ds_thing_1_TENS20_1'', ''ds_thing_10_TENS20_1'']),
            (''thing_10'', [''ds_thing_10_TENS20_1''])]
   \<and> map_sum id datastream_ids_of
       (fv_excel_to_sensorthings plain_builtins
          (sheet_of [''ID_MS'', ''DATUM'', ''TENS20_1''] rows_stations_1_10))
     = Inr [(''thing_Unknown__1'',
             [''ds_thing_Unknown__1_TENS20_1_Unknown_'',
              ''ds_thing_Unknown__10_TENS20_1_Unknown_'']),
            (''thing_Unknown__10'', [''ds_thing_Unknown__10_TENS20_1_Unknown_''])]"
proof -
  have "map_sum id datastream_ids_of
     (transform plain_builtins (sheet_of [''ID_MS'', ''DATUM'', ''TENS20_1''] rows_stations_1_10))
     = Inr [(''thing_1'', [''ds_thing_1_TENS20_1'', ''ds_thing_10_TENS20_1'']),
            (''thing_10'', [''ds_thing_10_TENS20_1''])]"
    by (simp add: run_defs rows_stations_1_10_def datastreams_of_def datastream_ids_of_def
          new_thing_def new_location_def new_datastream_def)
  moreover have "map_sum id datastream_ids_of
       (fv_excel_to_sensorthings plain_builtins
          (sheet_of [''ID_MS'', ''DATUM'', ''TENS20_1''] rows_stations_1_10))
     = Inr [(''thing_Unknown__1'',
             [''ds_thing_Unknown__1_TENS20_1_Unknown_'',
              ''ds_thing_Unknown__10_TENS20_1_Unknown_'']),
            (''thing_Unknown__10'', [''ds_thing_Unknown__10_TENS20_1_Unknown_''])]"
    by (simp add: fv_run_defs rows_stations_1_10_def datastreams_of_def datastream_ids_of_def
          fv_new_thing_def fv_new_location_def fv_new_datastream_def)
  ultimately show ?thesis by (rule conjI)
qed

lemma transform_row_without_timestamp:
  "transform plain_builtins (sheet_of [''ID_MS'', ''DATUM'', ''TENS20_1''] [row_without_timestamp])
     = Inr \<lparr>Things = [(new_thing ''MS1'' ''Soil Sensor'')
                        \<lparr>t_Locations := Some [new_location ''thing_MS1'' ''MS1'']\<rparr>]\<rparr>"
  by (simp add: run_defs row_without_timestamp_def new_thing_def new_location_def)

lemma fv_row_without_timestamp:
  "fv_excel_to_sensorthings plain_builtins
     (sheet_of [''ID_MS'', ''DATUM'', ''TENS20_1''] [row_without_timestamp])
     = Inr \<lparr>Things = [(fv_new_thing plain_builtins \<lparr>hms = Text ''Unknown'', bemerkung = Text []\<rparr>
                          ''MS1'' ''Soil Sensor'')
                        \<lparr>t_Locations := Some [fv_new_location plain_builtins
                             \<lparr>hms = Text ''Unknown'', bemerkung = Text []\<rparr> ''thing_Unknown__MS1'']\<rparr>]\<rparr>"
  by (simp add: fv_run_defs row_without_timestamp_def fv_new_thing_def
        fv_new_location_def)

text \<open>
  Claim C3, as amended. A wide-shape row whose timestamp is missing emits no
  Observation, Datastream, Sensor or ObservedProperty, in either converter; but it is
  not without effect: the Thing of its identifier and the Location of that Thing are
  registered first, each created when its key is new, and the document that the
  converter returns for a workbook with such a row has that Thing, with its Location.
  A row whose identifier is missing is not skipped at all: it is processed exactly as a
  row whose identifier is the text \<open>nan\<close>.
\<close>

theorem row_without_timestamp_or_identifier:
  assumes "entities_ok s" and "fv_entities_ok f" and "getitem r id_column = Inr idv"
  shows
    "(getitem r tsc = Inr NaN \<longrightarrow>
        (\<exists>s'. process_row B cat tsc cols r s = Inr s'
           \<and> observations s' = observations s \<and> datastreams s' = datastreams s
           \<and> sensors s' = sensors s \<and> observed_properties s' = observed_properties s
           \<and> things s' = (if map_of (things s) (py_str B idv) = None
                           then things s @ [(py_str B idv, new_thing (py_str B idv) cat)]
                           else things s)
           \<and> locations s' =
               (if map_of (locations s) (''thing_'' @ py_str B idv) = None
                then locations s @
                       [(''thing_'' @ py_str B idv,
                         new_location (''thing_'' @ py_str B idv)
                           (hd (py_split CHR ''_'' (py_str B idv))))]
                else locations s))
        \<and> (\<exists>f'. fv_process_row B m cat tsc cols r f = Inr f'
           \<and> fv_observations f' = fv_observations f \<and> fv_datastreams f' = fv_datastreams f
           \<and> fv_sensors f' = fv_sensors f
           \<and> fv_observed_properties f' = fv_observed_properties f
           \<and> fv_things f' =
               (if map_of (fv_things f) (thing_key_of B (hms_info_of m (py_str B idv)) (py_str B idv))
                     = None
                then fv_things f @
                   [(thing_key_of B (hms_info_of m (py_str B idv)) (py_str B idv),
                     fv_new_thing B (hms_info_of m (py_str B idv)) (py_str B idv) cat)]
                else fv_things f)
           \<and> fv_locations f' =
               (if map_of (fv_locations f)
                     (''thing_'' @ thing_key_of B (hms_info_of m (py_str B idv)) (py_str B idv))
                     = None
                then fv_locations f @
                   [(''thing_'' @ thing_key_of B (hms_info_of m (py_str B idv)) (py_str B idv),
                     fv_new_location B (hms_info_of m (py_str B idv))
                       (''thing_'' @ thing_key_of B (hms_info_of m (py_str B idv)) (py_str B idv)))]
                else fv_locations f)))
     \<and> (getitem r (timestamp_column_of name) = Inr NaN \<and> r \<in> set (df_rows df)
          \<and> name \<noteq> LEGENDE \<and> map_of wb name = Some df \<and> transform B wb = Inr d \<longrightarrow>
          (\<exists>t \<in> set (Things d). t_id t = ''thing_'' @ py_str B idv
             \<and> t_Locations t
                 = Some [new_location (''thing_'' @ py_str B idv)
                           (hd (py_split CHR ''_'' (py_str B idv)))]))
     \<and> (getitem r (timestamp_column_of name) = Inr NaN \<and> r \<in> set (df_rows df)
          \<and> name \<noteq> LEGENDE \<and> id_column \<in> set (df_columns df)
          \<and> timestamp_column_of name \<in> set (df_columns df) \<and> (name, df) \<in> set wb'
          \<and> id_to_hms_mapping B wb' = Inr m \<and> fv_excel_to_sensorthings B wb' = Inr d' \<longrightarrow>
          (\<exists>t \<in> set (Things d').
             t_id t = ''thing_'' @ thing_key_of B (hms_info_of m (py_str B idv)) (py_str B idv)
             \<and> map_option (map l_id) (t_Locations t)
                 = Some [''location_'' @ remove_all ''thing_''
                     (''thing_'' @ thing_key_of B (hms_info_of m (py_str B idv)) (py_str B idv))]))
     \<and> (idv = NaN \<and> tsc \<noteq> id_column \<longrightarrow>
          process_row B cat tsc cols r s
            = process_row B cat tsc cols ((id_column, Text ''nan'') # r) s
          \<and> fv_process_row B m cat tsc cols r f
            = fv_process_row B m cat tsc cols ((id_column, Text ''nan'') # r) f)"
proof (intro conjI impI)
  assume "getitem r tsc = Inr NaN"
  then show "\<exists>s'. process_row B cat tsc cols r s = Inr s'
           \<and> observations s' = observations s \<and> datastreams s' = datastreams s
           \<and> sensors s' = sensors s \<and> observed_properties s' = observed_properties s
           \<and> things s' = (if map_of (things s) (py_str B idv) = None
                           then things s @ [(py_str B idv, new_thing (py_str B idv) cat)]
                           else things s)
           \<and> locations s' =
               (if map_of (locations s) (''thing_'' @ py_str B idv) = None
                then locations s @
                       [(''thing_'' @ py_str B idv,
                         new_location (''thing_'' @ py_str B idv)
                           (hd (py_split CHR ''_'' (py_str B idv))))]
                else locations s)"
    by (rule process_row_missing_timestamp [OF assms(1,3)])
next
  assume "getitem r tsc = Inr NaN"
  then show "\<exists>f'. fv_process_row B m cat tsc cols r f = Inr f'
           \<and> fv_observations f' = fv_observations f \<and> fv_datastreams f' = fv_datastreams f
           \<and> fv_sensors f' = fv_sensors f
           \<and> fv_observed_properties f' = fv_observed_properties f
           \<and> fv_things f' =
               (if map_of (fv_things f) (thing_key_of B (hms_info_of m (py_str B idv)) (py_str B idv))
                     = None
                then fv_things f @
                   [(thing_key_of B (hms_info_of m (py_str B idv)) (py_str B idv),
                     fv_new_thing B (hms_info_of m (py_str B idv)) (py_str B idv) cat)]
                else fv_things f)
           \<and> fv_locations f' =
               (if map_of (fv_locations f)
                     (''thing_'' @ thing_key_of B (hms_info_of m (py_str B idv)) (py_str B idv))
                     = None
                then fv_locations f @
                   [(''thing_'' @ thing_key_of B (hms_info_of m (py_str B idv)) (py_str B idv),
                     fv_new_location B (hms_info_of m (py_str B idv))
                       (''thing_'' @ thing_key_of B (hms_info_of m (py_str B idv)) (py_str B idv)))]
                else fv_locations f)"
    by (rule fv_process_row_missing_timestamp [OF assms(2,3)])
next
  assume "getitem r (timestamp_column_of name) = Inr NaN \<and> r \<in> set (df_rows df)
          \<and> name \<noteq> LEGENDE \<and> map_of wb name = Some df \<and> transform B wb = Inr d"
  then show "\<exists>t \<in> set (Things d). t_id t = ''thing_'' @ py_str B idv
             \<and> t_Locations t
                 = Some [new_location (''thing_'' @ py_str B idv)
                           (hd (py_split CHR ''_'' (py_str B idv)))]"
    using transform_station [of B wb d name df r idv] assms(3) by blast
next
  assume "getitem r (timestamp_column_of name) = Inr NaN \<and> r \<in> set (df_rows df)
          \<and> name \<noteq> LEGENDE \<and> id_column \<in> set (df_columns df)
          \<and> timestamp_column_of name \<in> set (df_columns df) \<and> (name, df) \<in> set wb'
          \<and> id_to_hms_mapping B wb' = Inr m \<and> fv_excel_to_sensorthings B wb' = Inr d'"
  then show "\<exists>t \<in> set (Things d').
             t_id t = ''thing_'' @ thing_key_of B (hms_info_of m (py_str B idv)) (py_str B idv)
             \<and> map_option (map l_id) (t_Locations t)
                 = Some [''location_'' @ remove_all ''thing_''
                     (''thing_'' @ thing_key_of B (hms_info_of m (py_str B idv)) (py_str B idv))]"
    using fv_station [of B wb' d' m name df r idv] assms(3) by blast
next
  assume "idv = NaN \<and> tsc \<noteq> id_column"
  with assms(3) show "process_row B cat tsc cols r s
            = process_row B cat tsc cols ((id_column, Text ''nan'') # r) s"
    using process_row_missing_identifier [of r tsc B cat cols s] by blast
next
  assume "idv = NaN \<and> tsc \<noteq> id_column"
  with assms(3) show "fv_process_row B m cat tsc cols r f
            = fv_process_row B m cat tsc cols ((id_column, Text ''nan'') # r) f"
    using fv_process_row_missing_identifier [of r tsc B m cat cols f] by blast
qed
theorem row_without_timestamp_or_identifier_witness:
  "entities_ok init \<and> fv_entities_ok fv_init
   \<and> getitem row_without_timestamp id_column = Inr (Text ''MS1'')
   \<and> getitem row_without_timestamp (timestamp_column_of ''Tension kPa'') = Inr NaN
   \<and> getitem row_without_identifier id_column = Inr NaN
   \<and> timestamp_column_of ''Tension kPa'' \<noteq> id_column
   \<and> id_to_hms_mapping plain_builtins
        (sheet_of [''ID_MS'', ''DATUM'', ''TENS20_1''] [row_without_timestamp]) = Inr []
   \<and> (\<exists>s'. process_row plain_builtins ''Soil Sensor'' (timestamp_column_of ''Tension kPa'')
              [''ID_MS'', ''DATUM'', ''TENS20_1''] row_without_timestamp init = Inr s'
         \<and> observations s' = [] \<and> datastreams s' = []
         \<and> things s' = [(''MS1'', new_thing ''MS1'' ''Soil Sensor'')]
         \<and> locations s' = [(''thing_MS1'', new_location ''thing_MS1'' ''MS1'')])
   \<and> (\<exists>f'. fv_process_row plain_builtins [] ''Soil Sensor'' (timestamp_column_of ''Tension kPa'')
              [''ID_MS'', ''DATUM'', ''TENS20_1''] row_without_timestamp fv_init = Inr f'
         \<and> fv_observations f' = [] \<and> fv_datastreams f' = []
         \<and> fv_things f' = [(''Unknown__MS1'', (fv_new_thing plain_builtins \<lparr>hms = Text ''Unknown'', bemerkung = Text []\<rparr>
                          ''MS1'' ''Soil Sensor''))]
         \<and> map fst (fv_locations f') = [''thing_Unknown__MS1''])
   \<and> (\<exists>t \<in> set (Things \<lparr>Things = [(new_thing ''MS1'' ''Soil Sensor'')
                        \<lparr>t_Locations := Some [new_location ''thing_MS1'' ''MS1'']\<rparr>]\<rparr>).
         t_id t = ''thing_MS1'' \<and> t_Locations t = Some [new_location ''thing_MS1'' ''MS1''])
   \<and> (\<exists>t \<in> set (Things \<lparr>Things = [(fv_new_thing plain_builtins \<lparr>hms = Text ''Unknown'', bemerkung = Text []\<rparr>
                          ''MS1'' ''Soil Sensor'')
                        \<lparr>t_Locations := Some [fv_new_location plain_builtins
                             \<lparr>hms = Text ''Unknown'', bemerkung = Text []\<rparr> ''thing_Unknown__MS1'']\<rparr>]\<rparr>).
         t_id t = ''thing_Unknown__MS1''
         \<and> map_option (map l_id) (t_Locations t) = Some [''location_Unknown__MS1''])
   \<and> process_row plain_builtins ''Soil Sensor'' (timestamp_column_of ''Tension kPa'')
         [''ID_MS'', ''DATUM'', ''TENS20_1''] row_without_identifier init
       = process_row plain_builtins ''Soil Sensor'' (timestamp_column_of ''Tension kPa'')
           [''ID_MS'', ''DATUM'', ''TENS20_1'']
           ((id_column, Text ''nan'') # row_without_identifier) init
   \<and> fv_process_row plain_builtins [] ''Soil Sensor'' (timestamp_column_of ''Tension kPa'')
         [''ID_MS'', ''DATUM'', ''TENS20_1''] row_without_identifier fv_init
       = fv_process_row plain_builtins [] ''Soil Sensor'' (timestamp_column_of ''Tension kPa'')
           [''ID_MS'', ''DATUM'', ''TENS20_1'']
           ((id_column, Text ''nan'') # row_without_identifier) fv_init"
proof -
  let ?cols = "[''ID_MS'', ''DATUM'', ''TENS20_1'']"
  let ?wb = "sheet_of ?cols [row_without_timestamp]"
  let ?df = "\<lparr>df_columns = ?cols, df_rows = [row_without_timestamp]\<rparr>"
  let ?d = "\<lparr>Things = [(new_thing ''MS1'' ''Soil Sensor'')
                        \<lparr>t_Locations := Some [new_location ''thing_MS1'' ''MS1'']\<rparr>]\<rparr>"
  let ?d' = "\<lparr>Things = [(fv_new_thing plain_builtins \<lparr>hms = Text ''Unknown'', bemerkung = Text []\<rparr>
                          ''MS1'' ''Soil Sensor'')
                        \<lparr>t_Locations := Some [fv_new_location plain_builtins
                             \<lparr>hms = Text ''Unknown'', bemerkung = Text []\<rparr> ''thing_Unknown__MS1'']\<rparr>]\<rparr>"
  have a: "getitem row_without_timestamp id_column = Inr (Text ''MS1'')"
    and b: "getitem row_without_timestamp (timestamp_column_of ''Tension kPa'') = Inr NaN"
    and c: "getitem row_without_identifier id_column = Inr NaN"
    and e: "timestamp_column_of ''Tension kPa'' \<noteq> id_column"
    by (simp_all add: getitem_def row_without_timestamp_def row_without_identifier_def
          id_column_def timestamp_column_of_def FREIFLAECHE_def Boden_Lufttemp_def)
  have sheet: "map_of ?wb ''Tension kPa'' = Some ?df" "(''Tension kPa'', ?df) \<in> set ?wb"
    "''Tension kPa'' \<noteq> LEGENDE" "row_without_timestamp \<in> set (df_rows ?df)"
    "id_column \<in> set (df_columns ?df)"
    "timestamp_column_of ''Tension kPa'' \<in> set (df_columns ?df)"
    by (simp_all add: sheet_of_def LEGENDE_def id_column_def timestamp_column_of_def
          FREIFLAECHE_def Boden_Lufttemp_def)
  have legend: "id_to_hms_mapping plain_builtins ?wb = Inr []"
    by (simp add: id_to_hms_mapping_def sheet_of_def LEGENDE_def)
  note at_row = row_without_timestamp_or_identifier
    [where s = init and f = fv_init and r = row_without_timestamp and idv = "Text ''MS1''"
       and tsc = "timestamp_column_of ''Tension kPa''" and B = plain_builtins
       and cat = "''Soil Sensor''" and cols = ?cols and m = "[]" and name = "''Tension kPa''"
       and df = ?df and wb = ?wb and wb' = ?wb and d = ?d and d' = ?d',
     OF init_ok(1) fv_init_ok(1) a]
  from at_row b
  have 1: "\<exists>s'. process_row plain_builtins ''Soil Sensor'' (timestamp_column_of ''Tension kPa'')
              ?cols row_without_timestamp init = Inr s'
         \<and> observations s' = [] \<and> datastreams s' = []
         \<and> things s' = [(''MS1'', new_thing ''MS1'' ''Soil Sensor'')]
         \<and> locations s' = [(''thing_MS1'', new_location ''thing_MS1'' ''MS1'')]"
    by (auto simp: init_def)
  from at_row b
  have 2: "\<exists>f'. fv_process_row plain_builtins [] ''Soil Sensor'' (timestamp_column_of ''Tension kPa'')
              ?cols row_without_timestamp fv_init = Inr f'
         \<and> fv_observations f' = [] \<and> fv_datastreams f' = []
         \<and> fv_things f' = [(''Unknown__MS1'', (fv_new_thing plain_builtins \<lparr>hms = Text ''Unknown'', bemerkung = Text []\<rparr>
                          ''MS1'' ''Soil Sensor''))]
         \<and> map fst (fv_locations f') = [''thing_Unknown__MS1'']"
    by (auto simp: fv_init_def hms_info_of_def thing_key_of_def)
  from at_row b sheet transform_row_without_timestamp
  have 3: "\<exists>t \<in> set (Things ?d).
         t_id t = ''thing_MS1'' \<and> t_Locations t = Some [new_location ''thing_MS1'' ''MS1'']"
    by simp
  from at_row b sheet legend fv_row_without_timestamp
  have 4: "\<exists>t \<in> set (Things ?d'). t_id t = ''thing_Unknown__MS1''
         \<and> map_option (map l_id) (t_Locations t) = Some [''location_Unknown__MS1'']"
    by (simp add: hms_info_of_def thing_key_of_def)
  note at_nan = row_without_timestamp_or_identifier
    [where s = init and f = fv_init and r = row_without_identifier and idv = NaN
       and tsc = "timestamp_column_of ''Tension kPa''" and B = plain_builtins
       and cat = "''Soil Sensor''" and cols = ?cols and m = "[]",
     OF init_ok(1) fv_init_ok(1) c]
  from at_nan e
  have 5: "process_row plain_builtins ''Soil Sensor'' (timestamp_column_of ''Tension kPa'')
         ?cols row_without_identifier init
       = process_row plain_builtins ''Soil Sensor'' (timestamp_column_of ''Tension kPa'')
           ?cols ((id_column, Text ''nan'') # row_without_identifier) init"
    and 6: "fv_process_row plain_builtins [] ''Soil Sensor'' (timestamp_column_of ''Tension kPa'')
         ?cols row_without_identifier fv_init
       = fv_process_row plain_builtins [] ''Soil Sensor'' (timestamp_column_of ''Tension kPa'')
           ?cols ((id_column, Text ''nan'') # row_without_identifier) fv_init"
    by simp_all
  from init_ok(1) fv_init_ok(1) a b c e legend 1 2 3 4 5 6 show ?thesis
    by (intro conjI)
qed

text \<open>
  The claim as stated fails: a sheet whose only row lacks the timestamp yields a
  document with a Thing and its Location, in either converter, where the sheet without
  the row yields none;
  and a row that lacks the identifier yields the Thing \<open>thing_nan\<close> with a Datastream
  and an Observation.
\<close>

theorem row_without_timestamp_counterexample:
  "transform plain_builtins (sheet_of [''ID_MS'', ''DATUM'', ''TENS20_1''] [row_without_timestamp])
     = Inr \<lparr>Things = [(new_thing ''MS1'' ''Soil Sensor'')
                        \<lparr>t_Locations := Some [new_location ''thing_MS1'' ''MS1'']\<rparr>]\<rparr>
   \<and> transform plain_builtins (sheet_of [''ID_MS'', ''DATUM'', ''TENS20_1''] [])
     = Inr \<lparr>Things = []\<rparr>
   \<and> fv_excel_to_sensorthings plain_builtins
       (sheet_of [''ID_MS'', ''DATUM'', ''TENS20_1''] [row_without_timestamp])
     = Inr \<lparr>Things = [(fv_new_thing plain_builtins \<lparr>hms = Text ''Unknown'', bemerkung = Text []\<rparr>
                          ''MS1'' ''Soil Sensor'')
                        \<lparr>t_Locations := Some [fv_new_location plain_builtins
                             \<lparr>hms = Text ''Unknown'', bemerkung = Text []\<rparr> ''thing_Unknown__MS1'']\<rparr>]\<rparr>
   \<and> fv_excel_to_sensorthings plain_builtins (sheet_of [''ID_MS'', ''DATUM'', ''TENS20_1''] [])
     = Inr \<lparr>Things = []\<rparr>
   \<and> map_sum id datastreams_of
       (transform plain_builtins
          (sheet_of [''ID_MS'', ''DATUM'', ''TENS20_1''] [row_without_identifier]))
     = Inr [(''thing_nan'', [(''ds_thing_nan_TENS20_1'', [Float 12])])]"
  by (simp add: run_defs fv_run_defs row_without_timestamp_def row_without_identifier_def
        new_thing_def new_location_def new_datastream_def datastreams_of_def fv_new_thing_def
        fv_new_location_def)

section \<open>A value that is no number\<close>

lemma process_cell_raises:
  assumes "\<not> skipped_column tsc column" and "getitem r column = Inr v" and "\<not> isna v"
    and "py_float B v = Inl e"
  shows "process_cell B tsc r tid ts column s = Inl e"
  using assms by (simp add: process_cell_def Let_def case_prod_beta)

lemma fv_process_cell_raises:
  assumes "\<not> skipped_column tsc column" and "getitem r column = Inr v" and "\<not> isna v"
    and "py_float B v = Inl e"
  shows "fv_process_cell B i tsc r tid ts column s = Inl e"
  using assms by (simp add: fv_process_cell_def Let_def case_prod_beta)

lemma process_row_raises:
  assumes "column \<in> set cols" and "getitem r tsc = Inr ts" and "\<not> isna ts"
    and "\<not> skipped_column tsc column" and "getitem r column = Inr v" and "\<not> isna v"
    and "py_float B v = Inl e"
  shows "isl (process_row B cat tsc cols r s)"
proof (cases "getitem r id_column")
  case (Inl a)
  then show ?thesis by (simp add: process_row_def)
next
  case (Inr idv)
  let ?tid = "t_id (fst (create_thing (py_str B idv) cat s))"
  show ?thesis
  proof (cases "create_location ?tid (snd (create_thing (py_str B idv) cat s))")
    case (Inl a)
    with Inr show ?thesis by (simp add: process_row_def Let_def case_prod_beta)
  next
    case loc: (Inr p)
    have "isl (for_each (process_cell B tsc r ?tid (isoformat_if_timestamp ts)) cols (snd p))"
      by (rule for_each_raises [OF assms(1)])
         (simp add: process_cell_raises [OF assms(4-7)])
    with Inr loc assms(2,3) show ?thesis
      by (simp add: process_row_def Let_def case_prod_beta)
  qed
qed

lemma fv_process_row_raises:
  assumes "column \<in> set cols" and "getitem r tsc = Inr ts" and "\<not> isna ts"
    and "\<not> skipped_column tsc column" and "getitem r column = Inr v" and "\<not> isna v"
    and "py_float B v = Inl e"
  shows "isl (fv_process_row B m cat tsc cols r s)"
proof (cases "getitem r id_column")
  case (Inl a)
  then show ?thesis by (simp add: fv_process_row_def)
next
  case (Inr idv)
  have "\<And>i tid s2. isl (for_each (fv_process_cell B i tsc r tid (isoformat_if_timestamp ts)) cols s2)"
    by (rule for_each_raises [OF assms(1)])
       (simp add: fv_process_cell_raises [OF assms(4-7)])
  with Inr assms(2,3) show ?thesis
    by (simp add: fv_process_row_def Let_def case_prod_beta)
qed

lemma map_of_distinct_member:
  "distinct (map fst xs) \<Longrightarrow> (k, v) \<in> set xs \<Longrightarrow> map_of xs k = Some v"
  by simp

lemma transform_raises:
  assumes "(sheet_name, df) \<in> set excel_data" and "distinct (map fst excel_data)"
    and "sheet_name \<noteq> LEGENDE" and "r \<in> set (df_rows df)"
    and "column \<in> set (df_columns df)"
    and "getitem r (timestamp_column_of sheet_name) = Inr ts" and "\<not> isna ts"
    and "\<not> skipped_column (timestamp_column_of sheet_name) column"
    and "getitem r column = Inr v" and "\<not> isna v" and "py_float B v = Inl e"
  shows "isl (transform B excel_data)"
proof -
  have df: "map_of excel_data sheet_name = Some df"
    by (rule map_of_distinct_member [OF assms(2,1)])
  have "\<And>s. isl (process_sheet B excel_data sheet_name s)"
    unfolding process_sheet_def using assms(3) df
    by (simp add: for_each_raises [OF assms(4)] process_row_raises [OF assms(5-11)])
  moreover have "sheet_name \<in> set (map fst excel_data)"
    using assms(1) by force
  ultimately have "isl (for_each (process_sheet B excel_data) (map fst excel_data) init)"
    by (rule for_each_raises [rotated])
  then show ?thesis
    by (auto simp: transform_def isl_def)
qed

lemma fv_excel_to_sensorthings_raises:
  assumes "(sheet_name, df) \<in> set excel_data"
    and "sheet_name \<noteq> LEGENDE" and "r \<in> set (df_rows df)"
    and "column \<in> set (df_columns df)"
    and "getitem r (timestamp_column_of sheet_name) = Inr ts" and "\<not> isna ts"
    and "\<not> skipped_column (timestamp_column_of sheet_name) column"
    and "getitem r column = Inr v" and "\<not> isna v" and "py_float B v = Inl e"
    and "id_column \<in> set (df_columns df)"
    and "timestamp_column_of sheet_name \<in> set (df_columns df)"
  shows "isl (fv_excel_to_sensorthings B excel_data)"
proof (cases "id_to_hms_mapping B excel_data")
  case (Inl a)
  then show ?thesis by (simp add: fv_excel_to_sensorthings_def)
next
  case (Inr m)
  have "\<And>s. isl (fv_process_sheet B m (sheet_name, df) s)"
    unfolding fv_process_sheet_def using assms(2,11,12)
    by (simp add: for_each_raises [OF assms(3)] fv_process_row_raises [OF assms(4-10)])
  with assms(1) have "isl (for_each (fv_process_sheet B m) excel_data fv_init)"
    by (rule for_each_raises)
  with Inr show ?thesis
    by (auto simp: fv_excel_to_sensorthings_def isl_def)
qed

text \<open>
  Claim C4. Take a sheet of the workbook other than the legend, a row of it whose
  timestamp is present, and a measurement column of it (not the identifier column, not
  the timestamp column, no \<open>Unnamed\<close> header) in which the row has a value that is
  present and that \<^verbatim>\<open>float\<close> rejects (a text that is no number, or a timestamp). Then the
  run of SensorThingsTransformer ends in an error and returns no document; and so does
  the converter with the legend lookup, which processes a sheet when the identifier and
  the timestamp column are among its headers.
\<close>

theorem unparsable_value_raises:
  assumes "(sheet_name, df) \<in> set excel_data" and "distinct (map fst excel_data)"
    and "sheet_name \<noteq> LEGENDE" and "r \<in> set (df_rows df)"
    and "column \<in> set (df_columns df)"
    and "getitem r (timestamp_column_of sheet_name) = Inr ts" and "\<not> isna ts"
    and "\<not> skipped_column (timestamp_column_of sheet_name) column"
    and "getitem r column = Inr v" and "\<not> isna v" and "py_float B v = Inl e"
  shows "isl (transform B excel_data)
     \<and> (id_column \<in> set (df_columns df)
          \<and> timestamp_column_of sheet_name \<in> set (df_columns df)
        \<longrightarrow> isl (fv_excel_to_sensorthings B excel_data))"
  using transform_raises [OF assms]
    fv_excel_to_sensorthings_raises [OF assms(1) assms(3-11)]
  by blast

theorem unparsable_value_raises_witness:
  "(''Tension kPa'', \<lparr>df_columns = [''ID_MS'', ''DATUM'', ''TENS20_1''], df_rows = [row_with_text]\<rparr>)
      \<in> set (sheet_of [''ID_MS'', ''DATUM'', ''TENS20_1''] [row_with_text])
   \<and> distinct (map fst (sheet_of [''ID_MS'', ''DATUM'', ''TENS20_1''] [row_with_text]))
   \<and> ''Tension kPa'' \<noteq> LEGENDE
   \<and> getitem row_with_text (timestamp_column_of ''Tension kPa'') = Inr (Text ''T1'')
   \<and> \<not> isna (Text ''T1'')
   \<and> \<not> skipped_column (timestamp_column_of ''Tension kPa'') ''TENS20_1''
   \<and> getitem row_with_text ''TENS20_1'' = Inr (Text ''n/a'')
   \<and> \<not> isna (Text ''n/a'')
   \<and> py_float plain_builtins (Text ''n/a'') = Inl (ValueError ''n/a'')
   \<and> isl (transform plain_builtins (sheet_of [''ID_MS'', ''DATUM'', ''TENS20_1''] [row_with_text]))
   \<and> isl (fv_excel_to_sensorthings plain_builtins
             (sheet_of [''ID_MS'', ''DATUM'', ''TENS20_1''] [row_with_text]))"
proof -
  let ?df = "\<lparr>df_columns = [''ID_MS'', ''DATUM'', ''TENS20_1''], df_rows = [row_with_text]\<rparr>"
  let ?wb = "sheet_of [''ID_MS'', ''DATUM'', ''TENS20_1''] [row_with_text]"
  have 1: "(''Tension kPa'', ?df) \<in> set ?wb" and 2: "distinct (map fst ?wb)"
    by (simp_all add: sheet_of_def)
  have 3: "''Tension kPa'' \<noteq> LEGENDE" by (simp add: LEGENDE_def)
  have 4: "row_with_text \<in> set (df_rows ?df)" and 5: "''TENS20_1'' \<in> set (df_columns ?df)"
    by simp_all
  have 6: "getitem row_with_text (timestamp_column_of ''Tension kPa'') = Inr (Text ''T1'')"
    by (simp add: getitem_def row_with_text_def timestamp_column_of_def FREIFLAECHE_def
          Boden_Lufttemp_def)
  have 7: "\<not> isna (Text ''T1'')" and 10: "\<not> isna (Text ''n/a'')" by simp_all
  have 8: "\<not> skipped_column (timestamp_column_of ''Tension kPa'') ''TENS20_1''"
    by (simp add: skipped_column_def timestamp_column_of_def FREIFLAECHE_def
          Boden_Lufttemp_def id_column_def startswith_def)
  have 9: "getitem row_with_text ''TENS20_1'' = Inr (Text ''n/a'')"
    by (simp add: getitem_def row_with_text_def)
  have 11: "py_float plain_builtins (Text ''n/a'') = Inl (ValueError ''n/a'')"
    by (simp add: plain_builtins_def)
  have 12: "id_column \<in> set (df_columns ?df)
      \<and> timestamp_column_of ''Tension kPa'' \<in> set (df_columns ?df)"
    by (simp add: id_column_def timestamp_column_of_def FREIFLAECHE_def Boden_Lufttemp_def)
  from unparsable_value_raises [OF 1 2 3 4 5 6 7 8 9 10 11] 12
  have "isl (transform plain_builtins ?wb)"
    and "isl (fv_excel_to_sensorthings plain_builtins ?wb)"
    by blast+
  with 1 2 3 6 7 8 9 10 11 show ?thesis by blast
qed

section \<open>Measurement codes outside the unit table\<close>

lemma unknown_friendly_name: "unit_mapping code = None \<Longrightarrow> friendly_name_of code = code"
  by (simp add: friendly_name_of_def)

lemma unknown_unit_of: "unit_mapping code = None \<Longrightarrow> unit_of code = unknown_unit"
  by (simp add: unit_of_def)

lemma process_cell_number:
  assumes "getitem r column = Inr (Number x)"
  shows "\<not> isl (process_cell B tsc r thing_id ts column s)"
  using assms by (simp add: process_cell_def Let_def case_prod_beta)

lemma fv_process_cell_number:
  assumes "getitem r column = Inr (Number x)"
  shows "\<not> isl (fv_process_cell B i tsc r thing_id ts column f)"
  using assms by (simp add: fv_process_cell_def Let_def case_prod_beta)

text \<open>
  Claim C5. Let \<open>code\<close> be a measurement code that the unit table does not list. In any
  stores that the converters can reach (every ObservedProperty and Sensor in them is the
  one built from its key), in both wide-shape converters: the ObservedProperty
  registered or found for \<open>code\<close> has the name \<open>code\<close> and the definition
  \<^verbatim>\<open>http://example.org/properties/\<close> followed by \<open>code\<close>; the Sensor is named after the
  code; a Datastream created for \<open>code\<close> (its key is not yet registered) has the unit
  of measurement \<^verbatim>\<open>{name: "Unknown", symbol: "", definition: "ucum:"}\<close> and carries that
  ObservedProperty; and a numeric cell in a column of that code is processed without
  an error. The registration functions have no error result at all.
\<close>

theorem unknown_code_fallback:
  assumes "unit_mapping code = None" and "entities_ok s" and "fv_entities_ok f"
  shows
    "op_name (fst (create_observed_property code s)) = code
     \<and> op_definition (fst (create_observed_property code s))
           = ''http://example.org/properties/'' @ code
     \<and> s_name (fst (create_sensor code s)) = code @ '' Sensor''
     \<and> (map_of (datastreams s) (thing_id @ ''_'' @ code) = None \<longrightarrow>
           d_unitOfMeasurement (fst (create_datastream thing_id code s))
             = \<lparr>u_name = ''Unknown'', u_symbol = [], u_definition = ''ucum:''\<rparr>
           \<and> op_name (d_ObservedProperty (fst (create_datastream thing_id code s))) = code
           \<and> op_definition (d_ObservedProperty (fst (create_datastream thing_id code s)))
               = ''http://example.org/properties/'' @ code)
     \<and> (measurement_type_of column = code \<and> getitem r column = Inr (Number x) \<longrightarrow>
           \<not> isl (process_cell B tsc r thing_id ts column s))
     \<and> op_name (fst (fv_create_observed_property code f)) = code
     \<and> op_definition (fst (fv_create_observed_property code f))
           = ''http://example.org/properties/'' @ code
     \<and> s_name (fst (fv_create_sensor code f)) = code @ '' Sensor''
     \<and> (map_of (fv_datastreams f) (datastream_key_of B i thing_id code) = None \<longrightarrow>
           d_unitOfMeasurement (fst (fv_create_datastream B i thing_id code sn p f))
             = \<lparr>u_name = ''Unknown'', u_symbol = [], u_definition = ''ucum:''\<rparr>)
     \<and> (measurement_type_of column = code \<and> getitem r column = Inr (Number x) \<longrightarrow>
           \<not> isl (fv_process_cell B i tsc r thing_id ts column f))"
proof -
  note n = unknown_friendly_name [OF assms(1)] and u = unknown_unit_of [OF assms(1)]
  have 1: "fst (create_observed_property code s) = new_observed_property code"
    by (rule create_observed_property_value [OF assms(2)])
  have 2: "fst (create_sensor code s) = new_sensor code"
    by (rule create_sensor_value [OF assms(2)])
  have 3: "fst (fv_create_observed_property code f) = new_observed_property code"
    by (rule fv_create_observed_property_value [OF assms(3)])
  have 4: "fst (fv_create_sensor code f) = new_sensor code"
    by (rule fv_create_sensor_value [OF assms(3)])
  have a: "op_name (new_observed_property code) = code"
    "op_definition (new_observed_property code) = ''http://example.org/properties/'' @ code"
    "s_name (new_sensor code) = code @ '' Sensor''"
    by (simp_all add: new_observed_property_def new_sensor_def n)
  have b: "map_of (datastreams s) (thing_id @ ''_'' @ code) = None \<longrightarrow>
           d_unitOfMeasurement (fst (create_datastream thing_id code s))
             = \<lparr>u_name = ''Unknown'', u_symbol = [], u_definition = ''ucum:''\<rparr>
           \<and> op_name (d_ObservedProperty (fst (create_datastream thing_id code s))) = code
           \<and> op_definition (d_ObservedProperty (fst (create_datastream thing_id code s)))
               = ''http://example.org/properties/'' @ code"
    using create_datastream_fresh [OF assms(2), of thing_id code] a u
    by (simp add: new_datastream_def unknown_unit_def)
  have c: "map_of (fv_datastreams f) (datastream_key_of B i thing_id code) = None \<longrightarrow>
           d_unitOfMeasurement (fst (fv_create_datastream B i thing_id code sn p f))
             = \<lparr>u_name = ''Unknown'', u_symbol = [], u_definition = ''ucum:''\<rparr>"
    using u by (simp add: fv_create_datastream_def Let_def fv_new_datastream_def unknown_unit_def)
  from a b c 1 2 3 4 process_cell_number fv_process_cell_number show ?thesis
    by simp
qed

lemma FOO_unknown: "unit_mapping ''FOO'' = None"
  by (simp add: unit_mapping_def unit_table_def)

theorem unknown_code_fallback_witness:
  "unit_mapping ''FOO'' = None \<and> entities_ok init \<and> fv_entities_ok fv_init
   \<and> map_of (datastreams init) (''thing_MS1'' @ ''_'' @ ''FOO'') = None
   \<and> getitem [(''FOO [x]'', Number 1)] ''FOO [x]'' = Inr (Number 1)
   \<and> measurement_type_of ''FOO [x]'' = ''FOO''
   \<and> op_name (fst (create_observed_property ''FOO'' init)) = ''FOO''
   \<and> op_definition (fst (create_observed_property ''FOO'' init))
        = ''http://example.org/properties/FOO''
   \<and> d_unitOfMeasurement (fst (create_datastream ''thing_MS1'' ''FOO'' init))
        = \<lparr>u_name = ''Unknown'', u_symbol = [], u_definition = ''ucum:''\<rparr>
   \<and> \<not> isl (process_cell plain_builtins ''DATUM'' [(''FOO [x]'', Number 1)] ''thing_MS1'' (Text ''T1'')
              ''FOO [x]'' init)"
proof -
  have g: "getitem [(''FOO [x]'', Number 1)] ''FOO [x]'' = Inr (Number 1)"
    by (simp add: getitem_def)
  have m: "measurement_type_of ''FOO [x]'' = ''FOO''"
    by (simp add: measurement_type_of_def)
  have k: "map_of (datastreams init) (''thing_MS1'' @ ''_'' @ ''FOO'') = None"
    by (simp add: init_def)
  from unknown_code_fallback [OF FOO_unknown init_ok(1) fv_init_ok(1),
      of "''thing_MS1''" "''FOO [x]''" "[(''FOO [x]'', Number 1)]" 1 plain_builtins "''DATUM''" "Text ''T1''"]
    g m k FOO_unknown init_ok(1) fv_init_ok(1)
  show ?thesis by simp
qed

section \<open>References in the nested document of the per-entity tables\<close>

lemma nth_nested_thing:
  assumes "k < length (sd_Things sta)"
  shows "n_Things (n_construct_nested_structure sta) ! k = nested_thing sta k"
  using assms by (simp add: n_construct_nested_structure_eq)

lemma nested_thing_fields:
  shows "nt_id (nested_thing sta k) = Some (assigned_id sta k)"
    and "nt_Locations (nested_thing sta k) =
           (if locations_of sta (assigned_id sta k) = [] then nt_Locations (sd_Things sta ! k)
            else Some (locations_of sta (assigned_id sta k)))"
    and "nt_Datastreams (nested_thing sta k) =
           (if datastreams_for sta (assigned_id sta k) = [] then nt_Datastreams (sd_Things sta ! k)
            else Some (map (nested_datastream sta) (datastreams_for sta (assigned_id sta k))))"
  by (simp_all add: nested_thing_def thing_head_def)

lemma nested_datastream_fields:
  shows "nd_Sensor (nested_datastream sta d) =
           (case nd_Sensor d of
              None \<Rightarrow> None
            | Some r \<Rightarrow>
                (case find (\<lambda>s. id_eq (ns_id s) (ref_id ns_id r)) (sd_Sensors sta) of
                   None \<Rightarrow> Some r
                 | Some s \<Rightarrow> Some (Entity s)))"
    and "nd_ObservedProperty (nested_datastream sta d) =
           (case nd_ObservedProperty d of
              None \<Rightarrow> None
            | Some r \<Rightarrow>
                (case find (\<lambda>p. id_eq (nop_id p) (ref_id nop_id r)) (sd_ObservedProperties sta) of
                   None \<Rightarrow> Some r
                 | Some p \<Rightarrow> Some (Entity p)))"
    and "nd_Observations (nested_datastream sta d) =
           (if matching_observations sta d = [] then nd_Observations d
            else Some (matching_observations sta d))"
  by (simp_all add: nested_datastream_def resolved_reference_def first_with_id_def
        split: option.splits)

lemma n_excel_to_sensorthings_isl:
  "isl (n_excel_to_sensorthings B U excel_data) = isl (read_tables B U excel_data)"
  by (simp add: n_excel_to_sensorthings_def split: sum.splits)

lemma read_example_tables:
  "read_tables plain_builtins no_uuids example_tables = Inr (4, example_sta)"
  by (simp add: read_tables_def read_table_def example_tables_def example_sta_def
        thing_row_def datastream_row_def json_field_def row_get_def foreign_key_def
        sta_init_def example_thing_def example_datastream_def)

text \<open>
  Claim C6, as amended. Assembling the per-entity tables never aborts: it has no error
  result, and the converter fails only where reading the tables fails. Of a Datastream
  nested under a Thing, the Sensor and the ObservedProperty reference become the first
  entity of the Sensors and ObservedProperties table whose \<^verbatim>\<open>@iot.id\<close> equals the id of
  the reference, and stay the fragment \<^verbatim>\<open>{"@iot.id": id}\<close> when there is none. The
  \<open>thing_id\<close> and \<open>datastream_id\<close> references are not replaced: the Datastreams nested
  under a Thing are those of the table whose \<open>thing_id\<close> equals the Thing's id, each
  still with that fragment, and the Observations nested under such a Datastream are
  those whose \<open>datastream_id\<close> equals its \<^verbatim>\<open>@iot.id\<close>; what refers to no Thing, or to no
  nested Datastream, is not in the document.
\<close>

theorem references_of_nested_datastreams:
  assumes "k < length (sd_Things sta)"
  shows
    "nt_Datastreams (n_Things (n_construct_nested_structure sta) ! k) =
       (if datastreams_for sta (assigned_id sta k) = [] then nt_Datastreams (sd_Things sta ! k)
        else Some (map (nested_datastream sta) (datastreams_for sta (assigned_id sta k))))
     \<and> nd_Sensor (nested_datastream sta d) =
         (case nd_Sensor d of
            None \<Rightarrow> None
          | Some r \<Rightarrow>
              (case find (\<lambda>s. id_eq (ns_id s) (ref_id ns_id r)) (sd_Sensors sta) of
                 None \<Rightarrow> Some r
               | Some s \<Rightarrow> Some (Entity s)))
     \<and> nd_ObservedProperty (nested_datastream sta d) =
         (case nd_ObservedProperty d of
            None \<Rightarrow> None
          | Some r \<Rightarrow>
              (case find (\<lambda>p. id_eq (nop_id p) (ref_id nop_id r)) (sd_ObservedProperties sta) of
                 None \<Rightarrow> Some r
               | Some p \<Rightarrow> Some (Entity p)))
     \<and> nd_Thing (nested_datastream sta d) = nd_Thing d
     \<and> nd_Observations (nested_datastream sta d) =
         (if matching_observations sta d = [] then nd_Observations d
          else Some (matching_observations sta d))
     \<and> isl (n_excel_to_sensorthings B U excel_data) = isl (read_tables B U excel_data)"
  by (simp only: nth_nested_thing [OF assms] nested_thing_fields nested_datastream_fields
        nested_datastream_Thing n_excel_to_sensorthings_isl simp_thms)

theorem references_of_nested_datastreams_witness:
  "0 < length (sd_Things example_sta)
   \<and> nt_Datastreams (n_Things (n_construct_nested_structure example_sta) ! 0)
       = Some [example_datastream ''D1'' 1 (Some (Fragment (Number 9)))]
   \<and> nd_Sensor (nested_datastream example_sta
                  (example_datastream ''D1'' 1 (Some (Fragment (Number 9)))))
       = Some (Fragment (Number 9))"
proof -
  have k: "0 < length (sd_Things example_sta)" by (simp add: example_sta_def)
  have i: "assigned_id example_sta 0 = Number 1"
    by (simp add: assigned_id_def example_sta_def example_thing_def)
  have f: "datastreams_for example_sta (Number 1)
      = [example_datastream ''D1'' 1 (Some (Fragment (Number 9)))]"
    by (simp add: datastreams_for_def example_sta_def example_datastream_def refers_to_def)
  have n: "nested_datastream example_sta (example_datastream ''D1'' 1 (Some (Fragment (Number 9))))
      = example_datastream ''D1'' 1 (Some (Fragment (Number 9)))"
    by (simp add: nested_datastream_def resolved_reference_def first_with_id_def
          matching_observations_def example_sta_def example_datastream_def)
  from references_of_nested_datastreams [OF k,
      where d = "example_datastream ''D1'' 1 (Some (Fragment (Number 9)))"]
  have "nt_Datastreams (n_Things (n_construct_nested_structure example_sta) ! 0)
       = Some [example_datastream ''D1'' 1 (Some (Fragment (Number 9)))]"
    and "nd_Sensor (nested_datastream example_sta
                  (example_datastream ''D1'' 1 (Some (Fragment (Number 9)))))
       = Some (Fragment (Number 9))"
    by (simp_all add: i f n) (simp_all add: example_datastream_def example_sta_def)
  with k show ?thesis by blast
qed

text \<open>
  The claim as stated fails for \<open>thing_id\<close>: the Datastream \<open>D7\<close> refers to a Thing 7
  that does not exist, and the document does not contain it, with or without its
  fragment.
\<close>

theorem unmatched_thing_id_counterexample:
  "map_sum id n_names_of (n_excel_to_sensorthings plain_builtins no_uuids example_tables)
     = Inr [(Text ''A'', [Text ''D1'']), (Text ''B'', [])]"
proof -
  have 1: "assigned_id example_sta 0 = Number 1" "assigned_id example_sta (Suc 0) = Number 2"
    by (simp_all add: assigned_id_def example_sta_def example_thing_def)
  have 2: "datastreams_for example_sta (Number 1)
      = [example_datastream ''D1'' 1 (Some (Fragment (Number 9)))]"
    "datastreams_for example_sta (Number 2) = []"
    by (simp_all add: datastreams_for_def example_sta_def example_datastream_def refers_to_def)
  have 3: "nested_thing example_sta 0
      = (example_thing ''A'')\<lparr>nt_id := Some (Number 1), nt_Datastreams :=
           Some [nested_datastream example_sta
                   (example_datastream ''D1'' 1 (Some (Fragment (Number 9))))]\<rparr>"
    "nested_thing example_sta (Suc 0) = (example_thing ''B'')\<lparr>nt_id := Some (Number 2)\<rparr>"
    unfolding nested_thing_def thing_head_def 1 2 locations_of_def
    by (simp_all add: example_sta_def)
  have 4: "[0 ..< length (sd_Things example_sta)] = [0, Suc 0]"
    by (simp add: example_sta_def upt_rec)
  show ?thesis
    by (simp add: n_excel_to_sensorthings_def read_example_tables
          n_construct_nested_structure_eq 4 3 n_names_of_def n_datastream_names_def
          example_thing_def nested_datastream_def example_datastream_def)
qed

text \<open>
  Claim C7. In stores that hold no key twice (as the initial stores do), registering a
  Thing, a Location, an ObservedProperty, a Sensor or a Datastream a second time under
  the same natural key returns the entity that the first registration returned and
  leaves every store as the first registration left it, whatever the other arguments of
  the second call are; the store then holds exactly one entry under that key, which is
  the entity returned. This holds for the methods of SensorThingsTransformer and for
  the create-if-absent blocks of the converter with the legend lookup.
\<close>

theorem create_or_get_once:
  assumes "keys_distinct s" and "fv_keys_distinct f"
  shows
    "create_thing id_ms c2 (snd (create_thing id_ms c1 s)) = create_thing id_ms c1 s
     \<and> entries id_ms (things (snd (create_thing id_ms c1 s)))
           = [(id_ms, fst (create_thing id_ms c1 s))]
     \<and> (\<exists>l s1. create_location (''thing_'' @ id_ms) s = Inr (l, s1)
           \<and> create_location (''thing_'' @ id_ms) s1 = Inr (l, s1)
           \<and> entries (''thing_'' @ id_ms) (locations s1) = [(''thing_'' @ id_ms, l)])
     \<and> create_observed_property p (snd (create_observed_property p s))
           = create_observed_property p s
     \<and> entries p (observed_properties (snd (create_observed_property p s)))
           = [(p, fst (create_observed_property p s))]
     \<and> create_sensor p (snd (create_sensor p s)) = create_sensor p s
     \<and> entries p (sensors (snd (create_sensor p s))) = [(p, fst (create_sensor p s))]
     \<and> create_datastream thing_id p (snd (create_datastream thing_id p s))
           = create_datastream thing_id p s
     \<and> entries (thing_id @ ''_'' @ p) (datastreams (snd (create_datastream thing_id p s)))
           = [(thing_id @ ''_'' @ p, fst (create_datastream thing_id p s))]
     \<and> fv_create_thing B i id_ms c2 (snd (fv_create_thing B i id_ms c1 f))
           = fv_create_thing B i id_ms c1 f
     \<and> entries (thing_key_of B i id_ms) (fv_things (snd (fv_create_thing B i id_ms c1 f)))
           = [(thing_key_of B i id_ms, fst (fv_create_thing B i id_ms c1 f))]
     \<and> fv_create_location B i2 thing_id (fv_create_location B i thing_id f)
           = fv_create_location B i thing_id f
     \<and> (\<exists>l. entries thing_id (fv_locations (fv_create_location B i thing_id f))
           = [(thing_id, l)])
     \<and> fv_create_observed_property p (snd (fv_create_observed_property p f))
           = fv_create_observed_property p f
     \<and> entries p (fv_observed_properties (snd (fv_create_observed_property p f)))
           = [(p, fst (fv_create_observed_property p f))]
     \<and> fv_create_sensor p (snd (fv_create_sensor p f)) = fv_create_sensor p f
     \<and> entries p (fv_sensors (snd (fv_create_sensor p f))) = [(p, fst (fv_create_sensor p f))]
     \<and> fv_create_datastream B i thing_id p x2 y2
           (snd (fv_create_datastream B i thing_id p x1 y1 f))
           = fv_create_datastream B i thing_id p x1 y1 f
     \<and> entries (datastream_key_of B i thing_id p)
           (fv_datastreams (snd (fv_create_datastream B i thing_id p x1 y1 f)))
           = [(datastream_key_of B i thing_id p,
               fst (fv_create_datastream B i thing_id p x1 y1 f))]"
proof -
  from assms(1) have d: "distinct (map fst (things s))" "distinct (map fst (locations s))"
    "distinct (map fst (observed_properties s))" "distinct (map fst (sensors s))"
    "distinct (map fst (datastreams s))"
    by (simp_all add: keys_distinct_def)
  from assms(2) have e: "distinct (map fst (fv_things f))" "distinct (map fst (fv_locations f))"
    "distinct (map fst (fv_observed_properties f))" "distinct (map fst (fv_sensors f))"
    "distinct (map fst (fv_datastreams f))"
    by (simp_all add: fv_keys_distinct_def)
  have loc: "\<exists>l s1. create_location (''thing_'' @ id_ms) s = Inr (l, s1)
           \<and> create_location (''thing_'' @ id_ms) s1 = Inr (l, s1)
           \<and> entries (''thing_'' @ id_ms) (locations s1) = [(''thing_'' @ id_ms, l)]"
  proof -
    obtain l s1 where r: "create_location (''thing_'' @ id_ms) s = Inr (l, s1)"
      using create_location_thing by blast
    from create_location_again [OF r] create_location_one [OF d(2) r] r
    show ?thesis by blast
  qed
  show ?thesis
    by (intro conjI create_thing_again create_thing_entries [OF d(1)] loc
        create_observed_property_again create_observed_property_one [OF d(3)]
        create_sensor_again create_sensor_one [OF d(4)]
        create_datastream_again create_datastream_one [OF d(5)]
        fv_create_thing_again fv_create_thing_one [OF e(1)]
        fv_create_location_again fv_create_location_one [OF e(2)]
        fv_create_observed_property_again fv_create_observed_property_one [OF e(3)]
        fv_create_sensor_again fv_create_sensor_one [OF e(4)]
        fv_create_datastream_again fv_create_datastream_one [OF e(5)])
qed

theorem create_or_get_once_witness:
  "keys_distinct init \<and> fv_keys_distinct fv_init
   \<and> create_thing ''MS1'' ''Soil Sensor'' (snd (create_thing ''MS1'' ''Weather Station'' init))
       = create_thing ''MS1'' ''Weather Station'' init
   \<and> entries ''MS1'' (things (snd (create_thing ''MS1'' ''Weather Station'' init)))
       = [(''MS1'', new_thing ''MS1'' ''Weather Station'')]
   \<and> create_datastream ''thing_MS1'' ''TEMP'' (snd (create_datastream ''thing_MS1'' ''TEMP'' init))
       = create_datastream ''thing_MS1'' ''TEMP'' init"
proof -
  have k: "keys_distinct init" by (simp add: keys_distinct_def init_def)
  have f: "fv_keys_distinct fv_init" by (simp add: fv_keys_distinct_def fv_init_def)
  have t: "fst (create_thing ''MS1'' ''Weather Station'' init) = new_thing ''MS1'' ''Weather Station''"
    by (simp add: create_thing_def init_def)
  from create_or_get_once [OF k f, of "''MS1''" "''Soil Sensor''" "''Weather Station''"
      "''TEMP''" "''thing_MS1''"] k f t
  show ?thesis by simp
qed

text \<open>
  Claim C8, as amended. The converter for the per-entity tables calls \<^verbatim>\<open>uuid.uuid4()\<close> to
  build the default name of every row, so two runs on the same tables (two random
  sources \<open>U1\<close> and \<open>U2\<close>) fail alike or yield documents with the same ids that are
  equal once the names are blanked; the documents are equal when every row of the
  Things, Locations, ObservedProperties, Sensors and Datastreams tables has a name. The
  wide-shape converters have no random source (they are functions of the workbook), and
  in every state they reach each key is registered once and each Thing carries the id
  built from its key.
\<close>

theorem runs_agree_up_to_default_names:
  "map_sum id ids_of (n_excel_to_sensorthings B U1 excel_data)
     = map_sum id ids_of (n_excel_to_sensorthings B U2 excel_data)
   \<and> map_sum id erase_names (n_excel_to_sensorthings B U1 excel_data)
     = map_sum id erase_names (n_excel_to_sensorthings B U2 excel_data)
   \<and> (all_named excel_data \<longrightarrow>
        n_excel_to_sensorthings B U1 excel_data = n_excel_to_sensorthings B U2 excel_data)
   \<and> (for_each (process_sheet B excel_data) names init = Inr s \<longrightarrow>
        list_all (\<lambda>e. t_id (snd e) = ''thing_'' @ fst e) (things s)
        \<and> distinct (map fst (things s)))
   \<and> (for_each (fv_process_sheet B m) sheets fv_init = Inr f \<longrightarrow>
        list_all (\<lambda>e. t_id (snd e) = ''thing_'' @ fst e) (fv_things f)
        \<and> distinct (map fst (fv_things f)))"
proof -
  have 1: "all_named excel_data \<longrightarrow>
        n_excel_to_sensorthings B U1 excel_data = n_excel_to_sensorthings B U2 excel_data"
    by (simp add: n_excel_to_sensorthings_def read_tables_named [of excel_data B U1 U2])
  have 2: "for_each (process_sheet B excel_data) names init = Inr s \<longrightarrow>
        list_all (\<lambda>e. t_id (snd e) = ''thing_'' @ fst e) (things s)
        \<and> distinct (map fst (things s))"
    using process_sheets_inv [of B excel_data names s]
    by (simp add: entities_ok_def keys_distinct_def)
  have 3: "for_each (fv_process_sheet B m) sheets fv_init = Inr f \<longrightarrow>
        list_all (\<lambda>e. t_id (snd e) = ''thing_'' @ fst e) (fv_things f)
        \<and> distinct (map fst (fv_things f))"
    using fv_process_sheets_inv [of B m sheets f]
    by (simp add: fv_entities_ok_def fv_keys_distinct_def)
  from n_excel_to_sensorthings_ids [of B U1 excel_data U2]
    n_excel_to_sensorthings_up_to_names [of B U1 excel_data U2] 1 2 3
  show ?thesis by blast
qed

theorem runs_agree_up_to_default_names_witness:
  "all_named example_tables
   \<and> for_each (process_sheet plain_builtins
                  (sheet_of [''ID_MS'', ''DATUM'', ''TENS20_1''] [row_without_timestamp]))
        [''Tension kPa''] init
      = Inr (init\<lparr>things := [(''MS1'', new_thing ''MS1'' ''Soil Sensor'')],
                   locations := [(''thing_MS1'', new_location ''thing_MS1'' ''MS1'')]\<rparr>)
   \<and> for_each (fv_process_sheet plain_builtins []) [] fv_init = Inr fv_init
   \<and> n_excel_to_sensorthings plain_builtins no_uuids example_tables
      = n_excel_to_sensorthings plain_builtins other_uuids example_tables
   \<and> list_all (\<lambda>e. t_id (snd e) = ''thing_'' @ fst e)
        (things (init\<lparr>things := [(''MS1'', new_thing ''MS1'' ''Soil Sensor'')],
                      locations := [(''thing_MS1'', new_location ''thing_MS1'' ''MS1'')]\<rparr>))
   \<and> list_all (\<lambda>e. t_id (snd e) = ''thing_'' @ fst e) (fv_things fv_init)"
proof -
  let ?s = "init\<lparr>things := [(''MS1'', new_thing ''MS1'' ''Soil Sensor'')],
                  locations := [(''thing_MS1'', new_location ''thing_MS1'' ''MS1'')]\<rparr>"
  have a: "all_named example_tables"
    by (simp add: all_named_def rows_of_def example_tables_def)
  have b: "for_each (process_sheet plain_builtins
                  (sheet_of [''ID_MS'', ''DATUM'', ''TENS20_1''] [row_without_timestamp]))
        [''Tension kPa''] init = Inr ?s"
    by (simp add: run_defs row_without_timestamp_def new_thing_def new_location_def)
  have c: "for_each (fv_process_sheet plain_builtins []) [] fv_init = Inr fv_init"
    by simp
  from runs_agree_up_to_default_names [of plain_builtins no_uuids example_tables other_uuids
      "[''Tension kPa'']" ?s "[]" "[]" fv_init] a
  have "n_excel_to_sensorthings plain_builtins no_uuids example_tables
      = n_excel_to_sensorthings plain_builtins other_uuids example_tables"
    and "for_each (process_sheet plain_builtins example_tables) [''Tension kPa''] init = Inr ?s \<longrightarrow>
      list_all (\<lambda>e. t_id (snd e) = ''thing_'' @ fst e) (things ?s)"
    and "list_all (\<lambda>e. t_id (snd e) = ''thing_'' @ fst e) (fv_things fv_init)"
    by simp_all
  moreover
  from runs_agree_up_to_default_names [of plain_builtins no_uuids
      "sheet_of [''ID_MS'', ''DATUM'', ''TENS20_1''] [row_without_timestamp]" other_uuids
      "[''Tension kPa'']" ?s "[]" "[]" fv_init] b
  have "list_all (\<lambda>e. t_id (snd e) = ''thing_'' @ fst e) (things ?s)"
    by blast
  ultimately show ?thesis using a b c by blast
qed

text \<open>
  The claim as stated fails: a Things row without a name gets the name \<open>Thing_\<close>
  followed by a fresh random uuid, so two runs on the same table yield documents that
  differ.
\<close>

theorem random_default_name_counterexample:
  "n_excel_to_sensorthings plain_builtins no_uuids nameless_tables
     \<noteq> n_excel_to_sensorthings plain_builtins other_uuids nameless_tables"
proof -
  have r: "read_tables plain_builtins U nameless_tables
      = Inr (1, sta_init\<lparr>sd_Things :=
                 [\<lparr>nt_id = None, nt_name = Text (''Thing_'' @ U 0),
                   nt_description = Text ''station'', nt_properties = Parsed (JObj []),
                   nt_Locations = None, nt_Datastreams = None\<rparr>]\<rparr>)" for U
    by (simp add: read_tables_def read_table_def nameless_tables_def thing_row_def
          json_field_def row_get_def sta_init_def)
  have n: "map_sum id n_names_of (n_excel_to_sensorthings plain_builtins U nameless_tables)
      = Inr [(Text (''Thing_'' @ U 0), [])]" for U
    by (simp add: n_excel_to_sensorthings_def r n_construct_nested_structure_eq
          n_names_of_def n_datastream_names_def nested_thing_def thing_head_def
          datastreams_for_def locations_of_def sta_init_def)
  have "map_sum id n_names_of (n_excel_to_sensorthings plain_builtins no_uuids nameless_tables)
      \<noteq> map_sum id n_names_of (n_excel_to_sensorthings plain_builtins other_uuids nameless_tables)"
    unfolding n by (simp add: no_uuids_def other_uuids_def)
  then show ?thesis by auto
qed

section \<open>The Things of the table and their positional ids\<close>

lemma thing_rows_descriptions:
  assumes "for_each (thing_row B U) rows st = Inr st'"
  shows "map nt_description (sd_Things (snd st'))
           = map nt_description (sd_Things (snd st))
             @ map (\<lambda>r. row_get r ''description'' (Text [])) rows"
  using assms
proof (induction rows arbitrary: st)
  case Nil
  then show ?case by simp
next
  case (Cons r rows)
  from Cons.prems obtain st1 where 1: "thing_row B U r st = Inr st1"
    and 2: "for_each (thing_row B U) rows st1 = Inr st'"
    by (auto split: sum.splits)
  from 1 have "map nt_description (sd_Things (snd st1))
      = map nt_description (sd_Things (snd st)) @ [row_get r ''description'' (Text [])]"
    by (auto simp: thing_row_def split: sum.splits)
  with Cons.IH [OF 2] show ?case by simp
qed

lemma other_rows_keep_things:
  shows "location_row B U r st = Inr st' \<Longrightarrow> sd_Things (snd st') = sd_Things (snd st)"
    and "observed_property_row B U r st = Inr st' \<Longrightarrow> sd_Things (snd st') = sd_Things (snd st)"
    and "sensor_row B U r st = Inr st' \<Longrightarrow> sd_Things (snd st') = sd_Things (snd st)"
    and "datastream_row B U r st = Inr st' \<Longrightarrow> sd_Things (snd st') = sd_Things (snd st)"
    and "observation_row B U r st = Inr st' \<Longrightarrow> sd_Things (snd st') = sd_Things (snd st)"
  by (auto simp: location_row_def observed_property_row_def sensor_row_def datastream_row_def
        observation_row_def split: sum.splits)

lemma read_table_keeps_things:
  assumes "\<And>r st st'. f r st = Inr st' \<Longrightarrow> sd_Things (snd st') = sd_Things (snd st)"
    and "read_table excel_data name f st = Inr st'"
  shows "sd_Things (snd st') = sd_Things (snd st)"
  using assms(2) unfolding read_table_rows
  by (rule for_each_invariant [where P = "\<lambda>x. sd_Things (snd x) = sd_Things (snd st)", rotated 2])
     (auto dest: assms(1))

lemma read_tables_things:
  assumes "read_tables B U excel_data = Inr st"
  shows "map nt_description (sd_Things (snd st))
           = map (\<lambda>r. row_get r ''description'' (Text [])) (rows_of excel_data ''Things'')"
proof -
  from assms obtain st1 st2 st3 st4 st5 where
    1: "read_table excel_data ''Things'' (thing_row B U) (0, sta_init) = Inr st1"
    and 2: "read_table excel_data ''Locations'' (location_row B U) st1 = Inr st2"
    and 3: "read_table excel_data ''ObservedProperties'' (observed_property_row B U) st2 = Inr st3"
    and 4: "read_table excel_data ''Sensors'' (sensor_row B U) st3 = Inr st4"
    and 5: "read_table excel_data ''Datastreams'' (datastream_row B U) st4 = Inr st5"
    and 6: "read_table excel_data ''Observations'' (observation_row B U) st5 = Inr st"
    by (auto simp: read_tables_def split: sum.splits)
  have "sd_Things (snd st) = sd_Things (snd st1)"
    using read_table_keeps_things [OF other_rows_keep_things(1) 2]
      read_table_keeps_things [OF other_rows_keep_things(2) 3]
      read_table_keeps_things [OF other_rows_keep_things(3) 4]
      read_table_keeps_things [OF other_rows_keep_things(4) 5]
      read_table_keeps_things [OF other_rows_keep_things(5) 6]
    by simp
  moreover have "map nt_description (sd_Things (snd st1))
      = map (\<lambda>r. row_get r ''description'' (Text [])) (rows_of excel_data ''Things'')"
    using thing_rows_descriptions [OF 1 [unfolded read_table_rows]] by (simp add: sta_init_def)
  ultimately show ?thesis by simp
qed

lemma refers_to_Number: "refers_to fk (Number x) \<longleftrightarrow> fk = Some (Number x)"
  by (cases fk) (auto simp: refers_to_def dest: cell_eq_eq)

text \<open>
  Claim C9. In the assembly of the per-entity tables, the Thing at position \<open>k\<close> (from
  0) of the Things list that carries no \<^verbatim>\<open>@iot.id\<close> is emitted with the id \<open>k + 1\<close>: the
  number of Things emitted before it, plus one. Its Locations are exactly the
  Locations of the table whose \<open>thing_id\<close> is that number, and its Datastreams exactly
  the Datastreams of the table whose \<open>thing_id\<close> is that number, each in table order
  (and the key is left out when there are none). When the tables are read from a
  workbook, no Thing carries an id, and the Things are the rows of the Things table in
  order, so \<open>k + 1\<close> is the 1-based index of the row.
\<close>

theorem positional_thing_id:
  assumes "k < length (sd_Things sta)" and "nt_id (sd_Things sta ! k) = None"
  shows
    "length (n_Things (n_construct_nested_structure sta)) = length (sd_Things sta)
     \<and> nt_id (n_Things (n_construct_nested_structure sta) ! k) = Some (Number (real (k + 1)))
     \<and> nt_Locations (n_Things (n_construct_nested_structure sta) ! k) =
         (if locations_of sta (Number (real (k + 1))) = [] then nt_Locations (sd_Things sta ! k)
          else Some (locations_of sta (Number (real (k + 1)))))
     \<and> locations_of sta (Number (real (k + 1)))
         = filter (\<lambda>l. nl_Thing l = Some (Number (real (k + 1)))) (sd_Locations sta)
     \<and> nt_Datastreams (n_Things (n_construct_nested_structure sta) ! k) =
         (if datastreams_for sta (Number (real (k + 1))) = [] then nt_Datastreams (sd_Things sta ! k)
          else Some (map (nested_datastream sta) (datastreams_for sta (Number (real (k + 1))))))
     \<and> datastreams_for sta (Number (real (k + 1)))
         = filter (\<lambda>d. nd_Thing d = Some (Number (real (k + 1)))) (sd_Datastreams sta)
     \<and> (read_tables B U excel_data = Inr (n, sta) \<longrightarrow>
          (\<forall>j < length (sd_Things sta). nt_id (sd_Things sta ! j) = None)
          \<and> map nt_description (sd_Things sta)
              = map (\<lambda>r. row_get r ''description'' (Text [])) (rows_of excel_data ''Things''))"
proof -
  have i: "assigned_id sta k = Number (real (k + 1))"
    using assms(2) by (simp add: assigned_id_def)
  have r: "read_tables B U excel_data = Inr (n, sta) \<longrightarrow>
          (\<forall>j < length (sd_Things sta). nt_id (sd_Things sta ! j) = None)
          \<and> map nt_description (sd_Things sta)
              = map (\<lambda>r. row_get r ''description'' (Text [])) (rows_of excel_data ''Things'')"
    using read_tables_as_read [of B U excel_data "(n, sta)"]
      read_tables_things [of B U excel_data "(n, sta)"]
    by (auto simp: as_read_def list_all_length)
  have l: "locations_of sta (Number (real (k + 1)))
         = filter (\<lambda>l. nl_Thing l = Some (Number (real (k + 1)))) (sd_Locations sta)"
    and d: "datastreams_for sta (Number (real (k + 1)))
         = filter (\<lambda>d. nd_Thing d = Some (Number (real (k + 1)))) (sd_Datastreams sta)"
    by (simp_all add: locations_of_def datastreams_for_def refers_to_Number)
  have n: "length (n_Things (n_construct_nested_structure sta)) = length (sd_Things sta)"
    by (simp add: n_construct_nested_structure_eq)
  from nested_thing_fields [of sta k] show ?thesis
    unfolding nth_nested_thing [OF assms(1)] i using r l d n by simp
qed

theorem positional_thing_id_witness:
  "Suc 0 < length (sd_Things example_sta)
   \<and> nt_id (sd_Things example_sta ! Suc 0) = None
   \<and> read_tables plain_builtins no_uuids example_tables = Inr (4, example_sta)
   \<and> nt_id (n_Things (n_construct_nested_structure example_sta) ! Suc 0) = Some (Number 2)
   \<and> nt_Datastreams (n_Things (n_construct_nested_structure example_sta) ! Suc 0) = None
   \<and> map nt_description (sd_Things example_sta) = [Text [], Text []]"
proof -
  have k: "Suc 0 < length (sd_Things example_sta)"
    and i: "nt_id (sd_Things example_sta ! Suc 0) = None"
    by (simp_all add: example_sta_def example_thing_def)
  have d: "filter (\<lambda>d. nd_Thing d = Some (Number 2)) (sd_Datastreams example_sta) = []"
    by (simp add: example_sta_def example_datastream_def)
  have x: "nt_Datastreams (sd_Things example_sta ! Suc 0) = None"
    by (simp add: example_sta_def example_thing_def)
  have t: "rows_of example_tables ''Things'' = [[(''name'', Text ''A'')], [(''name'', Text ''B'')]]"
    by (simp add: rows_of_def example_tables_def)
  from positional_thing_id [OF k i, of plain_builtins no_uuids example_tables 4]
    read_example_tables d x
  have "nt_id (n_Things (n_construct_nested_structure example_sta) ! Suc 0) = Some (Number 2)"
    and "nt_Datastreams (n_Things (n_construct_nested_structure example_sta) ! Suc 0) = None"
    and "map nt_description (sd_Things example_sta) = [Text [], Text []]"
    by (simp_all add: t row_get_def)
  with k i read_example_tables show ?thesis by blast
qed

text \<open>
  Claim C10. The assembly of the converter with the legend lookup, run on the stores
  that the loops over the sheets have built (each entry an object of its own in the
  memory), returns, and the document it returns, every address replaced by its object,
  is the document of the assembly by value; and whenever it returns, from any memory,
  the four local variables
  \<open>things\<close>, \<open>locations\<close>, \<open>datastreams\<close> and \<open>observations\<close> hold what they held, and
  every Thing, Datastream and Observation object that existed before is unchanged at
  its address: the Locations and Datastreams are attached to a copy of the Thing, the
  Observations to a copy of the Datastream, and the back-reference is removed from a
  copy of the Observation.
\<close>

theorem assembly_leaves_stores:
  "(\<exists>r. h_assemble (load s) = Inr r \<and> document_of r = fv_assemble s)
   \<and> (h_assemble M = Inr r \<longrightarrow>
        m_things (fst r) = m_things M \<and> m_locations (fst r) = m_locations M
        \<and> m_datastreams (fst r) = m_datastreams M
        \<and> m_observations (fst r) = m_observations M
        \<and> take (length (h_things M)) (h_things (fst r)) = h_things M
        \<and> take (length (h_datastreams M)) (h_datastreams (fst r)) = h_datastreams M
        \<and> take (length (h_observations M)) (h_observations (fst r)) = h_observations M)"
  using h_assemble_document [of s] h_assemble_preserves [of M r]
  by (auto simp: preserves_def prefix_take)

lemma h_assemble_example:
  "h_assemble (load example_stores) = Inr (example_memory_after, [1])"
  by (simp add: h_assemble_def load_def example_stores_def h_thing_step_def copy_thing_def
        h_datastream_step_def copy_datastream_def h_observation_step_def copy_observation_def
        pop_Datastream_def set_Observations_def set_Datastreams_def set_Locations_def
        example_memory_after_def example_h_observation_def example_observation_def
        example_thing_entity_def example_datastream_entity_def fv_new_thing_def
        fv_new_datastream_def thing_key_of_def startswith_def Let_def)

theorem assembly_leaves_stores_witness:
  "h_assemble (load example_stores) = Inr (example_memory_after, [1])
   \<and> document_of (example_memory_after, [1]) = fv_assemble example_stores
   \<and> m_observations example_memory_after = m_observations (load example_stores)
   \<and> m_datastreams example_memory_after = m_datastreams (load example_stores)
   \<and> take (length (h_observations (load example_stores))) (h_observations example_memory_after)
       = h_observations (load example_stores)
   \<and> take (length (h_datastreams (load example_stores))) (h_datastreams example_memory_after)
       = h_datastreams (load example_stores)
   \<and> take (length (h_things (load example_stores))) (h_things example_memory_after)
       = h_things (load example_stores)"
  using assembly_leaves_stores [of example_stores "load example_stores"
      "(example_memory_after, [1])"] h_assemble_example
  by simp

end
